(* ===== verification/Mail_Prelude.thy ===== *)
theory Mail_Prelude
  imports Main "HOL-Library.Word" "HOL-Library.AList" "HOL-Library.Sublist"
begin

text \<open>
  Shared ground of the development: the error type of the daemon (\<^verbatim>\<open>error.rs\<close>), results with
  the panics of Rust as a third outcome, effects as functions on a world, JSON values and the
  accessors the handlers use on them, the record of third-party functions the code calls, and
  two interfaces used by several components: keyed tables and labelled transition systems.

  A Rust \<^verbatim>\<open>String\<close> is its UTF-8 byte sequence, hence a \<^typ>\<open>string\<close>.
\<close>

named_theorems res_simps \<open>unfolding rules of the result and effect combinators\<close>
named_theorems json_simps \<open>equations of the JSON accessors\<close>

section \<open>Errors and results\<close>

datatype Error =
    Config string
  | NotFound string
  | PermissionDenied string
  | Provider string
  | OAuth string
  | Storage string
  | Keychain string
  | Io string
  | Http string
  | Json string
  | ApprovalTimeout
  | ApprovalRejected
  | Internal string

primrec error_to_string :: "Error \<Rightarrow> string" where
  "error_to_string (Config s) = ''config error: '' @ s"
| "error_to_string (NotFound s) = ''not found: '' @ s"
| "error_to_string (PermissionDenied s) = ''permission denied: '' @ s"
| "error_to_string (Provider s) = ''provider error: '' @ s"
| "error_to_string (OAuth s) = ''oauth error: '' @ s"
| "error_to_string (Storage s) = ''storage error: '' @ s"
| "error_to_string (Keychain s) = ''keychain error: '' @ s"
| "error_to_string (Io s) = ''io error: '' @ s"
| "error_to_string (Http s) = ''http error: '' @ s"
| "error_to_string (Json s) = ''json error: '' @ s"
| "error_to_string ApprovalTimeout = ''approval timed out''"
| "error_to_string ApprovalRejected = ''approval rejected by user''"
| "error_to_string (Internal s) = ''internal: '' @ s"

text \<open>A call returns a value, returns an error, or panics.\<close>

datatype 'a res = Ok 'a | Err Error | Panic string

primrec res_bind :: "'a res \<Rightarrow> ('a \<Rightarrow> 'b res) \<Rightarrow> 'b res" where
  "res_bind (Ok a) f = f a"
| "res_bind (Err e) f = Err e"
| "res_bind (Panic p) f = Panic p"

primrec is_ok :: "'a res \<Rightarrow> bool" where
  "is_ok (Ok a) = True"
| "is_ok (Err e) = False"
| "is_ok (Panic p) = False"

primrec is_panic :: "'a res \<Rightarrow> bool" where
  "is_panic (Ok a) = False"
| "is_panic (Err e) = False"
| "is_panic (Panic p) = True"

definition ok_or :: "Error \<Rightarrow> 'a option \<Rightarrow> 'a res" where
  "ok_or e x = (case x of None \<Rightarrow> Err e | Some a \<Rightarrow> Ok a)"

definition unwrap_or :: "'a \<Rightarrow> 'a option \<Rightarrow> 'a" where
  "unwrap_or d x = (case x of None \<Rightarrow> d | Some a \<Rightarrow> a)"

text \<open>\<open>map_err f r\<close> for a third-party result whose error is a text.\<close>

definition map_err :: "(string \<Rightarrow> Error) \<Rightarrow> string + 'a \<Rightarrow> 'a res" where
  "map_err f r = (case r of Inl e \<Rightarrow> Err (f e) | Inr a \<Rightarrow> Ok a)"

text \<open>Collecting an iterator of results stops at the first one that is not \<^const>\<open>Ok\<close>.\<close>

primrec collect_res :: "('a \<Rightarrow> 'b res) \<Rightarrow> 'a list \<Rightarrow> 'b list res" where
  "collect_res f [] = Ok []"
| "collect_res f (x # xs) = res_bind (f x) (\<lambda>y. res_bind (collect_res f xs) (\<lambda>ys. Ok (y # ys)))"

lemma res_bind_Ok_iff: "res_bind r f = Ok b \<longleftrightarrow> (\<exists>a. r = Ok a \<and> f a = Ok b)"
  by (cases r) auto

lemma is_panic_bind [simp]:
  "is_panic (res_bind r f) \<longleftrightarrow> is_panic r \<or> (\<exists>a. r = Ok a \<and> is_panic (f a))"
  by (cases r) auto

lemma is_panic_ok_or [simp]: "\<not> is_panic (ok_or e x)"
  by (simp add: ok_or_def split: option.split)

lemma is_panic_map_err [simp]: "\<not> is_panic (map_err f r)"
  by (simp add: map_err_def split: sum.split)

lemma ok_or_Ok_iff [simp]: "ok_or e x = Ok a \<longleftrightarrow> x = Some a"
  by (simp add: ok_or_def split: option.split)

lemma unwrap_or_simps [simp]: "unwrap_or d None = d" "unwrap_or d (Some a) = a"
  by (simp_all add: unwrap_or_def)

lemma ok_or_simps [simp]: "ok_or e None = Err e" "ok_or e (Some a) = Ok a"
  by (simp_all add: ok_or_def)

lemma map_err_simps [simp]: "map_err f (Inl m) = Err (f m)" "map_err f (Inr a) = Ok a"
  by (simp_all add: map_err_def)

lemma map_err_Ok_iff: "map_err f r = Ok a \<longleftrightarrow> r = Inr a"
  by (cases r) auto

lemma collect_res_Ok_map:
  "(\<And>x. x \<in> set xs \<Longrightarrow> f x = Ok (g x)) \<Longrightarrow> collect_res f xs = Ok (map g xs)"
  by (induction xs) auto

lemma collect_res_Ok_D:
  "collect_res f xs = Ok ys \<Longrightarrow> list_all2 (\<lambda>x y. f x = Ok y) xs ys"
  by (induction xs arbitrary: ys) (auto simp: res_bind_Ok_iff)

lemma collect_res_Ok_length: "collect_res f xs = Ok ys \<Longrightarrow> length ys = length xs"
  by (drule collect_res_Ok_D) (simp add: list_all2_lengthD)

lemma collect_res_no_panic:
  "(\<And>x. x \<in> set xs \<Longrightarrow> \<not> is_panic (f x)) \<Longrightarrow> \<not> is_panic (collect_res f xs)"
  by (induction xs) auto

section \<open>Effects on a world\<close>

type_synonym ('w, 'a) io = "'w \<Rightarrow> 'a res \<times> 'w"

definition io_ret :: "'a \<Rightarrow> ('w, 'a) io" where
  "io_ret a w = (Ok a, w)"

definition io_res :: "'a res \<Rightarrow> ('w, 'a) io" where
  "io_res r w = (r, w)"

text \<open>The question mark operator: an error or a panic ends the caller as well.\<close>

definition io_bind :: "('w, 'a) io \<Rightarrow> ('a \<Rightarrow> ('w, 'b) io) \<Rightarrow> ('w, 'b) io" where
  "io_bind m f w = (case m w of
      (Ok a, w') \<Rightarrow> f a w'
    | (Err e, w') \<Rightarrow> (Err e, w')
    | (Panic p, w') \<Rightarrow> (Panic p, w'))"

text \<open>\<open>let _ = \<dots>;\<close> in front of a fallible call drops its result.\<close>

definition io_ignore :: "('w, 'a) io \<Rightarrow> ('w, unit) io" where
  "io_ignore m w = (Ok (), snd (m w))"

text \<open>A loop that stops at the first failing iteration.\<close>

primrec io_for :: "('a \<Rightarrow> ('w, unit) io) \<Rightarrow> 'a list \<Rightarrow> ('w, unit) io" where
  "io_for f [] = io_ret ()"
| "io_for f (x # xs) = io_bind (f x) (\<lambda>_. io_for f xs)"

text \<open>A loop that pushes one element per iteration.\<close>

primrec io_map :: "('a \<Rightarrow> ('w, 'b) io) \<Rightarrow> 'a list \<Rightarrow> ('w, 'b list) io" where
  "io_map f [] = io_ret []"
| "io_map f (x # xs) = io_bind (f x) (\<lambda>y. io_bind (io_map f xs) (\<lambda>ys. io_ret (y # ys)))"

lemma io_ret_apply [simp, res_simps]: "io_ret a w = (Ok a, w)"
  by (simp add: io_ret_def)

lemma io_res_apply [simp, res_simps]: "io_res r w = (r, w)"
  by (simp add: io_res_def)

lemma io_ignore_apply [simp, res_simps]: "io_ignore m w = (Ok (), snd (m w))"
  by (simp add: io_ignore_def)

lemma io_bind_simps [simp]:
  "m w = (Ok a, w') \<Longrightarrow> io_bind m f w = f a w'"
  "m w = (Err e, w') \<Longrightarrow> io_bind m f w = (Err e, w')"
  "m w = (Panic p, w') \<Longrightarrow> io_bind m f w = (Panic p, w')"
  by (simp_all add: io_bind_def)

lemma io_bind_ret [simp]: "io_bind (io_ret a) f = f a"
  by (rule ext) (simp add: io_bind_def)

lemma io_bind_assoc: "io_bind (io_bind m f) g = io_bind m (\<lambda>a. io_bind (f a) g)"
  by (rule ext) (simp add: io_bind_def split: prod.splits res.splits)

lemma io_bind_Ok_iff:
  "io_bind m f w = (Ok b, w'') \<longleftrightarrow> (\<exists>a w'. m w = (Ok a, w') \<and> f a w' = (Ok b, w''))"
  by (auto simp: io_bind_def split: prod.splits res.splits)

lemma io_bind_Ok_E:
  assumes "io_bind m f w = (Ok b, w'')"
  obtains a w' where "m w = (Ok a, w')" and "f a w' = (Ok b, w'')"
  using assms by (auto simp: io_bind_Ok_iff)

text \<open>
  \<open>keeps P m\<close>: the effect \<open>m\<close> keeps the property \<open>P\<close> of the world, whatever it returns. The
  rules below lift it through every combinator.
\<close>

definition keeps :: "('w \<Rightarrow> bool) \<Rightarrow> ('w, 'a) io \<Rightarrow> bool" where
  "keeps P m \<longleftrightarrow> (\<forall>w. P w \<longrightarrow> P (snd (m w)))"

lemma keepsD: "keeps P m \<Longrightarrow> P w \<Longrightarrow> P (snd (m w))"
  by (simp add: keeps_def)

lemma keeps_ret [intro]: "keeps P (io_ret a)"
  by (simp add: keeps_def)

lemma keeps_res [intro]: "keeps P (io_res r)"
  by (simp add: keeps_def)

lemma keeps_bind [intro]:
  assumes "keeps P m" and "\<And>a. keeps P (f a)"
  shows "keeps P (io_bind m f)"
  unfolding keeps_def
proof (intro allI impI)
  fix w assume "P w"
  then have "P (snd (m w))" using assms(1) by (rule keepsD [rotated])
  then show "P (snd (io_bind m f w))"
    using keepsD [OF assms(2)] by (auto simp: io_bind_def split: prod.splits res.splits)
qed

lemma keeps_ignore [intro]: "keeps P m \<Longrightarrow> keeps P (io_ignore m)"
  by (simp add: keeps_def)

lemma keeps_for [intro]: "(\<And>x. x \<in> set xs \<Longrightarrow> keeps P (f x)) \<Longrightarrow> keeps P (io_for f xs)"
  by (induction xs) auto

lemma keeps_map [intro]: "(\<And>x. x \<in> set xs \<Longrightarrow> keeps P (f x)) \<Longrightarrow> keeps P (io_map f xs)"
  by (induction xs) auto

lemma io_for_append: "io_for f (xs @ ys) = io_bind (io_for f xs) (\<lambda>_. io_for f ys)"
  by (induction xs) (auto simp: io_bind_assoc)

text \<open>A call that cannot panic; the rules mirror those of \<^const>\<open>keeps\<close>.\<close>

definition panic_free :: "('w, 'a) io \<Rightarrow> bool" where
  "panic_free m \<longleftrightarrow> (\<forall>w. \<not> is_panic (fst (m w)))"

lemma panic_free_ret [intro]: "panic_free (io_ret a)"
  by (simp add: panic_free_def)

lemma panic_free_res [intro]: "\<not> is_panic r \<Longrightarrow> panic_free (io_res r)"
  by (simp add: panic_free_def)

lemma panic_free_bind [intro]:
  assumes "panic_free m" and "\<And>a. panic_free (f a)"
  shows "panic_free (io_bind m f)"
  unfolding panic_free_def
proof
  fix w
  obtain r w' where m: "m w = (r, w')" by (cases "m w")
  then have "\<not> is_panic r" using assms(1) by (metis panic_free_def fst_conv)
  then show "\<not> is_panic (fst (io_bind m f w))"
    using assms(2) m by (cases r) (auto simp: panic_free_def)
qed

lemma panic_free_for [intro]:
  "(\<And>x. x \<in> set xs \<Longrightarrow> panic_free (f x)) \<Longrightarrow> panic_free (io_for f xs)"
  by (induction xs) auto

lemma panic_free_map [intro]:
  "(\<And>x. x \<in> set xs \<Longrightarrow> panic_free (f x)) \<Longrightarrow> panic_free (io_map f xs)"
  by (induction xs) auto

text \<open>
  \<open>safe b P m\<close>: the call keeps \<open>P\<close>, and cannot panic under the condition \<open>b\<close> on its environment.
\<close>

definition safe :: "bool \<Rightarrow> ('w \<Rightarrow> bool) \<Rightarrow> ('w, 'a) io \<Rightarrow> bool" where
  "safe b P m \<longleftrightarrow> keeps P m \<and> (b \<longrightarrow> panic_free m)"

lemma safe_ret [intro]: "safe b P (io_ret a)"
  by (auto simp: safe_def)

lemma safe_res [intro]: "(b \<Longrightarrow> \<not> is_panic r) \<Longrightarrow> safe b P (io_res r)"
  by (auto simp: safe_def)

lemma safe_bind [intro]: "safe b P m \<Longrightarrow> (\<And>a. safe b P (f a)) \<Longrightarrow> safe b P (io_bind m f)"
  by (auto simp: safe_def)

lemma safe_for [intro]: "(\<And>x. x \<in> set xs \<Longrightarrow> safe b P (f x)) \<Longrightarrow> safe b P (io_for f xs)"
  by (auto simp: safe_def)

lemma safe_map [intro]: "(\<And>x. x \<in> set xs \<Longrightarrow> safe b P (f x)) \<Longrightarrow> safe b P (io_map f xs)"
  by (auto simp: safe_def)

lemma safe_if: "(c \<Longrightarrow> safe b P m) \<Longrightarrow> (\<not> c \<Longrightarrow> safe b P n) \<Longrightarrow> safe b P (if c then m else n)"
  by simp

lemma safeD: "safe b P m \<Longrightarrow> P w \<Longrightarrow> P (snd (m w))" "safe b P m \<Longrightarrow> b \<Longrightarrow> \<not> is_panic (fst (m w))"
  by (simp_all add: safe_def keeps_def panic_free_def)

lemma safeI: "(\<And>w. P w \<Longrightarrow> P (snd (m w))) \<Longrightarrow> (\<And>w. b \<Longrightarrow> \<not> is_panic (fst (m w))) \<Longrightarrow> safe b P m"
  by (simp add: safe_def keeps_def panic_free_def)

section \<open>JSON values\<close>

text \<open>
  The values of \<^verbatim>\<open>serde_json::Value\<close>: numbers are unsigned, negative or floating 64-bit words,
  an object is the list of its members.
\<close>

datatype json_number = PosInt "64 word" | NegInt "64 word" | Float "64 word"

datatype json =
    JNull
  | JBool bool
  | JNumber json_number
  | JString string
  | JArray "json list"
  | JObject "(string \<times> json) list"

fun json_get :: "string \<Rightarrow> json \<Rightarrow> json option" where
  "json_get k (JObject kvs) = map_of kvs k"
| "json_get k _ = None"

fun as_str :: "json \<Rightarrow> string option" where
  "as_str (JString s) = Some s"
| "as_str _ = None"

fun as_bool :: "json \<Rightarrow> bool option" where
  "as_bool (JBool b) = Some b"
| "as_bool _ = None"

fun as_u64 :: "json \<Rightarrow> 64 word option" where
  "as_u64 (JNumber (PosInt n)) = Some n"
| "as_u64 _ = None"

fun as_array :: "json \<Rightarrow> json list option" where
  "as_array (JArray xs) = Some xs"
| "as_array _ = None"

text \<open>The chain \<open>v.get(k).and_then(|v| v.as_str())\<close> and its relatives.\<close>

definition get_str :: "string \<Rightarrow> json \<Rightarrow> string option" where
  "get_str k v = Option.bind (json_get k v) as_str"

definition get_bool :: "string \<Rightarrow> json \<Rightarrow> bool option" where
  "get_bool k v = Option.bind (json_get k v) as_bool"

definition get_u64 :: "string \<Rightarrow> json \<Rightarrow> 64 word option" where
  "get_u64 k v = Option.bind (json_get k v) as_u64"

definition get_array :: "string \<Rightarrow> json \<Rightarrow> json list option" where
  "get_array k v = Option.bind (json_get k v) as_array"

declare json_get.simps [json_simps] as_str.simps [json_simps] as_bool.simps [json_simps]
  as_u64.simps [json_simps] as_array.simps [json_simps] get_str_def [json_simps]
  get_bool_def [json_simps] get_u64_def [json_simps] get_array_def [json_simps]

text \<open>What the derived deserialisers do with one member of an object.\<close>

fun de_strings :: "json list \<Rightarrow> string list option" where
  "de_strings [] = Some []"
| "de_strings (JString s # vs) = map_option (Cons s) (de_strings vs)"
| "de_strings (_ # vs) = None"

fun de_vec_string :: "json \<Rightarrow> string list option" where
  "de_vec_string (JArray vs) = de_strings vs"
| "de_vec_string _ = None"

definition de_required :: "(json \<Rightarrow> 'a option) \<Rightarrow> string \<Rightarrow> json \<Rightarrow> 'a option" where
  "de_required f k v = Option.bind (json_get k v) f"

definition de_default :: "'a \<Rightarrow> (json \<Rightarrow> 'a option) \<Rightarrow> string \<Rightarrow> json \<Rightarrow> 'a option" where
  "de_default d f k v = (case json_get k v of None \<Rightarrow> Some d | Some x \<Rightarrow> f x)"

definition de_option :: "(json \<Rightarrow> 'a option) \<Rightarrow> string \<Rightarrow> json \<Rightarrow> 'a option option" where
  "de_option f k v = (case json_get k v of
      None \<Rightarrow> Some None
    | Some JNull \<Rightarrow> Some None
    | Some x \<Rightarrow> map_option Some (f x))"

text \<open>
  A derived deserialiser also accepts a JSON array as the list of the fields in the order of
  their declaration; \<open>n\<close> is the position after the last field without a default.
\<close>

definition struct_view :: "nat \<Rightarrow> string list \<Rightarrow> json \<Rightarrow> json" where
  "struct_view n names v = (case v of
      JArray vs \<Rightarrow> if n \<le> length vs \<and> length vs \<le> length names then JObject (zip names vs) else JNull
    | _ \<Rightarrow> v)"

text \<open>A derived deserialiser of a struct: anything but an object or such an array is refused.\<close>

definition de_struct :: "nat \<Rightarrow> string list \<Rightarrow> (json \<Rightarrow> 'a option) \<Rightarrow> json \<Rightarrow> 'a option" where
  "de_struct n names f value = (case struct_view n names value of
      JObject kvs \<Rightarrow> f (JObject kvs)
    | _ \<Rightarrow> None)"

lemma de_struct_object [simp]: "de_struct n names f (JObject kvs) = f (JObject kvs)"
  by (simp add: de_struct_def struct_view_def)

lemma struct_view_object [simp]: "struct_view n names (JObject kvs) = JObject kvs"
  by (simp add: struct_view_def)

fun as_i64 :: "json \<Rightarrow> int option" where
  "as_i64 (JNumber (PosInt n)) = (if unat n < 2 ^ 63 then Some (int (unat n)) else None)"
| "as_i64 (JNumber (NegInt n)) = Some (sint n)"
| "as_i64 _ = None"

lemma de_strings_map [simp]: "de_strings (map JString xs) = Some xs"
  by (induction xs) auto

lemma de_vec_string_map [simp]: "de_vec_string (JArray (map JString xs)) = Some xs"
  by simp

lemmas de_defs = de_required_def de_default_def de_option_def

text \<open>Members are smaller than the value they come from, so deserialisers may recurse on them.\<close>

lemma size_map_of:
  "map_of kvs k = Some x \<Longrightarrow> size x < Suc (size_list (size_prod (\<lambda>_. 0) size) kvs)"
  by (induction kvs) (auto split: if_splits)

lemma size_json_get: "json_get k v = Some x \<Longrightarrow> size x < size v"
  using size_map_of by (cases v) fastforce+

lemma size_list_member: "x \<in> set xs \<Longrightarrow> size x < Suc (size_list size xs)"
  by (induction xs) auto

lemma size_struct_get: "json_get k (struct_view n names v) = Some x \<Longrightarrow> size x < size v"
proof (cases v)
  case (JArray vs)
  assume "json_get k (struct_view n names v) = Some x"
  with JArray have "x \<in> set vs"
    by (auto simp: struct_view_def dest!: map_of_SomeD split: if_splits dest: set_zip_rightD)
  then show ?thesis using JArray size_list_member by fastforce
qed (auto simp: struct_view_def dest: size_map_of)

section \<open>Third-party functions\<close>

text \<open>
  The functions of other packages that the code calls, as one record: every definition that uses
  one takes the record as its argument. Nothing is assumed of them here; a theorem that relies on
  documented behaviour of one states it as a hypothesis.
  Identifiers are ULIDs, 128-bit values; a point in time is an integer number of nanoseconds.
\<close>

type_synonym ulid = "128 word"
type_synonym datetime = int

text \<open>The calls made on a MIME message builder before the message is written.\<close>

record MimeBuilder =
  mb_from :: "string option"
  mb_to :: "string list"
  mb_cc :: "string list option"
  mb_bcc :: "string list option"
  mb_subject :: string
  mb_text_body :: "string option"
  mb_html_body :: "string option"
  mb_in_reply_to :: "string option"

record crates =
  ulid_from_str :: "string \<Rightarrow> string + ulid"
  ulid_to_string :: "ulid \<Rightarrow> string"
  json_to_string :: "json \<Rightarrow> string"
  json_from_str :: "string \<Rightarrow> string + json"
  serde_error :: "string \<Rightarrow> json \<Rightarrow> string"
  timestamp_opt :: "int \<Rightarrow> datetime option"
  from_timestamp_millis :: "int \<Rightarrow> datetime option"
  parse_rfc2822 :: "string \<Rightarrow> datetime option"
  parse_rfc3339 :: "string \<Rightarrow> datetime option"
  dt_to_rfc3339 :: "datetime \<Rightarrow> string"
  b64url_encode :: "string \<Rightarrow> string"
  b64url_decode :: "string \<Rightarrow> string option"
  sha256 :: "string \<Rightarrow> string"
  pct_encode :: "string \<Rightarrow> string"
  pct_decode_lossy :: "string \<Rightarrow> string"
  header_to_str :: "string \<Rightarrow> string option"
  duration_seconds :: "int \<Rightarrow> int option"
  dt_checked_add :: "datetime \<Rightarrow> int \<Rightarrow> datetime option"
  mime_write :: "MimeBuilder \<Rightarrow> string + string"
  json_to_string_pretty :: "json \<Rightarrow> string"

definition ulid_round_trip :: "crates \<Rightarrow> bool" where
  "ulid_round_trip X \<longleftrightarrow> (\<forall>u. ulid_from_str X (ulid_to_string X u) = Inr u)"

definition json_round_trip :: "crates \<Rightarrow> json \<Rightarrow> bool" where
  "json_round_trip X v \<longleftrightarrow> json_from_str X (json_to_string X v) = Inr v"

lemma ulid_round_tripD [simp]:
  "ulid_round_trip X \<Longrightarrow> ulid_from_str X (ulid_to_string X u) = Inr u"
  by (simp add: ulid_round_trip_def)

lemma ulid_to_string_inject:
  "ulid_round_trip X \<Longrightarrow> ulid_to_string X u = ulid_to_string X v \<longleftrightarrow> u = v"
  by (metis ulid_round_tripD sum.inject(2))

text \<open>
  An instance for evaluating concrete runs: an identifier is printed in unary, a JSON text is
  parsed by a lookup in a table of the values at hand, times and encodings are the identity.
\<close>

definition sample_crates :: "(string \<times> json) list \<Rightarrow> crates" where
  "sample_crates tbl = \<lparr>
     ulid_from_str = (\<lambda>s. if list_all (\<lambda>c. c = CHR ''u'') s then Inr (of_nat (length s)) else Inl ''invalid length''),
     ulid_to_string = (\<lambda>u. replicate (unat u) CHR ''u''),
     json_to_string = (\<lambda>v. case filter (\<lambda>(s, w). w = v) tbl of (s, _) # _ \<Rightarrow> s | [] \<Rightarrow> ''?''),
     json_from_str = (\<lambda>s. case map_of tbl s of Some v \<Rightarrow> Inr v | None \<Rightarrow> Inl ''expected value''),
     serde_error = (\<lambda>t v. ''missing field''),
     timestamp_opt = (\<lambda>t. Some t),
     from_timestamp_millis = (\<lambda>t. Some t),
     parse_rfc2822 = (\<lambda>s. None),
     parse_rfc3339 = (\<lambda>s. if s = ''2026-05-01T12:00:00Z'' then Some 1777636800 else None),
     dt_to_rfc3339 = (\<lambda>t. ''2026-05-01T12:00:00Z''),
     b64url_encode = (\<lambda>s. s),
     b64url_decode = (\<lambda>s. Some s),
     sha256 = (\<lambda>s. s),
     pct_encode = (\<lambda>s. s),
     pct_decode_lossy = (\<lambda>s. s),
     header_to_str = (\<lambda>s. Some s),
     duration_seconds = (\<lambda>s. if \<bar>s\<bar> \<le> 9223372036854775 then Some (s * 1000000000) else None),
     dt_checked_add = (\<lambda>t d. Some (t + d)),
     mime_write = (\<lambda>b. Inr (''To: '' @ concat (mb_to b) @ '' Subject: '' @ mb_subject b)),
     json_to_string_pretty = (\<lambda>v. case filter (\<lambda>(s, w). w = v) tbl of (s, _) # _ \<Rightarrow> s | [] \<Rightarrow> ''?'') \<rparr>"

lemma sample_ulid_round_trip: "ulid_round_trip (sample_crates tbl)"
  by (simp add: ulid_round_trip_def sample_crates_def list_all_iff)

section \<open>Keyed tables\<close>

text \<open>
  The contract of a table with an upsert: what a lookup returns after it. The client lemma says
  what a whole sequence of upserts leaves behind, as the composition of single updates.
\<close>

locale keyed_table =
  fixes lookup :: "'t \<Rightarrow> 'k \<Rightarrow> 'v option"
    and upsert :: "'k \<Rightarrow> 'v \<Rightarrow> 't \<Rightarrow> 't"
  assumes lookup_upsert: "lookup (upsert k v t) = (lookup t)(k \<mapsto> v)"
begin

lemma lookup_upsert_same: "lookup (upsert k v t) k = Some v"
  by (simp add: lookup_upsert)

lemma lookup_upsert_other: "k' \<noteq> k \<Longrightarrow> lookup (upsert k v t) k' = lookup t k'"
  by (simp add: lookup_upsert)

lemma lookup_upsert_twice: "lookup (upsert k v (upsert k u t)) = lookup (upsert k v t)"
  by (simp add: lookup_upsert)

lemma lookup_fold_upsert:
  "lookup (fold (\<lambda>(k, v). upsert k v) kvs t) = lookup t ++ map_of (rev kvs)"
proof (induction kvs arbitrary: t)
  case Nil
  show ?case by simp
next
  case (Cons p kvs)
  obtain k v where "p = (k, v)" by (cases p)
  then show ?case
    by (auto simp: Cons.IH lookup_upsert fun_eq_iff map_add_def split: option.splits)
qed

end

interpretation alist_table: keyed_table map_of AList.update
  by unfold_locales (simp add: update_conv' fun_eq_iff)

section \<open>Labelled transition systems\<close>

locale transition_system =
  fixes init :: "'s \<Rightarrow> bool"
    and step :: "'s \<Rightarrow> 'l \<Rightarrow> 's \<Rightarrow> bool"
begin

inductive reach :: "'s \<Rightarrow> bool" where
  reach_init: "init s \<Longrightarrow> reach s"
| reach_step: "reach s \<Longrightarrow> step s l t \<Longrightarrow> reach t"

inductive path :: "'s \<Rightarrow> 'l list \<Rightarrow> 's \<Rightarrow> bool" where
  path_Nil: "path s [] s"
| path_Cons: "step s l t \<Longrightarrow> path t ls u \<Longrightarrow> path s (l # ls) u"

lemma invariant:
  assumes "reach s"
    and "\<And>s. init s \<Longrightarrow> I s"
    and "\<And>s l t. I s \<Longrightarrow> step s l t \<Longrightarrow> I t"
  shows "I s"
  using assms(1) by (induction rule: reach.induct) (auto intro: assms(2,3))

lemma path_one: "step s l t \<Longrightarrow> path s [l] t"
  by (rule path_Cons [OF _ path_Nil])

lemma path_append: "path s ls t \<Longrightarrow> path t ms u \<Longrightarrow> path s (ls @ ms) u"
  by (induction rule: path.induct) (auto intro: path.intros)

lemma path_reach: "path s ls t \<Longrightarrow> reach s \<Longrightarrow> reach t"
  by (induction rule: path.induct) (auto intro: reach_step)

lemma path_invariant:
  assumes "path s ls t" and "I s" and "\<And>s l t. I s \<Longrightarrow> step s l t \<Longrightarrow> I t"
  shows "I t"
  using assms(1,2) by (induction rule: path.induct) (auto intro: assms(3))

end

section \<open>Enumerations with a wire name\<close>

text \<open>
  Categories, policies and provider kinds are stored and sent by name. The contract of such a
  pair of functions: parsing a printed value gives it back, and nothing else parses to it.
\<close>

locale wire_names =
  fixes to_name :: "'a \<Rightarrow> string"
    and of_name :: "string \<Rightarrow> string + 'a"
  assumes of_to: "of_name (to_name x) = Inr x"
    and to_of: "of_name s = Inr x \<Longrightarrow> s = to_name x"
begin

lemma to_name_inject: "to_name x = to_name y \<longleftrightarrow> x = y"
  by (metis of_to sum.inject(2))

lemma of_name_Inr_iff: "of_name s = Inr x \<longleftrightarrow> s = to_name x"
  using of_to to_of by blast

lemma of_name_Inl_iff: "(\<exists>e. of_name s = Inl e) \<longleftrightarrow> s \<notin> range to_name"
  by (metis (no_types, lifting) of_to of_name_Inr_iff rangeE rangeI sum.exhaust sum.distinct(2))

end

end
