(* ===== verification/Core_Types.thy ===== *)
theory Core_Types
  imports Mail_Prelude
begin

text \<open>
  The domain types of \<^verbatim>\<open>types.rs\<close>, \<^verbatim>\<open>providers/types.rs\<close> and \<^verbatim>\<open>providers/trait.rs\<close>: identifiers as
  distinct types, accounts, messages, threads, drafts, folders and labels, the trait object
  \<open>MailProvider\<close> as a record of effects, and the JSON each type serialises to (field names,
  renamings and skipped fields as the serde attributes say).
\<close>

section \<open>Identifiers and accounts\<close>

datatype AccountId = AccountId ulid

primrec account_ulid :: "AccountId \<Rightarrow> ulid" where
  "account_ulid (AccountId u) = u"

definition account_id_to_string :: "crates \<Rightarrow> AccountId \<Rightarrow> string" where
  "account_id_to_string X a = ulid_to_string X (account_ulid a)"

definition account_id_from_str :: "crates \<Rightarrow> string \<Rightarrow> string + AccountId" where
  "account_id_from_str X s = map_sum id AccountId (ulid_from_str X s)"

datatype MessageId = MessageId string
datatype ThreadId = ThreadId string
datatype DraftId = DraftId string
datatype LabelId = LabelId string
datatype FolderId = FolderId string

primrec message_id_str :: "MessageId \<Rightarrow> string" where
  "message_id_str (MessageId s) = s"

primrec thread_id_str :: "ThreadId \<Rightarrow> string" where
  "thread_id_str (ThreadId s) = s"

primrec draft_id_str :: "DraftId \<Rightarrow> string" where
  "draft_id_str (DraftId s) = s"

primrec label_id_str :: "LabelId \<Rightarrow> string" where
  "label_id_str (LabelId s) = s"

primrec folder_id_str :: "FolderId \<Rightarrow> string" where
  "folder_id_str (FolderId s) = s"

datatype ProviderKind = Gmail | Microsoft365 | Imap

primrec provider_kind_as_str :: "ProviderKind \<Rightarrow> string" where
  "provider_kind_as_str Gmail = ''gmail''"
| "provider_kind_as_str Microsoft365 = ''m365''"
| "provider_kind_as_str Imap = ''imap''"

definition provider_kind_from_str :: "string \<Rightarrow> string + ProviderKind" where
  "provider_kind_from_str s =
     (if s = ''gmail'' then Inr Gmail
      else if s = ''m365'' then Inr Microsoft365
      else if s = ''imap'' then Inr Imap
      else Inl (''unknown provider kind: '' @ s))"

interpretation provider_names: wire_names provider_kind_as_str provider_kind_from_str
proof
  fix x show "provider_kind_from_str (provider_kind_as_str x) = Inr x"
    by (cases x) (simp_all add: provider_kind_from_str_def)
next
  fix s x assume "provider_kind_from_str s = Inr x"
  then show "s = provider_kind_as_str x"
    by (auto simp: provider_kind_from_str_def split: if_splits)
qed

record Account =
  acc_id :: AccountId
  acc_label :: string
  acc_provider :: ProviderKind
  acc_email :: string
  acc_config :: json
  acc_scopes :: "string list"
  acc_created_at :: datetime
  acc_last_validated :: "datetime option"

lemma account_id_round_trip [simp]:
  "ulid_round_trip X \<Longrightarrow> account_id_from_str X (account_id_to_string X a) = Inr a"
  by (cases a) (simp add: account_id_from_str_def account_id_to_string_def)

lemma account_id_to_string_inject [simp]:
  "ulid_round_trip X \<Longrightarrow> account_id_to_string X a = account_id_to_string X b \<longleftrightarrow> a = b"
  by (cases a; cases b) (simp add: account_id_to_string_def ulid_to_string_inject)

lemma account_ulid_inject: "account_ulid a = account_ulid b \<longleftrightarrow> a = b"
  by (cases a; cases b) simp

section \<open>Mail data\<close>

record EmailAddress =
  ea_email :: string
  ea_name :: "string option"

record SearchQuery =
  q_text :: "string option"
  q_folder :: "FolderId option"
  q_label :: "LabelId option"
  q_limit :: "32 word option"
  q_cursor :: "string option"

definition search_query_default :: SearchQuery where
  "search_query_default =
     \<lparr>q_text = None, q_folder = None, q_label = None, q_limit = None, q_cursor = None\<rparr>"

record ThreadSummary =
  ts_id :: ThreadId
  ts_last_message_id :: MessageId
  ts_subject :: string
  ts_snippet :: string
  ts_from :: "EmailAddress option"
  ts_date :: datetime
  ts_message_count :: "32 word"
  ts_unread :: bool
  ts_starred :: bool
  ts_labels :: "LabelId list"
  ts_folder :: "FolderId option"

record MessageFlags =
  mf_read :: bool
  mf_starred :: bool
  mf_draft :: bool

record AttachmentMeta =
  am_id :: string
  am_filename :: string
  am_mime_type :: string
  am_size_bytes :: "64 word"

record Message =
  m_id :: MessageId
  m_thread_id :: ThreadId
  m_from :: "EmailAddress option"
  m_to :: "EmailAddress list"
  m_cc :: "EmailAddress list"
  m_bcc :: "EmailAddress list"
  m_subject :: string
  m_date :: datetime
  m_body_text :: "string option"
  m_body_html :: "string option"
  m_labels :: "LabelId list"
  m_folder :: "FolderId option"
  m_flags :: MessageFlags
  m_attachments :: "AttachmentMeta list"
  m_snippet :: string

record Thread =
  t_id :: ThreadId
  t_subject :: string
  t_messages :: "Message list"

record DraftSummary =
  ds_id :: DraftId
  ds_message_id :: MessageId
  ds_subject :: string
  ds_snippet :: string
  ds_date :: datetime

record DraftInput =
  di_to :: "EmailAddress list"
  di_cc :: "EmailAddress list"
  di_bcc :: "EmailAddress list"
  di_subject :: string
  di_body_text :: "string option"
  di_body_html :: "string option"
  di_in_reply_to :: "MessageId option"
  di_thread_id :: "ThreadId option"

record OutgoingMessage =
  om_to :: "EmailAddress list"
  om_cc :: "EmailAddress list"
  om_bcc :: "EmailAddress list"
  om_subject :: string
  om_body_text :: "string option"
  om_body_html :: "string option"
  om_in_reply_to :: "MessageId option"
  om_thread_id :: "ThreadId option"

record Folder =
  f_id :: FolderId
  f_name :: string
  f_system :: bool

record Label =
  l_id :: LabelId
  l_name :: string
  l_system :: bool

record SearchResults =
  sr_threads :: "ThreadSummary list"
  sr_next_cursor :: "string option"

text \<open>The trait \<open>MailProvider\<close>: a provider is the record of its methods.\<close>

record 'w MailProvider =
  p_search :: "SearchQuery \<Rightarrow> ('w, SearchResults) io"
  p_get_thread :: "ThreadId \<Rightarrow> ('w, Thread) io"
  p_get_message :: "MessageId \<Rightarrow> ('w, Message) io"
  p_list_folders :: "('w, Folder list) io"
  p_list_labels :: "('w, Label list) io"
  p_list_drafts :: "('w, DraftSummary list) io"
  p_mark_read :: "MessageId list \<Rightarrow> bool \<Rightarrow> ('w, unit) io"
  p_star :: "MessageId list \<Rightarrow> bool \<Rightarrow> ('w, unit) io"
  p_label :: "MessageId list \<Rightarrow> LabelId \<Rightarrow> bool \<Rightarrow> ('w, unit) io"
  p_move_to :: "MessageId list \<Rightarrow> FolderId \<Rightarrow> ('w, unit) io"
  p_archive :: "MessageId list \<Rightarrow> ('w, unit) io"
  p_trash :: "MessageId list \<Rightarrow> ('w, unit) io"
  p_untrash :: "MessageId list \<Rightarrow> ('w, unit) io"
  p_create_draft :: "DraftInput \<Rightarrow> ('w, DraftId) io"
  p_update_draft :: "DraftId \<Rightarrow> DraftInput \<Rightarrow> ('w, unit) io"
  p_send_message :: "OutgoingMessage \<Rightarrow> ('w, MessageId) io"
  p_send_draft :: "DraftId \<Rightarrow> ('w, MessageId) io"

section \<open>Serialisation\<close>

definition opt_json :: "('a \<Rightarrow> json) \<Rightarrow> 'a option \<Rightarrow> json" where
  "opt_json f x = (case x of None \<Rightarrow> JNull | Some a \<Rightarrow> f a)"

text \<open>A field with \<open>skip_serializing_if = "Option::is_none"\<close>.\<close>

definition skip_none :: "string \<Rightarrow> ('a \<Rightarrow> json) \<Rightarrow> 'a option \<Rightarrow> (string \<times> json) list" where
  "skip_none k f x = (case x of None \<Rightarrow> [] | Some a \<Rightarrow> [(k, f a)])"

definition u32_json :: "32 word \<Rightarrow> json" where
  "u32_json n = JNumber (PosInt (ucast n))"

definition account_json :: "crates \<Rightarrow> Account \<Rightarrow> json" where
  "account_json X a = JObject
     [(''id'', JString (account_id_to_string X (acc_id a))),
      (''label'', JString (acc_label a)),
      (''provider'', JString (provider_kind_as_str (acc_provider a))),
      (''email'', JString (acc_email a)),
      (''config'', acc_config a),
      (''scopes'', JArray (map JString (acc_scopes a))),
      (''created_at'', JString (dt_to_rfc3339 X (acc_created_at a))),
      (''last_validated'', opt_json (\<lambda>t. JString (dt_to_rfc3339 X t)) (acc_last_validated a))]"

definition email_address_json :: "EmailAddress \<Rightarrow> json" where
  "email_address_json a =
     JObject ([(''email'', JString (ea_email a))] @ skip_none ''name'' JString (ea_name a))"

definition thread_summary_json :: "crates \<Rightarrow> ThreadSummary \<Rightarrow> json" where
  "thread_summary_json X t = JObject
     [(''id'', JString (thread_id_str (ts_id t))),
      (''last_message_id'', JString (message_id_str (ts_last_message_id t))),
      (''subject'', JString (ts_subject t)),
      (''snippet'', JString (ts_snippet t)),
      (''from'', opt_json email_address_json (ts_from t)),
      (''date'', JString (dt_to_rfc3339 X (ts_date t))),
      (''message_count'', u32_json (ts_message_count t)),
      (''unread'', JBool (ts_unread t)),
      (''starred'', JBool (ts_starred t)),
      (''labels'', JArray (map (\<lambda>l. JString (label_id_str l)) (ts_labels t))),
      (''folder'', opt_json (\<lambda>f. JString (folder_id_str f)) (ts_folder t))]"

definition message_flags_json :: "MessageFlags \<Rightarrow> json" where
  "message_flags_json f = JObject
     [(''read'', JBool (mf_read f)), (''starred'', JBool (mf_starred f)),
      (''draft'', JBool (mf_draft f))]"

definition attachment_json :: "AttachmentMeta \<Rightarrow> json" where
  "attachment_json a = JObject
     [(''id'', JString (am_id a)), (''filename'', JString (am_filename a)),
      (''mime_type'', JString (am_mime_type a)),
      (''size_bytes'', JNumber (PosInt (am_size_bytes a)))]"

definition message_json :: "crates \<Rightarrow> Message \<Rightarrow> json" where
  "message_json X m = JObject
     ([(''id'', JString (message_id_str (m_id m))),
       (''thread_id'', JString (thread_id_str (m_thread_id m))),
       (''from'', opt_json email_address_json (m_from m)),
       (''to'', JArray (map email_address_json (m_to m))),
       (''cc'', JArray (map email_address_json (m_cc m))),
       (''bcc'', JArray (map email_address_json (m_bcc m))),
       (''subject'', JString (m_subject m)),
       (''date'', JString (dt_to_rfc3339 X (m_date m)))]
      @ skip_none ''body_text'' JString (m_body_text m)
      @ skip_none ''body_html'' JString (m_body_html m)
      @ [(''labels'', JArray (map (\<lambda>l. JString (label_id_str l)) (m_labels m)))]
      @ skip_none ''folder'' (\<lambda>f. JString (folder_id_str f)) (m_folder m)
      @ [(''flags'', message_flags_json (m_flags m)),
         (''attachments'', JArray (map attachment_json (m_attachments m))),
         (''snippet'', JString (m_snippet m))])"

definition thread_json :: "crates \<Rightarrow> Thread \<Rightarrow> json" where
  "thread_json X t = JObject
     [(''id'', JString (thread_id_str (t_id t))), (''subject'', JString (t_subject t)),
      (''messages'', JArray (map (message_json X) (t_messages t)))]"

definition draft_summary_json :: "crates \<Rightarrow> DraftSummary \<Rightarrow> json" where
  "draft_summary_json X d = JObject
     [(''id'', JString (draft_id_str (ds_id d))),
      (''message_id'', JString (message_id_str (ds_message_id d))),
      (''subject'', JString (ds_subject d)), (''snippet'', JString (ds_snippet d)),
      (''date'', JString (dt_to_rfc3339 X (ds_date d)))]"

definition folder_json :: "Folder \<Rightarrow> json" where
  "folder_json f = JObject
     [(''id'', JString (folder_id_str (f_id f))), (''name'', JString (f_name f)),
      (''system'', JBool (f_system f))]"

definition label_json :: "Label \<Rightarrow> json" where
  "label_json l = JObject
     [(''id'', JString (label_id_str (l_id l))), (''name'', JString (l_name l)),
      (''system'', JBool (l_system l))]"

definition search_results_json :: "crates \<Rightarrow> SearchResults \<Rightarrow> json" where
  "search_results_json X r = JObject
     ([(''threads'', JArray (map (thread_summary_json X) (sr_threads r)))]
      @ skip_none ''next_cursor'' JString (sr_next_cursor r))"

end
