(* ===== verification/Storage_Db.thy ===== *)
theory Storage_Db
  imports Core_Types
begin

text \<open>
  The SQLite state of the daemon. The tables and their constraints are those of
  \<^verbatim>\<open>migrations/0001_init.sql\<close>; each SQL statement that the code issues is one definition
  (\<open>sql_*\<close>), and the functions of \<^verbatim>\<open>storage.rs\<close> and \<^verbatim>\<open>accounts.rs\<close> are built from them.

  Any statement may fail for reasons outside the program (a locked file, a full disk). The field
  \<open>db_faults\<close> holds the outcomes the database will show for the next statements: \<open>Some e\<close> fails
  with \<open>e\<close> and leaves the tables alone, \<open>None\<close> executes; past its end every statement executes.
  Rows with equal \<open>created_at\<close> are listed in insertion order.
\<close>

record AccountRow =
  row_id :: string
  row_label :: string
  row_provider :: string
  row_email :: string
  row_config_json :: string
  row_scopes_json :: string
  row_created_at :: int
  row_last_validated :: "int option"

record db =
  accounts :: "AccountRow list"
  permissions :: "((string \<times> string) \<times> string) list"
  app_state :: "(string \<times> string) list"
  db_faults :: "string option list"

definition provider_check :: "string list" where
  "provider_check = [''gmail'', ''m365'', ''imap'']"

definition category_check :: "string list" where
  "category_check = [''read'', ''modify'', ''trash'', ''draft'', ''send'']"

definition policy_check :: "string list" where
  "policy_check = [''allow'', ''confirm'', ''session'', ''draftify'', ''block'']"

definition empty_db :: db where
  "empty_db = \<lparr>accounts = [], permissions = [], app_state = [], db_faults = []\<rparr>"

section \<open>Statements\<close>

definition sql :: "(db, 'a) io \<Rightarrow> (db, 'a) io" where
  "sql stmt d = (case db_faults d of
      [] \<Rightarrow> stmt d
    | None # fs \<Rightarrow> stmt (d\<lparr>db_faults := fs\<rparr>)
    | Some e # fs \<Rightarrow> (Err (Storage e), d\<lparr>db_faults := fs\<rparr>))"

definition sql_insert_account :: "AccountRow \<Rightarrow> (db, unit) io" where
  "sql_insert_account r = sql (\<lambda>d.
     if row_provider r \<notin> set provider_check
     then (Err (Storage ''CHECK constraint failed: provider''), d)
     else if row_id r \<in> set (map row_id (accounts d))
     then (Err (Storage ''UNIQUE constraint failed: accounts.id''), d)
     else (Ok (), d\<lparr>accounts := accounts d @ [r]\<rparr>))"

definition sql_select_accounts :: "(db, AccountRow list) io" where
  "sql_select_accounts = sql (\<lambda>d. (Ok (sort_key row_created_at (accounts d)), d))"

definition sql_select_account :: "string \<Rightarrow> (db, AccountRow option) io" where
  "sql_select_account i = sql (\<lambda>d. (Ok (find (\<lambda>r. row_id r = i) (accounts d)), d))"

text \<open>Deleting an account deletes its permissions by the cascade; the result is the row count.\<close>

definition sql_delete_account :: "string \<Rightarrow> (db, nat) io" where
  "sql_delete_account i = sql (\<lambda>d.
     (Ok (length (filter (\<lambda>r. row_id r = i) (accounts d))),
      d\<lparr>accounts := filter (\<lambda>r. row_id r \<noteq> i) (accounts d),
        permissions := (if i \<in> set (map row_id (accounts d))
                        then filter (\<lambda>p. fst (fst p) \<noteq> i) (permissions d)
                        else permissions d)\<rparr>))"

definition mark_validated :: "int \<Rightarrow> string \<Rightarrow> AccountRow \<Rightarrow> AccountRow" where
  "mark_validated now i r = (if row_id r = i then r\<lparr>row_last_validated := Some now\<rparr> else r)"

definition sql_update_last_validated :: "int \<Rightarrow> string \<Rightarrow> (db, unit) io" where
  "sql_update_last_validated now i = sql (\<lambda>d.
     (Ok (), d\<lparr>accounts := map (mark_validated now i) (accounts d)\<rparr>))"

definition sql_upsert_permission :: "string \<Rightarrow> string \<Rightarrow> string \<Rightarrow> (db, unit) io" where
  "sql_upsert_permission i c p = sql (\<lambda>d.
     if c \<notin> set category_check then (Err (Storage ''CHECK constraint failed: category''), d)
     else if p \<notin> set policy_check then (Err (Storage ''CHECK constraint failed: policy''), d)
     else if i \<notin> set (map row_id (accounts d))
     then (Err (Storage ''FOREIGN KEY constraint failed''), d)
     else (Ok (), d\<lparr>permissions := AList.update (i, c) p (permissions d)\<rparr>))"

definition sql_select_permissions :: "string \<Rightarrow> (db, (string \<times> string) list) io" where
  "sql_select_permissions i = sql (\<lambda>d.
     (Ok [(c, p). ((a, c), p) \<leftarrow> permissions d, a = i], d))"

section \<open>Application state\<close>

definition set_app_state :: "string \<Rightarrow> string \<Rightarrow> (db, unit) io" where
  "set_app_state k v = sql (\<lambda>d. (Ok (), d\<lparr>app_state := AList.update k v (app_state d)\<rparr>))"

definition get_app_state :: "string \<Rightarrow> (db, string option) io" where
  "get_app_state k = sql (\<lambda>d. (Ok (map_of (app_state d) k), d))"

section \<open>Accounts\<close>

record NewAccount =
  na_label :: string
  na_provider :: ProviderKind
  na_email :: string
  na_config :: json
  na_scopes :: "string list"

text \<open>
  \<open>create\<close> draws a new identifier and reads the clock (seconds); both are arguments here.
\<close>

definition account_create :: "crates \<Rightarrow> AccountId \<Rightarrow> int \<Rightarrow> NewAccount \<Rightarrow> (db, AccountId) io" where
  "account_create X i now new =
     io_bind (sql_insert_account
       \<lparr>row_id = account_id_to_string X i, row_label = na_label new,
        row_provider = provider_kind_as_str (na_provider new), row_email = na_email new,
        row_config_json = json_to_string X (na_config new),
        row_scopes_json = json_to_string X (JArray (map JString (na_scopes new))),
        row_created_at = now, row_last_validated = None\<rparr>)
     (\<lambda>_. io_ret i)"

definition json_from_text :: "crates \<Rightarrow> string \<Rightarrow> json res" where
  "json_from_text X s = map_err Json (json_from_str X s)"

definition strings_from_text :: "crates \<Rightarrow> string \<Rightarrow> string list res" where
  "strings_from_text X s = res_bind (json_from_text X s)
     (\<lambda>v. ok_or (Json (serde_error X ''Vec<String>'' v)) (de_vec_string v))"

definition into_account :: "crates \<Rightarrow> AccountRow \<Rightarrow> Account res" where
  "into_account X r =
     res_bind (map_err (\<lambda>e. Internal (''bad account id in db: '' @ e))
                (account_id_from_str X (row_id r))) (\<lambda>i.
     res_bind (map_err (\<lambda>e. Internal (''bad provider in db: '' @ e))
                (provider_kind_from_str (row_provider r))) (\<lambda>p.
     res_bind (json_from_text X (row_config_json r)) (\<lambda>config.
     res_bind (strings_from_text X (row_scopes_json r)) (\<lambda>scopes.
     res_bind (ok_or (Internal ''bad created_at in db'') (timestamp_opt X (row_created_at r)))
       (\<lambda>created.
     Ok \<lparr>acc_id = i, acc_label = row_label r, acc_provider = p, acc_email = row_email r,
         acc_config = config, acc_scopes = scopes, acc_created_at = created,
         acc_last_validated = Option.bind (row_last_validated r) (timestamp_opt X)\<rparr>)))))"

definition account_list :: "crates \<Rightarrow> (db, Account list) io" where
  "account_list X = io_bind sql_select_accounts (\<lambda>rows. io_res (collect_res (into_account X) rows))"

definition account_get :: "crates \<Rightarrow> AccountId \<Rightarrow> (db, Account option) io" where
  "account_get X i = io_bind (sql_select_account (account_id_to_string X i)) (\<lambda>row.
     io_res (case row of None \<Rightarrow> Ok None
             | Some r \<Rightarrow> res_bind (into_account X r) (\<lambda>a. Ok (Some a))))"

definition account_delete :: "crates \<Rightarrow> AccountId \<Rightarrow> (db, unit) io" where
  "account_delete X i = io_bind (sql_delete_account (account_id_to_string X i)) (\<lambda>n.
     io_res (if n = 0 then Err (NotFound (''account '' @ account_id_to_string X i)) else Ok ()))"

definition touch_last_validated :: "crates \<Rightarrow> int \<Rightarrow> AccountId \<Rightarrow> (db, unit) io" where
  "touch_last_validated X now i = sql_update_last_validated now (account_id_to_string X i)"

section \<open>Well-formedness\<close>

text \<open>What the schema promises: primary keys, check constraints, and the foreign key.\<close>

definition db_wf :: "db \<Rightarrow> bool" where
  "db_wf d \<longleftrightarrow>
     distinct (map row_id (accounts d)) \<and>
     (\<forall>r \<in> set (accounts d). row_provider r \<in> set provider_check) \<and>
     distinct (map fst (permissions d)) \<and>
     (\<forall>((a, c), p) \<in> set (permissions d).
        a \<in> row_id ` set (accounts d) \<and> c \<in> set category_check \<and> p \<in> set policy_check) \<and>
     distinct (map fst (app_state d))"

lemmas sql_defs = sql_insert_account_def sql_select_accounts_def sql_select_account_def
  sql_delete_account_def sql_update_last_validated_def sql_upsert_permission_def
  sql_select_permissions_def set_app_state_def get_app_state_def

lemma empty_db_wf [simp]: "db_wf empty_db"
  by (simp add: db_wf_def empty_db_def)

lemma db_wf_faults [simp]: "db_wf (d\<lparr>db_faults := fs\<rparr>) \<longleftrightarrow> db_wf d"
  by (simp add: db_wf_def)

lemma sql_no_fault [simp]: "db_faults d = [] \<Longrightarrow> sql stmt d = stmt d"
  by (simp add: sql_def)

lemma sql_Ok_E:
  assumes "sql stmt d = (Ok a, d')"
  obtains fs where "stmt (d\<lparr>db_faults := fs\<rparr>) = (Ok a, d')"
proof (cases "db_faults d")
  case Nil
  then have d: "d\<lparr>db_faults := []\<rparr> = d" by (cases d) simp
  have "stmt (d\<lparr>db_faults := []\<rparr>) = (Ok a, d')" using assms Nil by (subst d) simp
  then show ?thesis by (rule that)
next
  case (Cons f fs)
  then show ?thesis using assms that by (cases f) (auto simp: sql_def)
qed

lemma sql_keeps:
  assumes "keeps P stmt" and "\<And>d fs. P (d\<lparr>db_faults := fs\<rparr>) = P d"
  shows "keeps P (sql stmt)"
  using assms by (auto simp: keeps_def sql_def split: list.split option.split)

lemma update_set_subset: "set (AList.update k v xs) \<subseteq> insert (k, v) (set xs)"
  by (induction xs) auto

lemma sql_insert_account_wf: "keeps db_wf (sql_insert_account r)"
  unfolding sql_insert_account_def
  by (rule sql_keeps) (auto simp: keeps_def db_wf_def)

lemma sql_delete_account_wf: "keeps db_wf (sql_delete_account i)"
  unfolding sql_delete_account_def
proof (rule sql_keeps)
  show "keeps db_wf (\<lambda>d. (Ok (length (filter (\<lambda>r. row_id r = i) (accounts d))),
      d\<lparr>accounts := filter (\<lambda>r. row_id r \<noteq> i) (accounts d),
        permissions := (if i \<in> set (map row_id (accounts d))
                        then filter (\<lambda>p. fst (fst p) \<noteq> i) (permissions d)
                        else permissions d)\<rparr>))"
    by (fastforce simp: keeps_def db_wf_def distinct_map_filter)
qed simp

lemma mark_validated_id [simp]:
  "row_id (mark_validated now i r) = row_id r"
  "row_provider (mark_validated now i r) = row_provider r"
  by (simp_all add: mark_validated_def)

lemma sql_update_last_validated_wf: "keeps db_wf (sql_update_last_validated now i)"
  unfolding sql_update_last_validated_def
  by (rule sql_keeps) (simp_all add: keeps_def db_wf_def image_image comp_def)

lemma sql_upsert_permission_wf: "keeps db_wf (sql_upsert_permission i c p)"
  unfolding sql_upsert_permission_def
proof (rule sql_keeps)
  show "keeps db_wf (\<lambda>d.
     if c \<notin> set category_check then (Err (Storage ''CHECK constraint failed: category''), d)
     else if p \<notin> set policy_check then (Err (Storage ''CHECK constraint failed: policy''), d)
     else if i \<notin> set (map row_id (accounts d))
     then (Err (Storage ''FOREIGN KEY constraint failed''), d)
     else (Ok (), d\<lparr>permissions := AList.update (i, c) p (permissions d)\<rparr>))"
    using update_set_subset [of "(i, c)" p]
    by (fastforce simp: keeps_def db_wf_def distinct_update)
qed simp

lemma set_app_state_wf: "keeps db_wf (set_app_state k v)"
  unfolding set_app_state_def
  by (rule sql_keeps) (auto simp: keeps_def db_wf_def distinct_update)

lemma sql_read_keeps: "(\<And>d fs. P (d\<lparr>db_faults := fs\<rparr>) = P d) \<Longrightarrow> keeps P (sql (\<lambda>d. (f d, d)))"
  by (rule sql_keeps) (auto simp: keeps_def)

lemma sql_reads_wf:
  "keeps db_wf sql_select_accounts" "keeps db_wf (sql_select_account i)"
  "keeps db_wf (sql_select_permissions i)" "keeps db_wf (get_app_state k)"
  unfolding sql_select_accounts_def sql_select_account_def sql_select_permissions_def
    get_app_state_def
  by (simp_all add: sql_read_keeps)

lemmas sql_wf = sql_insert_account_wf sql_delete_account_wf sql_update_last_validated_wf
  sql_upsert_permission_wf set_app_state_wf sql_reads_wf

lemma account_ops_wf:
  "keeps db_wf (account_create X i now new)" "keeps db_wf (account_list X)"
  "keeps db_wf (account_get X i)" "keeps db_wf (account_delete X i)"
  "keeps db_wf (touch_last_validated X now i)"
  unfolding account_create_def account_list_def account_get_def account_delete_def
    touch_last_validated_def
  by (intro keeps_bind keeps_ret keeps_res sql_wf)+

end
