(* ===== verification/Permissions.thy ===== *)
theory Permissions
  imports Storage_Db
begin

text \<open>
  The policy table (\<^verbatim>\<open>permissions/mod.rs\<close>): operation categories, policies, the defaults, the
  snapshot \<open>Permissions\<close> of one account and its persistence. The abstract view of the table is a
  function from account and category to policy; \<open>for_account\<close> computes it, \<open>set\<close> is a point
  update of it, and deleting an account resets it to the defaults.
\<close>

section \<open>Categories and policies\<close>

datatype Category = Read | Modify | Trash | Draft | Send

primrec category_as_str :: "Category \<Rightarrow> string" where
  "category_as_str Read = ''read''"
| "category_as_str Modify = ''modify''"
| "category_as_str Trash = ''trash''"
| "category_as_str Draft = ''draft''"
| "category_as_str Send = ''send''"

definition category_ALL :: "Category list" where
  "category_ALL = [Read, Modify, Trash, Draft, Send]"

definition category_from_str :: "string \<Rightarrow> string + Category" where
  "category_from_str s =
     (if s = ''read'' then Inr Read
      else if s = ''modify'' then Inr Modify
      else if s = ''trash'' then Inr Trash
      else if s = ''draft'' then Inr Draft
      else if s = ''send'' then Inr Send
      else Inl (''unknown category: '' @ s))"

datatype Policy = Allow | Confirm | Session | Draftify | Block

primrec policy_as_str :: "Policy \<Rightarrow> string" where
  "policy_as_str Allow = ''allow''"
| "policy_as_str Confirm = ''confirm''"
| "policy_as_str Session = ''session''"
| "policy_as_str Draftify = ''draftify''"
| "policy_as_str Block = ''block''"

definition policy_from_str :: "string \<Rightarrow> string + Policy" where
  "policy_from_str s =
     (if s = ''allow'' then Inr Allow
      else if s = ''confirm'' then Inr Confirm
      else if s = ''session'' then Inr Session
      else if s = ''draftify'' then Inr Draftify
      else if s = ''block'' then Inr Block
      else Inl (''unknown policy: '' @ s))"

primrec default_policy :: "Category \<Rightarrow> Policy" where
  "default_policy Read = Allow"
| "default_policy Modify = Allow"
| "default_policy Trash = Confirm"
| "default_policy Draft = Allow"
| "default_policy Send = Draftify"

interpretation category_names: wire_names category_as_str category_from_str
proof
  fix x show "category_from_str (category_as_str x) = Inr x"
    by (cases x) (simp_all add: category_from_str_def)
next
  fix s x assume "category_from_str s = Inr x"
  then show "s = category_as_str x"
    by (auto simp: category_from_str_def split: if_splits)
qed

interpretation policy_names: wire_names policy_as_str policy_from_str
proof
  fix x show "policy_from_str (policy_as_str x) = Inr x"
    by (cases x) (simp_all add: policy_from_str_def)
next
  fix s x assume "policy_from_str s = Inr x"
  then show "s = policy_as_str x"
    by (auto simp: policy_from_str_def split: if_splits)
qed

declare category_names.of_to [simp] category_names.to_name_inject [simp]
  policy_names.of_to [simp] policy_names.to_name_inject [simp]

text \<open>The check constraints of the schema admit exactly the wire names.\<close>

lemma category_check_names: "c \<in> set category_check \<longleftrightarrow> (\<exists>x. c = category_as_str x)"
proof
  assume "c \<in> set category_check"
  then have "\<exists>x. category_from_str c = Inr x"
    by (auto simp: category_check_def category_from_str_def)
  then show "\<exists>x. c = category_as_str x" using category_names.to_of by blast
next
  assume "\<exists>x. c = category_as_str x"
  then obtain x where "c = category_as_str x" by blast
  then show "c \<in> set category_check" by (cases x) (simp_all add: category_check_def)
qed

lemma policy_check_names: "p \<in> set policy_check \<longleftrightarrow> (\<exists>x. p = policy_as_str x)"
proof
  assume "p \<in> set policy_check"
  then have "\<exists>x. policy_from_str p = Inr x"
    by (auto simp: policy_check_def policy_from_str_def)
  then show "\<exists>x. p = policy_as_str x" using policy_names.to_of by blast
next
  assume "\<exists>x. p = policy_as_str x"
  then obtain x where "p = policy_as_str x" by blast
  then show "p \<in> set policy_check" by (cases x) (simp_all add: policy_check_def)
qed

lemma category_name_checked [simp]: "category_as_str c \<in> set category_check"
  using category_check_names by blast

lemma policy_name_checked [simp]: "policy_as_str p \<in> set policy_check"
  using policy_check_names by blast

section \<open>The snapshot of an account\<close>

record Permissions =
  perm_map :: "Category \<rightharpoonup> Policy"

primrec insert_defaults :: "Category list \<Rightarrow> (Category \<rightharpoonup> Policy) \<Rightarrow> (Category \<rightharpoonup> Policy)" where
  "insert_defaults [] m = m"
| "insert_defaults (c # cs) m = insert_defaults cs (m(c \<mapsto> default_policy c))"

fun insert_rows :: "(string \<times> string) list \<Rightarrow> (Category \<rightharpoonup> Policy) \<Rightarrow> (Category \<rightharpoonup> Policy) res" where
  "insert_rows [] m = Ok m"
| "insert_rows ((cat, pol) # rows) m =
     res_bind (map_err (\<lambda>e. Internal (''bad category in db: '' @ e)) (category_from_str cat)) (\<lambda>c.
     res_bind (map_err (\<lambda>e. Internal (''bad policy in db: '' @ e)) (policy_from_str pol)) (\<lambda>p.
     insert_rows rows (m(c \<mapsto> p))))"

definition for_account :: "crates \<Rightarrow> AccountId \<Rightarrow> (db, Permissions) io" where
  "for_account X i = io_bind (sql_select_permissions (account_id_to_string X i)) (\<lambda>rows.
     io_res (res_bind (insert_rows rows (insert_defaults category_ALL Map.empty))
       (\<lambda>m. Ok \<lparr>perm_map = m\<rparr>)))"

definition policy_for :: "Permissions \<Rightarrow> Category \<Rightarrow> Policy" where
  "policy_for p c = (case perm_map p c of Some q \<Rightarrow> q | None \<Rightarrow> default_policy c)"

definition permissions_set :: "crates \<Rightarrow> AccountId \<Rightarrow> Category \<Rightarrow> Policy \<Rightarrow> (db, unit) io" where
  "permissions_set X i c p =
     sql_upsert_permission (account_id_to_string X i) (category_as_str c) (policy_as_str p)"

definition install_defaults :: "crates \<Rightarrow> AccountId \<Rightarrow> (db, unit) io" where
  "install_defaults X i = io_for (\<lambda>c. permissions_set X i c (default_policy c)) category_ALL"

definition with_defaults :: Permissions where
  "with_defaults = \<lparr>perm_map = insert_defaults category_ALL Map.empty\<rparr>"

definition override_for :: "Category \<Rightarrow> Policy \<Rightarrow> Permissions \<Rightarrow> Permissions" where
  "override_for c p perms = perms\<lparr>perm_map := (perm_map perms)(c \<mapsto> p)\<rparr>"

lemma permissions_ops_wf:
  "keeps db_wf (for_account X i)" "keeps db_wf (permissions_set X i c p)"
  "keeps db_wf (install_defaults X i)"
  unfolding for_account_def permissions_set_def install_defaults_def
  by (auto intro: sql_wf)

section \<open>The abstract policy table\<close>

definition policy_table :: "crates \<Rightarrow> db \<Rightarrow> AccountId \<Rightarrow> Category \<Rightarrow> Policy" where
  "policy_table X d i c =
     (case map_of (permissions d) (account_id_to_string X i, category_as_str c) of
        None \<Rightarrow> default_policy c
      | Some p \<Rightarrow> (case policy_from_str p of Inr q \<Rightarrow> q | Inl _ \<Rightarrow> default_policy c))"

definition has_account :: "crates \<Rightarrow> db \<Rightarrow> AccountId \<Rightarrow> bool" where
  "has_account X d i \<longleftrightarrow> account_id_to_string X i \<in> set (map row_id (accounts d))"

lemma insert_defaults_apply:
  "insert_defaults cs m c = (if c \<in> set cs then Some (default_policy c) else m c)"
  by (induction cs arbitrary: m) auto

lemma category_ALL_complete [simp]: "c \<in> set category_ALL"
  by (cases c) (simp_all add: category_ALL_def)

lemma insert_defaults_ALL [simp]:
  "insert_defaults category_ALL m = (\<lambda>c. Some (default_policy c))"
  by (rule ext) (simp add: insert_defaults_apply)

text \<open>
  Rows that carry wire names are accepted, and the last row for a category wins; with one row
  per category that is the row a lookup in the table finds.
\<close>

lemma insert_rows_wire_names:
  assumes "\<forall>(c, p) \<in> set rows. c \<in> set category_check \<and> p \<in> set policy_check"
    and "distinct (map fst rows)"
  shows "\<exists>m'. insert_rows rows m = Ok m' \<and>
    (\<forall>c. m' c = (case map_of rows (category_as_str c) of
        None \<Rightarrow> m c | Some p \<Rightarrow> (case policy_from_str p of Inr q \<Rightarrow> Some q | Inl _ \<Rightarrow> m c)))"
  using assms
proof (induction rows arbitrary: m)
  case Nil
  then show ?case by simp
next
  case (Cons row rows)
  obtain c p where row: "row = (category_as_str c, policy_as_str p)"
    using Cons.prems(1) by (cases row) (auto simp: category_check_names policy_check_names)
  have fresh: "map_of rows (category_as_str c) = None"
    using Cons.prems(2) row by (simp add: map_of_eq_None_iff)
  have "\<forall>(c, p) \<in> set rows. c \<in> set category_check \<and> p \<in> set policy_check"
    and "distinct (map fst rows)"
    using Cons.prems by simp_all
  from Cons.IH [OF this, of "m(c \<mapsto> p)"] obtain m' where
    m': "insert_rows rows (m(c \<mapsto> p)) = Ok m'" and
    at: "\<forall>x. m' x = (case map_of rows (category_as_str x) of
        None \<Rightarrow> (m(c \<mapsto> p)) x
      | Some q \<Rightarrow> (case policy_from_str q of Inr q' \<Rightarrow> Some q' | Inl _ \<Rightarrow> (m(c \<mapsto> p)) x))"
    by blast
  have "m' x = (case map_of (row # rows) (category_as_str x) of
        None \<Rightarrow> m x
      | Some q \<Rightarrow> (case policy_from_str q of Inr q' \<Rightarrow> Some q' | Inl _ \<Rightarrow> m x))" for x
    using at fresh row by (cases "x = c") (auto split: option.split sum.split)
  with m' row show ?case by auto
qed

definition rows_of :: "string \<Rightarrow> ((string \<times> string) \<times> string) list \<Rightarrow> (string \<times> string) list" where
  "rows_of i ps = [(c, p). ((a, c), p) \<leftarrow> ps, a = i]"

lemma rows_of_simps [simp]:
  "rows_of i [] = []"
  "rows_of i (((a, c), p) # ps) = (if a = i then (c, p) # rows_of i ps else rows_of i ps)"
  by (simp_all add: rows_of_def)

lemma map_of_rows_of: "map_of (rows_of i ps) c = map_of ps (i, c)"
  by (induction ps) auto

lemma set_rows_of: "(c, p) \<in> set (rows_of i ps) \<longleftrightarrow> ((i, c), p) \<in> set ps"
  by (force simp: rows_of_def)

lemma distinct_rows_of: "distinct (map fst ps) \<Longrightarrow> distinct (map fst (rows_of i ps))"
proof (induction ps)
  case (Cons x ps)
  obtain a c p where x: "x = ((a, c), p)" by (metis prod.exhaust)
  have "c \<notin> fst ` set (rows_of i ps)" if "a = i"
    using Cons.prems x that by (force simp: set_rows_of)
  with Cons x show ?case by auto
qed simp

text \<open>On a well-formed database the snapshot is the abstract table, and reading never fails.\<close>

lemma for_account_table:
  assumes "db_wf d" and "db_faults d = []"
  shows "\<exists>p. for_account X i d = (Ok p, d) \<and> policy_for p = policy_table X d i"
proof -
  let ?i = "account_id_to_string X i"
  have checked: "\<forall>(c, p) \<in> set (rows_of ?i (permissions d)). c \<in> set category_check \<and> p \<in> set policy_check"
    using assms(1) by (auto simp: db_wf_def set_rows_of)
  have distinct: "distinct (map fst (rows_of ?i (permissions d)))"
    using assms(1) by (simp add: db_wf_def distinct_rows_of)
  obtain m where m: "insert_rows (rows_of ?i (permissions d)) (\<lambda>c. Some (default_policy c)) = Ok m"
    and at: "\<forall>c. m c = (case map_of (rows_of ?i (permissions d)) (category_as_str c) of
        None \<Rightarrow> Some (default_policy c)
      | Some p \<Rightarrow> (case policy_from_str p of Inr q \<Rightarrow> Some q | Inl _ \<Rightarrow> Some (default_policy c)))"
    using insert_rows_wire_names [OF checked distinct] by blast
  have "policy_for \<lparr>perm_map = m\<rparr> c = policy_table X d i c" for c
    using at by (auto simp: policy_for_def policy_table_def map_of_rows_of split: option.split sum.split)
  moreover have "for_account X i d = (Ok \<lparr>perm_map = m\<rparr>, d)"
    using m assms(2) by (simp add: for_account_def sql_select_permissions_def io_bind_def flip: rows_of_def)
  ultimately show ?thesis by blast
qed

lemma permissions_set_Ok_iff:
  assumes "db_faults d = []"
  shows "fst (permissions_set X i c p d) = Ok () \<longleftrightarrow> has_account X d i"
  using assms by (simp add: permissions_set_def sql_upsert_permission_def has_account_def)

lemma permissions_set_table:
  assumes "ulid_round_trip X" and "permissions_set X i c p d = (Ok (), d')"
  shows "policy_table X d' = (\<lambda>j e. if j = i \<and> e = c then p else policy_table X d j e)"
proof -
  have "permissions d' =
      AList.update (account_id_to_string X i, category_as_str c) (policy_as_str p) (permissions d)"
    using assms(2)
    by (auto simp: permissions_set_def sql_upsert_permission_def sql_def
        split: list.splits option.splits if_splits)
  then show ?thesis
    using assms(1) by (auto simp: policy_table_def fun_eq_iff update_conv' split: option.split)
qed

lemma permissions_set_accounts:
  "accounts (snd (permissions_set X i c p d)) = accounts d"
  "app_state (snd (permissions_set X i c p d)) = app_state d"
  by (auto simp: permissions_set_def sql_upsert_permission_def sql_def
      split: list.split option.split)

lemma sql_panic_free: "(\<And>d. \<not> is_panic (fst (stmt d))) \<Longrightarrow> panic_free (sql stmt)"
  by (auto simp: panic_free_def sql_def split: list.split option.split)

lemma insert_rows_no_panic: "\<not> is_panic (insert_rows rows m)"
proof (induction rows arbitrary: m)
  case (Cons row rows)
  then show ?case by (cases row) simp
qed simp

lemma for_account_panic_free: "panic_free (for_account X i)"
  unfolding for_account_def
  by (intro panic_free_bind panic_free_res)
    (auto simp: sql_select_permissions_def insert_rows_no_panic intro: sql_panic_free)

end
