(* ===== verification/Account_Props.thy ===== *)
theory Account_Props
  imports Permissions
begin

text \<open>
  Properties of the account and permission store: the schema's invariant under every operation,
  the life of an account (create, read, delete) and of its policies (defaults, updates, reset by
  deletion), and the wire names.
\<close>

section \<open>Lemmas\<close>

lemma account_delete_policies:
  assumes "ulid_round_trip X" and "db_wf d" and "account_delete X i d = (Ok (), d')"
  shows "policy_table X d' = (\<lambda>j c. if j = i then default_policy c else policy_table X d j c)"
    and "\<not> has_account X d' i"
    and "j \<noteq> i \<Longrightarrow> has_account X d' j \<longleftrightarrow> has_account X d j"
proof -
  let ?i = "account_id_to_string X i"
  obtain n where n: "sql_delete_account ?i d = (Ok n, d')" "n \<noteq> 0"
    using assms(3) by (auto simp: account_delete_def io_bind_Ok_iff split: if_splits)
  then have "accounts d' = filter (\<lambda>r. row_id r \<noteq> ?i) (accounts d)"
    and "permissions d' = (if ?i \<in> set (map row_id (accounts d))
          then filter (\<lambda>p. fst (fst p) \<noteq> ?i) (permissions d) else permissions d)"
    and "filter (\<lambda>r. row_id r = ?i) (accounts d) \<noteq> []"
    unfolding sql_delete_account_def by (auto elim!: sql_Ok_E)
  moreover from this(3) have "?i \<in> set (map row_id (accounts d))"
    by (force simp: filter_empty_conv)
  ultimately have d': "accounts d' = filter (\<lambda>r. row_id r \<noteq> ?i) (accounts d)"
    "permissions d' = filter (\<lambda>p. fst (fst p) \<noteq> ?i) (permissions d)"
    by simp_all
  have "map_of (filter (\<lambda>p. fst (fst p) \<noteq> ?i) ps) (k, c) = (if k = ?i then None else map_of ps (k, c))"
    for k c and ps :: "((string \<times> string) \<times> string) list"
    by (induction ps) auto
  then show "policy_table X d' = (\<lambda>j c. if j = i then default_policy c else policy_table X d j c)"
    using assms(1) by (simp add: fun_eq_iff policy_table_def d')
  show "\<not> has_account X d' i" by (auto simp: has_account_def d')
  show "j \<noteq> i \<Longrightarrow> has_account X d' j \<longleftrightarrow> has_account X d j"
    using assms(1) by (auto simp: has_account_def d')
qed

lemma find_append_new: "(\<forall>x \<in> set xs. \<not> P x) \<Longrightarrow> P y \<Longrightarrow> find P (xs @ [y]) = Some y"
  by (induction xs) auto

lemma install_defaults_table:
  assumes "ulid_round_trip X" and "db_faults d = []" and "has_account X d i"
  shows "\<exists>d'. install_defaults X i d = (Ok (), d') \<and>
    policy_table X d' = (\<lambda>j c. if j = i then default_policy c else policy_table X d j c)"
proof -
  have step: "\<exists>d'. io_for (\<lambda>c. permissions_set X i c (default_policy c)) cs d = (Ok (), d') \<and>
      policy_table X d' = (\<lambda>j c. if j = i \<and> c \<in> set cs then default_policy c else policy_table X d j c)"
    if "db_faults d = []" "has_account X d i" for cs d
    using that
  proof (induction cs arbitrary: d)
    case (Cons c cs)
    obtain d1 where d1: "permissions_set X i c (default_policy c) d = (Ok (), d1)"
      using permissions_set_Ok_iff [of d X i c "default_policy c"] Cons.prems
      by (metis prod.collapse)
    then have "db_faults d1 = []" "has_account X d1 i"
      using Cons.prems permissions_set_accounts(1) [of X i c "default_policy c" d]
      by (auto simp: permissions_set_def sql_upsert_permission_def has_account_def split: if_splits)
    from Cons.IH [OF this] obtain d2 where
      "io_for (\<lambda>c. permissions_set X i c (default_policy c)) cs d1 = (Ok (), d2)"
      "policy_table X d2 = (\<lambda>j k. if j = i \<and> k \<in> set cs then default_policy k else policy_table X d1 j k)"
      by blast
    with d1 permissions_set_table [OF assms(1) d1] show ?case by (auto simp: fun_eq_iff)
  qed simp
  show ?thesis using step [OF assms(2,3), of category_ALL] by (simp add: install_defaults_def)
qed

lemma account_delete_Ok:
  assumes "db_faults d = []" and "has_account X d i"
  shows "\<exists>d'. account_delete X i d = (Ok (), d')"
proof -
  have "filter (\<lambda>r. row_id r = account_id_to_string X i) (accounts d) \<noteq> []"
    using assms(2) by (auto simp: has_account_def filter_empty_conv)
  then show ?thesis using assms(1) by (simp add: account_delete_def sql_delete_account_def io_bind_def)
qed

text \<open>Installing defaults leaves the accounts alone.\<close>

lemma install_defaults_frame:
  assumes "db_faults d = []"
  shows "accounts (snd (install_defaults X i d)) = accounts d \<and> db_faults (snd (install_defaults X i d)) = []"
proof -
  have "keeps (\<lambda>e. accounts e = accounts d \<and> db_faults e = []) (install_defaults X i)"
    unfolding install_defaults_def permissions_set_def sql_upsert_permission_def
    by (intro keeps_for) (simp add: keeps_def)
  from keepsD [OF this, of d] assms show ?thesis by simp
qed

lemma account_get_frame:
  assumes "accounts d' = accounts d" "db_faults d = []" "db_faults d' = []"
  shows "account_get X i d' = (fst (account_get X i d), d')"
  using assms by (simp add: account_get_def sql_select_account_def io_bind_def)

lemma account_create_get:
  assumes "ulid_round_trip X" "json_round_trip X (na_config new)"
    "json_round_trip X (JArray (map JString (na_scopes new)))"
    and "timestamp_opt X now = Some t" and "db_wf d" and "db_faults d = []" and "\<not> has_account X d i"
  shows "\<exists>d' d''. account_create X i now new d = (Ok i, d') \<and>
    account_get X i d' = (Ok (Some \<lparr>acc_id = i, acc_label = na_label new, acc_provider = na_provider new,
       acc_email = na_email new, acc_config = na_config new, acc_scopes = na_scopes new,
       acc_created_at = t, acc_last_validated = None\<rparr>), d') \<and>
    db_faults d' = [] \<and> has_account X d' i \<and>
    install_defaults X i d' = (Ok (), d'') \<and> policy_table X d'' i = default_policy"
proof -
  let ?row = "\<lparr>row_id = account_id_to_string X i, row_label = na_label new,
        row_provider = provider_kind_as_str (na_provider new), row_email = na_email new,
        row_config_json = json_to_string X (na_config new),
        row_scopes_json = json_to_string X (JArray (map JString (na_scopes new))),
        row_created_at = now, row_last_validated = None\<rparr>"
  let ?d = "d\<lparr>accounts := accounts d @ [?row]\<rparr>"
  have prov: "provider_kind_as_str (na_provider new) \<in> set provider_check"
    by (cases "na_provider new") (simp_all add: provider_check_def)
  have create: "account_create X i now new d = (Ok i, ?d)"
    using assms(6,7) prov
    by (simp add: account_create_def sql_insert_account_def io_bind_def has_account_def)
  have "find (\<lambda>r. row_id r = account_id_to_string X i) (accounts d @ [?row]) = Some ?row"
    using assms(7) by (intro find_append_new) (force simp: has_account_def)+
  then have get: "account_get X i ?d = (Ok (Some \<lparr>acc_id = i, acc_label = na_label new,
       acc_provider = na_provider new, acc_email = na_email new, acc_config = na_config new,
       acc_scopes = na_scopes new, acc_created_at = t, acc_last_validated = None\<rparr>), ?d)"
    using assms(1-4,6)
    by (simp add: account_get_def sql_select_account_def io_bind_def into_account_def
        provider_names.of_to json_from_text_def strings_from_text_def json_round_trip_def)
  have ready: "db_faults ?d = []" "has_account X ?d i" using assms(6) by (simp_all add: has_account_def)
  from install_defaults_table [OF assms(1) ready] obtain d'' where
    "install_defaults X i ?d = (Ok (), d'')"
    "policy_table X d'' = (\<lambda>j c. if j = i then default_policy c else policy_table X ?d j c)" by blast
  with create get ready show ?thesis by (intro exI [of _ ?d] exI [of _ d'']) simp
qed

section \<open>Properties\<close>


text \<open>
  C17: Reading the permissions of an account on a well-formed database never fails and yields the
  abstract policy table: the stored policy where there is a row, the default otherwise.
\<close>

theorem for_account_reads_policy_table:
  assumes "db_wf d" and "db_faults d = []"
  shows "\<exists>p. for_account X i d = (Ok p, d) \<and> policy_for p = policy_table X d i"
  using assms by (rule for_account_table)

theorem for_account_reads_policy_table_witness:
  "\<exists>p. for_account (sample_crates []) (AccountId 1) empty_db = (Ok p, empty_db) \<and> policy_for p Send = Draftify"
proof -
  have "db_faults empty_db = []" by (simp add: empty_db_def)
  from for_account_reads_policy_table [OF empty_db_wf this, of "sample_crates []" "AccountId 1"]
  show ?thesis by (auto simp: policy_table_def empty_db_def)
qed

text \<open>
  C18: Setting a policy is a point update: it succeeds exactly for an existing account, changes the
  policy of that account and category, and no other entry of the table.
\<close>

theorem permissions_set_is_point_update:
  assumes "ulid_round_trip X" and "db_faults d = []"
  shows "(fst (permissions_set X i c p d) = Ok () \<longleftrightarrow> has_account X d i) \<and>
    (has_account X d i \<longrightarrow> policy_table X (snd (permissions_set X i c p d)) =
       (\<lambda>j e. if j = i \<and> e = c then p else policy_table X d j e))"
  using permissions_set_Ok_iff [OF assms(2)] permissions_set_table [OF assms(1)]
  by (metis prod.collapse)

definition demo_store :: db where
  "demo_store = empty_db\<lparr>accounts := [\<lparr>row_id = ''u'', row_label = ''x'', row_provider = ''gmail'',
     row_email = ''x@x'', row_config_json = ''{}'', row_scopes_json = ''[]'', row_created_at = 0,
     row_last_validated = None\<rparr>], permissions := [((''u'', ''read''), ''block'')]\<rparr>"

lemma demo_store_facts:
  "db_wf demo_store" "db_faults demo_store = []" "has_account (sample_crates tbl) demo_store (AccountId 1)"
  "policy_table (sample_crates tbl) demo_store (AccountId 1) Read = Block"
  by (simp_all add: demo_store_def db_wf_def empty_db_def provider_check_def category_check_def policy_check_def
      has_account_def account_id_to_string_def sample_crates_def policy_table_def policy_from_str_def)

theorem permissions_set_is_point_update_witness:
  "policy_table (sample_crates []) (snd (permissions_set (sample_crates []) (AccountId 1) Send Allow demo_store))
     (AccountId 1) Send = Allow \<and>
   policy_table (sample_crates []) (snd (permissions_set (sample_crates []) (AccountId 1) Send Allow demo_store))
     (AccountId 1) Read = Block"
  using permissions_set_is_point_update [OF sample_ulid_round_trip demo_store_facts(2), of "[]" "AccountId 1" Send Allow]
  by (simp add: demo_store_facts)

text \<open>
  Deleting an account removes it and, by the cascade, resets all of its policies to the
  defaults, so that nothing survives for an account created later under the same identifier;
  every other account and policy stays.
\<close>

lemma account_delete_resets_policies:
  assumes "ulid_round_trip X" and "db_wf d" and "account_delete X i d = (Ok (), d')"
  shows "\<not> has_account X d' i \<and> policy_table X d' i = default_policy \<and>
    (\<forall>j. j \<noteq> i \<longrightarrow> (has_account X d' j \<longleftrightarrow> has_account X d j) \<and> policy_table X d' j = policy_table X d j)"
  using account_delete_policies [OF assms] by (simp add: fun_eq_iff)

lemma account_delete_resets_policies_example:
  "\<exists>d'. account_delete (sample_crates []) (AccountId 1) demo_store = (Ok (), d') \<and>
     policy_table (sample_crates []) d' (AccountId 1) Read = Allow"
proof -
  obtain d' where d': "account_delete (sample_crates []) (AccountId 1) demo_store = (Ok (), d')"
    by (simp add: account_delete_def sql_delete_account_def sql_def io_bind_def demo_store_def empty_db_def
        account_id_to_string_def sample_crates_def)
  with account_delete_resets_policies [OF sample_ulid_round_trip demo_store_facts(1) d'] show ?thesis by simp
qed

text \<open>
  C19: What is created is what is read: after a successful \<open>create\<close>, \<open>get\<close> returns the account with
  the given label, provider, address, configuration and scopes, never validated; the policies of
  the new account are the defaults after \<open>install_defaults\<close>. Relied on: identifiers and the JSON
  of the two stored values survive printing and parsing, and the clock value is a valid time.
\<close>

theorem created_account_is_read_back:
  assumes "ulid_round_trip X" "json_round_trip X (na_config new)"
    "json_round_trip X (JArray (map JString (na_scopes new)))"
    and "timestamp_opt X now = Some t" and "db_wf d" and "db_faults d = []" and "\<not> has_account X d i"
  shows "\<exists>d' d''. account_create X i now new d = (Ok i, d') \<and>
    account_get X i d' = (Ok (Some \<lparr>acc_id = i, acc_label = na_label new, acc_provider = na_provider new,
       acc_email = na_email new, acc_config = na_config new, acc_scopes = na_scopes new,
       acc_created_at = t, acc_last_validated = None\<rparr>), d') \<and>
    install_defaults X i d' = (Ok (), d'') \<and> policy_table X d'' i = default_policy"
  using account_create_get [OF assms] by blast

theorem created_account_is_read_back_witness:
  "\<exists>d' d''. account_create (sample_crates [(''{}'', JObject []), (''[]'', JArray [])]) (AccountId 0) 5
      \<lparr>na_label = ''x'', na_provider = Gmail, na_email = ''x@x'', na_config = JObject [], na_scopes = []\<rparr>
      demo_store = (Ok (AccountId 0), d') \<and>
    install_defaults (sample_crates [(''{}'', JObject []), (''[]'', JArray [])]) (AccountId 0) d' = (Ok (), d'') \<and>
    policy_table (sample_crates [(''{}'', JObject []), (''[]'', JArray [])]) d'' (AccountId 0) Trash = Confirm"
proof -
  let ?X = "sample_crates [(''{}'', JObject []), (''[]'', JArray [])]"
  have fresh: "\<not> has_account ?X demo_store (AccountId 0)"
    by (simp add: has_account_def demo_store_def account_id_to_string_def sample_crates_def)
  have rt: "json_round_trip ?X (JObject [])" "json_round_trip ?X (JArray [])" "timestamp_opt ?X 5 = Some 5"
    by (simp_all add: json_round_trip_def sample_crates_def)
  show ?thesis
    using created_account_is_read_back [of ?X "\<lparr>na_label = ''x'', na_provider = Gmail, na_email = ''x@x'',
          na_config = JObject [], na_scopes = []\<rparr>" 5 5 demo_store "AccountId 0"]
      sample_ulid_round_trip fresh demo_store_facts(1,2) rt
    by auto
qed

text \<open>
  Provider kinds, categories and policies survive the database and the wire: parsing a printed
  name gives the value back, and a text parses to a value only if it is exactly its name.
\<close>

lemma wire_names_round_trip:
  "(category_from_str s = Inr c \<longleftrightarrow> s = category_as_str c) \<and>
   (policy_from_str s = Inr p \<longleftrightarrow> s = policy_as_str p) \<and>
   (provider_kind_from_str s = Inr k \<longleftrightarrow> s = provider_kind_as_str k)"
  by (simp add: category_names.of_name_Inr_iff policy_names.of_name_Inr_iff
      provider_names.of_name_Inr_iff)

end
