(* ===== verification/Approvals.thy ===== *)
theory Approvals
  imports Permissions
begin

text \<open>
  The approval queue (\<^verbatim>\<open>permissions/approvals.rs\<close>). First the operations as functions on the
  queue: \<open>enqueue\<close>, \<open>decide\<close>, \<open>list\<close> and one poll of the future a caller waits on. Then the same
  code as it runs among other tasks: a step relation whose steps are the stretches between two
  points where a task can be suspended or another thread can run (the mutex is taken, a channel
  is written, a broadcast is sent).

  A one-shot channel is an index into \<open>q_channels\<close>; the sender of a channel lives in the pending
  map or in a running \<open>decide\<close>. Broadcasts are recorded in \<open>q_events\<close>.
\<close>

section \<open>Data\<close>

datatype ApprovalId = ApprovalId ulid

primrec approval_id_to_string :: "crates \<Rightarrow> ApprovalId \<Rightarrow> string" where
  "approval_id_to_string X (ApprovalId u) = ulid_to_string X u"

record ApprovalRequest =
  ar_account :: AccountId
  ar_category :: Category
  ar_summary :: string
  ar_details :: json

record PendingApproval =
  pa_id :: ApprovalId
  pa_request :: ApprovalRequest
  pa_created_at :: datetime

datatype ApprovalDecision = Approve | Reject

datatype ApprovalOutcome = Approved | Rejected | Timeout

datatype ApprovalEvent =
    Requested PendingApproval
  | Resolved ApprovalId ApprovalDecision

text \<open>A one-shot channel: nothing sent yet, a value sent, or the sender dropped without sending.\<close>

datatype oneshot = Waiting | Value ApprovalOutcome | Closed

record ApprovalQueue =
  q_pending :: "(ApprovalId \<times> (PendingApproval \<times> nat)) list"
  q_channels :: "oneshot list"
  q_events :: "ApprovalEvent list"
  q_timeout :: nat

record ApprovalFuture =
  fut_rx :: nat
  fut_timeout :: nat
  fut_id :: ApprovalId

section \<open>Operations\<close>

definition approval_queue_new :: "nat \<Rightarrow> ApprovalQueue" where
  "approval_queue_new timeout =
     \<lparr>q_pending = [], q_channels = [], q_events = [], q_timeout = timeout\<rparr>"

text \<open>Inserting over an entry with the same key drops the sender it held.\<close>

definition drop_sender :: "(PendingApproval \<times> nat) option \<Rightarrow> oneshot list \<Rightarrow> oneshot list" where
  "drop_sender e cs = (case e of None \<Rightarrow> cs | Some (_, c) \<Rightarrow> cs[c := Closed])"

definition pending_insert :: "PendingApproval \<Rightarrow> nat \<Rightarrow> ApprovalQueue \<Rightarrow> ApprovalQueue" where
  "pending_insert p c q = q\<lparr>
     q_channels := drop_sender (map_of (q_pending q) (pa_id p)) (q_channels q),
     q_pending := AList.update (pa_id p) (p, c) (q_pending q)\<rparr>"

definition pending_remove :: "ApprovalId \<Rightarrow> ApprovalQueue \<Rightarrow> ApprovalQueue" where
  "pending_remove i q = q\<lparr>q_pending := AList.delete i (q_pending q)\<rparr>"

text \<open>Removing an entry without sending drops its sender.\<close>

definition pending_drop :: "ApprovalId \<Rightarrow> ApprovalQueue \<Rightarrow> ApprovalQueue" where
  "pending_drop i q = (pending_remove i q)\<lparr>
     q_channels := drop_sender (map_of (q_pending q) i) (q_channels q)\<rparr>"

definition broadcast :: "ApprovalEvent \<Rightarrow> ApprovalQueue \<Rightarrow> ApprovalQueue" where
  "broadcast e q = q\<lparr>q_events := q_events q @ [e]\<rparr>"

definition oneshot_send :: "nat \<Rightarrow> ApprovalOutcome \<Rightarrow> ApprovalQueue \<Rightarrow> ApprovalQueue" where
  "oneshot_send c v q = q\<lparr>q_channels := (q_channels q)[c := Value v]\<rparr>"

text \<open>The identifier and the time of creation are drawn by the caller.\<close>

definition enqueue ::
  "ApprovalId \<Rightarrow> datetime \<Rightarrow> ApprovalRequest \<Rightarrow> ApprovalQueue \<Rightarrow> (ApprovalId \<times> ApprovalFuture) \<times> ApprovalQueue" where
  "enqueue i now req q =
     (let c = length (q_channels q);
          q1 = q\<lparr>q_channels := q_channels q @ [Waiting]\<rparr>;
          p = \<lparr>pa_id = i, pa_request = req, pa_created_at = now\<rparr>;
          q2 = pending_insert p c q1;
          q3 = broadcast (Requested p) q2
      in ((i, \<lparr>fut_rx = c, fut_timeout = q_timeout q, fut_id = i\<rparr>), q3))"

primrec decision_outcome :: "ApprovalDecision \<Rightarrow> ApprovalOutcome" where
  "decision_outcome Approve = Approved"
| "decision_outcome Reject = Rejected"

definition decide :: "crates \<Rightarrow> ApprovalId \<Rightarrow> ApprovalDecision \<Rightarrow> (ApprovalQueue, unit) io" where
  "decide X i d q = (case map_of (q_pending q) i of
      None \<Rightarrow> (Err (NotFound (''approval '' @ approval_id_to_string X i)), q)
    | Some (p, tx) \<Rightarrow>
        (Ok (), broadcast (Resolved i d) (oneshot_send tx (decision_outcome d) (pending_remove i q))))"

text \<open>The pending entries in the iteration order of the map.\<close>

definition approvals_list :: "ApprovalQueue \<Rightarrow> PendingApproval list" where
  "approvals_list q = map (\<lambda>(i, p, c). p) (q_pending q)"

text \<open>
  One poll of the waiting future, \<open>elapsed\<close> after its start: the channel is looked at before the
  timer; when the timer has run out the entry is removed.
\<close>

definition await_outcome :: "ApprovalFuture \<Rightarrow> nat \<Rightarrow> ApprovalQueue \<Rightarrow> (ApprovalOutcome res \<times> ApprovalQueue) option" where
  "await_outcome f elapsed q = (case q_channels q ! fut_rx f of
      Value v \<Rightarrow> Some (Ok v, q)
    | Closed \<Rightarrow> Some (Err (Internal ''approval channel dropped''), q)
    | Waiting \<Rightarrow> if elapsed < fut_timeout f then None
        else Some (Ok Timeout, pending_drop (fut_id f) q))"

subsection \<open>Behaviour of the operations\<close>

text \<open>
  Every entry is stored under its own identifier, its channel exists and is waiting, and no two
  entries share a channel.
\<close>

definition queue_wf :: "ApprovalQueue \<Rightarrow> bool" where
  "queue_wf q \<longleftrightarrow>
     distinct (map fst (q_pending q)) \<and>
     distinct (map (\<lambda>(i, p, c). c) (q_pending q)) \<and>
     (\<forall>(i, p, c) \<in> set (q_pending q).
        pa_id p = i \<and> c < length (q_channels q) \<and> q_channels q ! c = Waiting)"

lemma queue_wf_new [simp]: "queue_wf (approval_queue_new t)"
  by (simp add: queue_wf_def approval_queue_new_def)

lemma queue_wf_broadcast [simp]: "queue_wf (broadcast e q) \<longleftrightarrow> queue_wf q"
  by (simp add: queue_wf_def broadcast_def)

lemma delete_filter: "AList.delete k xs = filter (\<lambda>p. fst p \<noteq> k) xs"
  by (simp add: AList.delete_eq case_prod_unfold eq_commute [of k])

lemma set_delete: "x \<in> set (AList.delete k xs) \<longleftrightarrow> x \<in> set xs \<and> fst x \<noteq> k"
  by (simp add: delete_filter)

lemma distinct_map_delete: "distinct (map f xs) \<Longrightarrow> distinct (map f (AList.delete k xs))"
  by (simp add: delete_filter distinct_map_filter)

lemma queue_wf_remove: "queue_wf q \<Longrightarrow> queue_wf (pending_remove i q)"
  by (auto simp: queue_wf_def pending_remove_def set_delete distinct_map_delete)

lemma distinct_map_inj: "distinct (map f xs) \<Longrightarrow> x \<in> set xs \<Longrightarrow> y \<in> set xs \<Longrightarrow> f x = f y \<Longrightarrow> x = y"
  by (induction xs) (auto simp: image_iff)

lemma queue_wf_channel_inj:
  assumes "queue_wf q" "(i, p, c) \<in> set (q_pending q)" "(j, p', c) \<in> set (q_pending q)"
  shows "j = i" "p' = p"
  using distinct_map_inj [of "\<lambda>(i, p, c). c" "q_pending q" "(i, p, c)" "(j, p', c)"] assms
  by (auto simp: queue_wf_def)

lemma queue_wf_lookup:
  assumes "queue_wf q" "map_of (q_pending q) i = Some (p, c)"
  shows "pa_id p = i" "c < length (q_channels q)" "q_channels q ! c = Waiting"
  using assms map_of_SomeD [OF assms(2)] by (auto simp: queue_wf_def)

lemma queue_wf_take_write:
  assumes "queue_wf q" "map_of (q_pending q) i = Some (p, c)"
  shows "queue_wf ((pending_remove i q)\<lparr>q_channels := (q_channels q)[c := v]\<rparr>)"
proof -
  have "c' \<noteq> c" if "(j, p', c') \<in> set (AList.delete i (q_pending q))" for j p' c'
    using queue_wf_channel_inj(1) [OF assms(1) map_of_SomeD [OF assms(2)]] that
    by (auto simp: set_delete)
  then show ?thesis
    using queue_wf_remove [OF assms(1), of i]
    by (fastforce simp: queue_wf_def pending_remove_def)
qed

lemma queue_wf_take_send:
  assumes "queue_wf q" "map_of (q_pending q) i = Some (p, c)"
  shows "queue_wf (oneshot_send c v (pending_remove i q))"
  using queue_wf_take_write [OF assms, of "Value v"]
  by (simp add: oneshot_send_def pending_remove_def)

lemma queue_wf_drop: "queue_wf q \<Longrightarrow> queue_wf (pending_drop i q)"
  using queue_wf_remove [of q i] queue_wf_take_write [of q i _ _ Closed]
  by (auto simp: pending_drop_def drop_sender_def pending_remove_def split: option.split)

lemma decide_wf: "keeps queue_wf (decide X i d)"
  by (auto simp: keeps_def decide_def queue_wf_take_send split: option.split prod.split)

lemma update_as_delete:
  "set (AList.update k v xs) \<subseteq> insert (k, v) (set (AList.delete k xs))"
  if "distinct (map fst xs)"
  using that by (induction xs) (auto simp: delete_filter rev_image_eqI image_iff)

lemma distinct_channels_update:
  assumes "distinct (map f xs)" "distinct (map fst xs)" "f (k, v) \<notin> f ` set xs"
  shows "distinct (map f (AList.update k v xs))"
  using assms
proof (induction xs)
  case (Cons x xs)
  have "f x \<notin> f ` set (AList.update k v xs)" if "fst x \<noteq> k"
    using update_as_delete [of xs k v] Cons.prems that by (auto simp: set_delete)
  with Cons show ?case by (cases x) auto
qed simp

lemma queue_wf_insert:
  assumes "queue_wf q"
  shows "queue_wf (pending_insert \<lparr>pa_id = i, pa_request = req, pa_created_at = now\<rparr>
    (length (q_channels q)) (q\<lparr>q_channels := q_channels q @ [Waiting]\<rparr>))"
proof -
  let ?c = "length (q_channels q)"
  let ?p = "\<lparr>pa_id = i, pa_request = req, pa_created_at = now\<rparr>"
  have d: "distinct (map fst (q_pending q))" and
    lt: "\<And>j p c. (j, p, c) \<in> set (q_pending q) \<Longrightarrow> pa_id p = j \<and> c < ?c \<and> q_channels q ! c = Waiting"
    using assms by (auto simp: queue_wf_def)
  have chans: "distinct (map (\<lambda>(i, p, c). c) (AList.update i (?p, ?c) (q_pending q)))"
    using assms lt by (intro distinct_channels_update) (fastforce simp: queue_wf_def)+
  have member: "(j, p, c) = (i, ?p, ?c) \<or> (j, p, c) \<in> set (q_pending q) \<and> j \<noteq> i"
    if "(j, p, c) \<in> set (AList.update i (?p, ?c) (q_pending q))" for j p c
    using update_as_delete [OF d, of i "(?p, ?c)"] that by (auto simp: set_delete)
  have keep: "drop_sender (map_of (q_pending q) i) (q_channels q @ [Waiting]) ! c = Waiting"
    if "(j, p, c) \<in> set (q_pending q)" "j \<noteq> i" for j p c
  proof (cases "map_of (q_pending q) i")
    case None
    with lt [OF that(1)] show ?thesis by (simp add: drop_sender_def nth_append)
  next
    case (Some e)
    then obtain p' c' where e: "map_of (q_pending q) i = Some (p', c')" by (cases e) auto
    then have "c' \<noteq> c"
      using queue_wf_channel_inj(1) [OF assms that(1)] that(2) map_of_SomeD by fastforce
    with e lt [OF that(1)] show ?thesis by (simp add: drop_sender_def nth_append)
  qed
  have new: "drop_sender (map_of (q_pending q) i) (q_channels q @ [Waiting]) ! ?c = Waiting"
    using lt map_of_SomeD [of "q_pending q" i]
    by (fastforce simp: drop_sender_def nth_append nth_list_update split: option.split)
  have len: "length (drop_sender e (q_channels q @ [Waiting])) = Suc ?c" for e
    by (simp add: drop_sender_def split: option.split prod.split)
  show ?thesis
    using d chans member keep new len lt
    by (fastforce simp: queue_wf_def pending_insert_def distinct_update)
qed

lemma enqueue_wf: "queue_wf q \<Longrightarrow> queue_wf (snd (enqueue i now req q))"
  by (simp add: enqueue_def Let_def queue_wf_insert)

lemma await_outcome_wf:
  "queue_wf q \<Longrightarrow> await_outcome f elapsed q = Some (r, q') \<Longrightarrow> queue_wf q'"
  by (auto simp: await_outcome_def queue_wf_drop split: oneshot.splits if_splits)

lemma enqueue_simps:
  assumes "enqueue i now req q = ((j, f), q')"
  shows "j = i" "fut_id f = i" "fut_timeout f = q_timeout q" "fut_rx f = length (q_channels q)"
    "map_of (q_pending q') i = Some (\<lparr>pa_id = i, pa_request = req, pa_created_at = now\<rparr>, fut_rx f)"
    "q_events q' = q_events q @ [Requested \<lparr>pa_id = i, pa_request = req, pa_created_at = now\<rparr>]"
    "q_timeout q' = q_timeout q"
  using assms
  by (auto simp: enqueue_def Let_def pending_insert_def broadcast_def update_conv')

lemma decide_found:
  assumes "queue_wf q" "map_of (q_pending q) i = Some (p, c)"
  shows "\<exists>q'. decide X i d q = (Ok (), q') \<and> q_channels q' ! c = Value (decision_outcome d) \<and>
    map_of (q_pending q') = (map_of (q_pending q))(i := None) \<and>
    q_events q' = q_events q @ [Resolved i d] \<and> queue_wf q'"
  using assms queue_wf_lookup [OF assms] queue_wf_take_send [OF assms]
  by (auto simp: decide_def oneshot_send_def pending_remove_def broadcast_def delete_conv'
      queue_wf_def)

end
