(* ===== verification/Approval_Steps.thy ===== *)
theory Approval_Steps
  imports Approvals
begin

text \<open>
  The approval queue among concurrent tasks. A state holds the queue, the running \<open>enqueue\<close> and
  \<open>decide\<close> calls with the point they have reached, and every waiting future. A step is one stretch
  of code that no other task can interrupt: the critical section of the mutex, a send on a
  channel, a broadcast. Callers that wait can be dropped at any time (an HTTP client that goes
  away), and a timer may fire between any two steps. \<open>s_taken\<close> records the decisions that found
  their entry, with the channel of the request they took.
\<close>

section \<open>States and steps\<close>

datatype task =
    Publishing PendingApproval nat
  | Deciding ApprovalId ApprovalDecision nat
  | Announcing ApprovalId ApprovalDecision
  | Finished

datatype fut_state = Idle | Awaiting | Expired | Returned "ApprovalOutcome res" | Cancelled

record approval_sys =
  s_queue :: ApprovalQueue
  s_tasks :: "task list"
  s_futures :: "(ApprovalFuture \<times> fut_state) list"
  s_taken :: "(nat \<times> ApprovalDecision) list"

datatype approval_label =
    Insert ApprovalId datetime ApprovalRequest
  | Publish nat
  | Take ApprovalId ApprovalDecision
  | Miss ApprovalId ApprovalDecision
  | Deliver nat
  | Announce nat
  | Receive nat
  | Expire nat
  | Clean nat
  | Cancel nat

definition approvals_init :: "approval_sys \<Rightarrow> bool" where
  "approvals_init s \<longleftrightarrow> (\<exists>t. s =
     \<lparr>s_queue = approval_queue_new t, s_tasks = [], s_futures = [], s_taken = []\<rparr>)"

inductive approvals_step :: "approval_sys \<Rightarrow> approval_label \<Rightarrow> approval_sys \<Rightarrow> bool" where
  insert: "c = length (q_channels (s_queue s)) \<Longrightarrow>
    p = \<lparr>pa_id = i, pa_request = req, pa_created_at = now\<rparr> \<Longrightarrow>
    f = \<lparr>fut_rx = c, fut_timeout = q_timeout (s_queue s), fut_id = i\<rparr> \<Longrightarrow>
    approvals_step s (Insert i now req) (s\<lparr>
      s_queue := pending_insert p c
        ((s_queue s)\<lparr>q_channels := q_channels (s_queue s) @ [Waiting]\<rparr>),
      s_tasks := s_tasks s @ [Publishing p c],
      s_futures := s_futures s @ [(f, Idle)]\<rparr>)"
| publish: "k < length (s_tasks s) \<Longrightarrow> s_tasks s ! k = Publishing p c \<Longrightarrow>
    approvals_step s (Publish k) (s\<lparr>
      s_queue := broadcast (Requested p) (s_queue s),
      s_tasks := (s_tasks s)[k := Finished],
      s_futures := (s_futures s)[c := (fst (s_futures s ! c), Awaiting)]\<rparr>)"
| take: "map_of (q_pending (s_queue s)) i = Some (p, c) \<Longrightarrow>
    approvals_step s (Take i d) (s\<lparr>
      s_queue := pending_remove i (s_queue s),
      s_tasks := s_tasks s @ [Deciding i d c],
      s_taken := s_taken s @ [(c, d)]\<rparr>)"
| miss: "map_of (q_pending (s_queue s)) i = None \<Longrightarrow> approvals_step s (Miss i d) s"
| deliver: "k < length (s_tasks s) \<Longrightarrow> s_tasks s ! k = Deciding i d c \<Longrightarrow>
    approvals_step s (Deliver k) (s\<lparr>
      s_queue := oneshot_send c (decision_outcome d) (s_queue s),
      s_tasks := (s_tasks s)[k := Announcing i d]\<rparr>)"
| announce: "k < length (s_tasks s) \<Longrightarrow> s_tasks s ! k = Announcing i d \<Longrightarrow>
    approvals_step s (Announce k) (s\<lparr>
      s_queue := broadcast (Resolved i d) (s_queue s),
      s_tasks := (s_tasks s)[k := Finished]\<rparr>)"
| receive: "c < length (s_futures s) \<Longrightarrow> s_futures s ! c = (f, Awaiting) \<Longrightarrow>
    q_channels (s_queue s) ! c = Value v \<Longrightarrow>
    approvals_step s (Receive c) (s\<lparr>s_futures := (s_futures s)[c := (f, Returned (Ok v))]\<rparr>)"
| receive_closed: "c < length (s_futures s) \<Longrightarrow> s_futures s ! c = (f, Awaiting) \<Longrightarrow>
    q_channels (s_queue s) ! c = Closed \<Longrightarrow>
    approvals_step s (Receive c) (s\<lparr>s_futures := (s_futures s)[c :=
      (f, Returned (Err (Internal ''approval channel dropped'')))]\<rparr>)"
| expire: "c < length (s_futures s) \<Longrightarrow> s_futures s ! c = (f, Awaiting) \<Longrightarrow>
    q_channels (s_queue s) ! c = Waiting \<Longrightarrow>
    approvals_step s (Expire c) (s\<lparr>s_futures := (s_futures s)[c := (f, Expired)]\<rparr>)"
| clean: "c < length (s_futures s) \<Longrightarrow> s_futures s ! c = (f, Expired) \<Longrightarrow>
    approvals_step s (Clean c) (s\<lparr>
      s_queue := pending_drop (fut_id f) (s_queue s),
      s_futures := (s_futures s)[c := (f, Returned (Ok Timeout))]\<rparr>)"
| cancel: "c < length (s_futures s) \<Longrightarrow> s_futures s ! c = (f, st) \<Longrightarrow>
    st = Awaiting \<or> st = Expired \<Longrightarrow>
    approvals_step s (Cancel c) (s\<lparr>s_futures := (s_futures s)[c := (f, Cancelled)]\<rparr>)"

interpretation approvals: transition_system approvals_init approvals_step .

section \<open>Invariants\<close>

text \<open>
  The sender of every channel that is still waiting has exactly one owner: the pending entry or
  one running \<open>decide\<close>.
\<close>

fun deciding :: "task list \<Rightarrow> (nat \<times> ApprovalDecision) list" where
  "deciding [] = []"
| "deciding (Deciding i d c # ts) = (c, d) # deciding ts"
| "deciding (t # ts) = deciding ts"

definition deciding_wf :: "task list \<Rightarrow> (nat \<times> ApprovalDecision) list \<Rightarrow> oneshot list \<Rightarrow> bool" where
  "deciding_wf ts tk cs \<longleftrightarrow> distinct (map fst (deciding ts)) \<and> set (deciding ts) \<subseteq> set tk \<and>
     (\<forall>(c, d) \<in> set (deciding ts). cs ! c = Waiting)"

definition taken_wf :: "(nat \<times> ApprovalDecision) list \<Rightarrow> ApprovalQueue \<Rightarrow> bool" where
  "taken_wf tk q \<longleftrightarrow> distinct (map fst tk) \<and> (\<forall>c \<in> fst ` set tk.
     c < length (q_channels q) \<and> (\<forall>(i, p, c') \<in> set (q_pending q). c' \<noteq> c))"

definition senders_wf :: "approval_sys \<Rightarrow> bool" where
  "senders_wf s \<longleftrightarrow> queue_wf (s_queue s) \<and> taken_wf (s_taken s) (s_queue s) \<and>
     deciding_wf (s_tasks s) (s_taken s) (q_channels (s_queue s))"

text \<open>What was sent and what was received agrees with the decision that was taken.\<close>

definition returned :: "approval_sys \<Rightarrow> nat \<Rightarrow> ApprovalOutcome \<Rightarrow> bool" where
  "returned s c v \<longleftrightarrow> c < length (s_futures s) \<and> snd (s_futures s ! c) = Returned (Ok v)"

definition holds :: "ApprovalQueue \<Rightarrow> nat \<Rightarrow> ApprovalOutcome \<Rightarrow> bool" where
  "holds q c v \<longleftrightarrow> c < length (q_channels q) \<and> q_channels q ! c = Value v"

definition answers_wf :: "approval_sys \<Rightarrow> bool" where
  "answers_wf s \<longleftrightarrow>
     (\<forall>c v. holds (s_queue s) c v \<longrightarrow> (\<exists>d. (c, d) \<in> set (s_taken s) \<and> v = decision_outcome d)) \<and>
     (\<forall>c v. returned s c v \<longrightarrow>
        v = Timeout \<or> (\<exists>d. (c, d) \<in> set (s_taken s) \<and> v = decision_outcome d))"

definition futures_wf :: "approval_sys \<Rightarrow> bool" where
  "futures_wf s \<longleftrightarrow> length (s_futures s) = length (q_channels (s_queue s))"

inductive_simps approvals_step_simps: "approvals_step s l t"

lemma length_drop_sender [simp]: "length (drop_sender e cs) = length cs"
  by (simp add: drop_sender_def split: option.split prod.split)

lemma queue_length_simps [simp]:
  "length (q_channels (pending_insert p c q)) = length (q_channels q)"
  "q_channels (pending_remove i q) = q_channels q"
  "length (q_channels (pending_drop i q)) = length (q_channels q)"
  "length (q_channels (oneshot_send c v q)) = length (q_channels q)"
  "q_channels (broadcast e q) = q_channels q"
  "q_pending (broadcast e q) = q_pending q"
  "q_pending (oneshot_send c v q) = q_pending q"
  by (simp_all add: pending_insert_def pending_remove_def pending_drop_def oneshot_send_def
      broadcast_def)

lemma futures_wf_step: "approvals_step s l t \<Longrightarrow> futures_wf s \<Longrightarrow> futures_wf t"
  by (induction rule: approvals_step.induct) (simp_all add: futures_wf_def)

lemma deciding_append [simp]: "deciding (ts @ us) = deciding ts @ deciding us"
  by (induction ts rule: deciding.induct) auto

lemma deciding_split:
  assumes "k < length ts"
  obtains a b where "deciding ts = a @ deciding [ts ! k] @ b"
    and "deciding (ts[k := x]) = a @ deciding [x] @ b"
proof
  have "ts = take k ts @ [ts ! k] @ drop (Suc k) ts"
    using id_take_nth_drop [OF assms] by simp
  then show "deciding ts = deciding (take k ts) @ deciding [ts ! k] @ deciding (drop (Suc k) ts)"
    by (metis deciding_append)
  have "ts[k := x] = take k ts @ [x] @ drop (Suc k) ts"
    using upd_conv_take_nth_drop [OF assms] by simp
  then show "deciding (ts[k := x]) = deciding (take k ts) @ deciding [x] @ deciding (drop (Suc k) ts)"
    by (metis deciding_append)
qed

lemma deciding_wf_replace:
  assumes "deciding_wf ts tk cs" and "k < length ts" and "deciding [x] = []"
  shows "deciding_wf (ts[k := x]) tk cs"
proof -
  obtain a b where "deciding ts = a @ deciding [ts ! k] @ b" "deciding (ts[k := x]) = a @ deciding [x] @ b"
    using deciding_split [OF assms(2)] .
  with assms(1,3) show ?thesis by (auto simp: deciding_wf_def)
qed

lemma deciding_wf_deliver:
  assumes wf: "deciding_wf ts tk cs" and k: "k < length ts" "ts ! k = Deciding i d c"
    and x: "deciding [x] = []"
  shows "deciding_wf (ts[k := x]) tk (cs[c := v])"
proof -
  obtain a b where "deciding ts = a @ [(c, d)] @ b" and new: "deciding (ts[k := x]) = a @ b"
    using deciding_split [OF k(1), of x] k(2) x by auto
  then have "c \<notin> fst ` set (deciding (ts[k := x]))"
    using wf by (auto simp: deciding_wf_def)
  then have "\<forall>(c', d') \<in> set (deciding (ts[k := x])). cs[c := v] ! c' = cs ! c'"
    by (intro ballI, clarify) (metis fst_conv image_eqI nth_list_update_neq)
  then show ?thesis
    using deciding_wf_replace [OF wf k(1) x] unfolding deciding_wf_def by fastforce
qed

lemma deciding_wf_channels:
  assumes "deciding_wf ts tk cs" and "\<And>c. c \<in> fst ` set tk \<Longrightarrow> cs' ! c = cs ! c"
  shows "deciding_wf ts tk cs'"
  using assms unfolding deciding_wf_def by fastforce

lemma deciding_wf_take:
  assumes "deciding_wf ts tk cs" and "c \<notin> fst ` set tk" and "cs ! c = Waiting"
  shows "deciding_wf (ts @ [Deciding i d c]) (tk @ [(c, d)]) cs"
  using assms unfolding deciding_wf_def by force

lemma taken_wf_pending:
  assumes "taken_wf tk q" "set (q_pending q') \<subseteq> set (q_pending q)"
    "length (q_channels q') = length (q_channels q)"
  shows "taken_wf tk q'"
  using assms unfolding taken_wf_def by fastforce

lemma taken_fresh:
  assumes "taken_wf tk q" "map_of (q_pending q) i = Some (p, c)"
  shows "c \<notin> fst ` set tk"
  using assms(1) map_of_SomeD [OF assms(2)] unfolding taken_wf_def by fastforce

lemma drop_sender_other:
  assumes "taken_wf tk q" "c \<in> fst ` set tk"
  shows "drop_sender (map_of (q_pending q) i) cs ! c = cs ! c"
proof (cases "map_of (q_pending q) i")
  case (Some e)
  then obtain p b where "map_of (q_pending q) i = Some (p, b)" by (cases e) auto
  moreover from taken_fresh [OF assms(1) this] assms(2) have "b \<noteq> c" by auto
  ultimately show ?thesis by (simp add: drop_sender_def)
qed (simp add: drop_sender_def)

lemma senders_wf_insert:
  assumes "senders_wf s" "c = length (q_channels (s_queue s))"
    "p = \<lparr>pa_id = i, pa_request = req, pa_created_at = now\<rparr>"
  shows "senders_wf (s\<lparr>
      s_queue := pending_insert p c ((s_queue s)\<lparr>q_channels := q_channels (s_queue s) @ [Waiting]\<rparr>),
      s_tasks := s_tasks s @ [Publishing p c]\<rparr>)"
proof -
  let ?q = "pending_insert p c ((s_queue s)\<lparr>q_channels := q_channels (s_queue s) @ [Waiting]\<rparr>)"
  have q: "queue_wf (s_queue s)" and t: "taken_wf (s_taken s) (s_queue s)" and
    d: "deciding_wf (s_tasks s) (s_taken s) (q_channels (s_queue s))"
    using assms(1) by (simp_all add: senders_wf_def)
  have "queue_wf ?q" using queue_wf_insert [OF q] assms(2,3) by simp
  moreover have "taken_wf (s_taken s) ?q"
    using t update_as_delete [of "q_pending (s_queue s)" i "(p, c)"] q assms(2,3)
    unfolding taken_wf_def
    by (fastforce simp: pending_insert_def queue_wf_def set_delete)
  moreover have "deciding_wf (s_tasks s @ [Publishing p c]) (s_taken s) (q_channels ?q)"
  proof -
    have "q_channels ?q ! x = q_channels (s_queue s) ! x" if "x \<in> fst ` set (s_taken s)" for x
    proof -
      have "x < length (q_channels (s_queue s))" using t that unfolding taken_wf_def by blast
      then show ?thesis
        using drop_sender_other [OF t that] by (simp add: pending_insert_def nth_append)
    qed
    then have "deciding_wf (s_tasks s) (s_taken s) (q_channels ?q)"
      by (rule deciding_wf_channels [OF d])
    then show ?thesis by (simp add: deciding_wf_def)
  qed
  ultimately show ?thesis by (simp add: senders_wf_def)
qed

lemma senders_wf_take:
  assumes "senders_wf s" "map_of (q_pending (s_queue s)) i = Some (p, c)"
  shows "senders_wf (s\<lparr>s_queue := pending_remove i (s_queue s),
      s_tasks := s_tasks s @ [Deciding i d c], s_taken := s_taken s @ [(c, d)]\<rparr>)"
proof -
  have q: "queue_wf (s_queue s)" and t: "taken_wf (s_taken s) (s_queue s)" and
    dw: "deciding_wf (s_tasks s) (s_taken s) (q_channels (s_queue s))"
    using assms(1) by (simp_all add: senders_wf_def)
  have fresh: "c \<notin> fst ` set (s_taken s)" by (rule taken_fresh [OF t assms(2)])
  have "\<forall>(j, p', c') \<in> set (AList.delete i (q_pending (s_queue s))). c' \<noteq> c"
    using queue_wf_channel_inj(1) [OF q map_of_SomeD [OF assms(2)]] by (auto simp: set_delete)
  moreover have "taken_wf (s_taken s) (pending_remove i (s_queue s))"
    by (rule taken_wf_pending [OF t]) (auto simp: pending_remove_def set_delete)
  ultimately have "taken_wf (s_taken s @ [(c, d)]) (pending_remove i (s_queue s))"
    using fresh queue_wf_lookup(2) [OF q assms(2)] by (auto simp: taken_wf_def pending_remove_def)
  then show ?thesis
    using queue_wf_remove [OF q] deciding_wf_take [OF dw fresh queue_wf_lookup(3) [OF q assms(2)]]
    by (simp add: senders_wf_def)
qed

lemma senders_wf_deliver:
  assumes "senders_wf s" "k < length (s_tasks s)" "s_tasks s ! k = Deciding i d c"
  shows "senders_wf (s\<lparr>s_queue := oneshot_send c v (s_queue s),
      s_tasks := (s_tasks s)[k := Announcing i d]\<rparr>)"
proof -
  have q: "queue_wf (s_queue s)" and t: "taken_wf (s_taken s) (s_queue s)" and
    dw: "deciding_wf (s_tasks s) (s_taken s) (q_channels (s_queue s))"
    using assms(1) by (simp_all add: senders_wf_def)
  have "(c, d) \<in> set (s_taken s)"
    using dw deciding_split [OF assms(2)] assms(3) by (fastforce simp: deciding_wf_def)
  then have "\<forall>(j, p, c') \<in> set (q_pending (s_queue s)). c' \<noteq> c"
    using t unfolding taken_wf_def by force
  then have "queue_wf (oneshot_send c v (s_queue s))"
    using q by (fastforce simp: queue_wf_def oneshot_send_def)
  moreover have "taken_wf (s_taken s) (oneshot_send c v (s_queue s))"
    using t by (simp add: taken_wf_def)
  ultimately show ?thesis
    using deciding_wf_deliver [OF dw assms(2,3)] by (simp add: senders_wf_def oneshot_send_def)
qed

lemma senders_wf_clean:
  assumes "senders_wf s"
  shows "senders_wf (s\<lparr>s_queue := pending_drop i (s_queue s)\<rparr>)"
proof -
  have q: "queue_wf (s_queue s)" and t: "taken_wf (s_taken s) (s_queue s)" and
    dw: "deciding_wf (s_tasks s) (s_taken s) (q_channels (s_queue s))"
    using assms(1) by (simp_all add: senders_wf_def)
  have "taken_wf (s_taken s) (pending_drop i (s_queue s))"
    by (rule taken_wf_pending [OF t]) (auto simp: pending_drop_def pending_remove_def set_delete)
  moreover have "deciding_wf (s_tasks s) (s_taken s) (q_channels (pending_drop i (s_queue s)))"
    using deciding_wf_channels [OF dw] drop_sender_other [OF t] by (simp add: pending_drop_def)
  ultimately show ?thesis using queue_wf_drop [OF q] by (simp add: senders_wf_def)
qed

lemma senders_wf_task:
  assumes "senders_wf s" "k < length (s_tasks s)"
  shows "senders_wf (s\<lparr>s_queue := broadcast e (s_queue s), s_tasks := (s_tasks s)[k := Finished]\<rparr>)"
  using assms deciding_wf_replace [of "s_tasks s" _ _ k Finished]
  by (simp add: senders_wf_def taken_wf_def)

lemma senders_wf_futures: "senders_wf (s\<lparr>s_futures := fs\<rparr>) \<longleftrightarrow> senders_wf s"
  by (simp add: senders_wf_def)

lemma senders_wf_step: "approvals_step s l t \<Longrightarrow> senders_wf s \<Longrightarrow> senders_wf t"
  by (induction rule: approvals_step.induct)
    (simp_all add: senders_wf_insert senders_wf_take senders_wf_deliver senders_wf_clean
      senders_wf_task senders_wf_futures)

lemma senders_wf_init: "approvals_init s \<Longrightarrow> senders_wf s"
  by (auto simp: approvals_init_def senders_wf_def taken_wf_def deciding_wf_def
      approval_queue_new_def queue_wf_def)

lemma nth_update_lt: "j < length xs \<Longrightarrow> xs[i := x] ! j = (if i = j then x else xs ! j)"
  by simp

lemma answers_wf_mono:
  assumes "answers_wf s"
    and "\<And>c v. holds (s_queue t) c v \<Longrightarrow> holds (s_queue s) c v"
    and "\<And>c v. returned t c v \<Longrightarrow> returned s c v \<or> v = Timeout \<or> holds (s_queue s) c v"
    and "set (s_taken s) \<subseteq> set (s_taken t)"
  shows "answers_wf t"
  using assms unfolding answers_wf_def by (metis subsetD)

lemma holds_simps [simp]:
  "holds (pending_remove i q) c v = holds q c v"
  "holds (broadcast e q) c v = holds q c v"
  by (simp_all add: holds_def)

lemma holds_drop: "holds (pending_drop i q) c v \<Longrightarrow> holds q c v"
  by (auto simp: holds_def pending_drop_def drop_sender_def nth_update_lt
      split: option.splits prod.splits if_splits)

lemma holds_insert:
  "holds (pending_insert p k (q\<lparr>q_channels := q_channels q @ [Waiting]\<rparr>)) c v \<Longrightarrow> holds q c v"
  by (auto simp: holds_def pending_insert_def drop_sender_def nth_update_lt nth_append
      split: option.splits prod.splits if_splits)

lemma holds_send: "holds (oneshot_send k w q) c v \<Longrightarrow> holds q c v \<or> c = k \<and> v = w"
  by (auto simp: holds_def oneshot_send_def nth_update_lt split: if_splits)

lemma returned_update:
  "returned (s\<lparr>s_futures := (s_futures s)[k := (f, st)]\<rparr>) c v \<Longrightarrow> returned s c v \<or> c = k \<and> st = Returned (Ok v)"
  by (auto simp: returned_def nth_update_lt split: if_splits)

lemma returned_other [simp]:
  "returned (s\<lparr>s_queue := q\<rparr>) c v = returned s c v"
  "returned (s\<lparr>s_tasks := ts\<rparr>) c v = returned s c v"
  "returned (s\<lparr>s_taken := tk\<rparr>) c v = returned s c v"
  by (simp_all add: returned_def)

lemma answers_wf_step:
  assumes "approvals_step s l t" "senders_wf s" "futures_wf s" "answers_wf s"
  shows "answers_wf t"
  using assms
proof (induction rule: approvals_step.induct)
  case (insert c s p i req now f)
  show ?case
  proof (rule answers_wf_mono [OF insert.prems(3)], goal_cases)
    case (1 c' v)
    then show ?case using holds_insert [of p c "s_queue s" c' v] by simp
  next
    case (2 c' v)
    then show ?case by (auto simp: returned_def nth_append less_Suc_eq split: if_splits)
  qed simp
next
  case (publish k s p c)
  show ?case
  proof (rule answers_wf_mono [OF publish.prems(3)], goal_cases)
    case (2 c' v)
    then show ?case by (cases "c = c'") (auto simp: returned_def nth_update_lt)
  qed simp_all
next
  case (take s i p c d)
  show ?case by (rule answers_wf_mono [OF take.prems(3)]) auto
next
  case (deliver k s i d c)
  then have "(c, d) \<in> set (s_taken s)"
    using deciding_split [of k "s_tasks s"] by (fastforce simp: senders_wf_def deciding_wf_def)
  with deliver.prems(3) show ?case
    unfolding answers_wf_def by (auto dest: holds_send)
next
  case (announce k s i d)
  show ?case by (rule answers_wf_mono [OF announce.prems(3)]) auto
next
  case (receive c s f v)
  then have "holds (s_queue s) c v" by (simp add: holds_def futures_wf_def)
  then show ?case
    by (intro answers_wf_mono [OF receive.prems(3)]) (auto dest!: returned_update)
next
  case (clean c s f)
  show ?case
  proof (rule answers_wf_mono [OF clean.prems(3)], goal_cases)
    case (1 c' v)
    then show ?case using holds_drop by simp
  next
    case (2 c' v)
    then show ?case by (cases "c = c'") (auto simp: returned_def nth_update_lt)
  qed simp
next
  case (receive_closed c s f)
  show ?case by (rule answers_wf_mono [OF receive_closed.prems(3)]) (auto dest!: returned_update)
next
  case (expire c s f)
  show ?case by (rule answers_wf_mono [OF expire.prems(3)]) (auto dest!: returned_update)
next
  case (cancel c s f st)
  show ?case by (rule answers_wf_mono [OF cancel.prems(3)]) (auto dest!: returned_update)
qed simp

lemma approvals_reach_wf:
  assumes "approvals.reach s"
  shows "senders_wf s \<and> futures_wf s \<and> answers_wf s"
proof (rule approvals.invariant [OF assms])
  show "senders_wf s \<and> futures_wf s \<and> answers_wf s" if "approvals_init s" for s
    using that senders_wf_init [OF that]
    by (auto simp: approvals_init_def futures_wf_def answers_wf_def approval_queue_new_def
        holds_def returned_def)
  show "senders_wf t \<and> futures_wf t \<and> answers_wf t"
    if "senders_wf s \<and> futures_wf s \<and> answers_wf s" "approvals_step s l t" for s l t
    using that senders_wf_step futures_wf_step answers_wf_step by blast
qed

section \<open>Running a schedule\<close>

text \<open>The step relation as a function of the label, and the run of a list of labels.\<close>

fun approvals_exec :: "approval_label \<Rightarrow> approval_sys \<Rightarrow> approval_sys option" where
  "approvals_exec (Insert i now req) s =
     (let c = length (q_channels (s_queue s));
          p = \<lparr>pa_id = i, pa_request = req, pa_created_at = now\<rparr>;
          f = \<lparr>fut_rx = c, fut_timeout = q_timeout (s_queue s), fut_id = i\<rparr>
      in Some (s\<lparr>
        s_queue := pending_insert p c ((s_queue s)\<lparr>q_channels := q_channels (s_queue s) @ [Waiting]\<rparr>),
        s_tasks := s_tasks s @ [Publishing p c],
        s_futures := s_futures s @ [(f, Idle)]\<rparr>))"
| "approvals_exec (Publish k) s = (if k < length (s_tasks s) then
     (case s_tasks s ! k of Publishing p c \<Rightarrow> Some (s\<lparr>
        s_queue := broadcast (Requested p) (s_queue s),
        s_tasks := (s_tasks s)[k := Finished],
        s_futures := (s_futures s)[c := (fst (s_futures s ! c), Awaiting)]\<rparr>)
      | _ \<Rightarrow> None) else None)"
| "approvals_exec (Take i d) s = (case map_of (q_pending (s_queue s)) i of
      None \<Rightarrow> None
    | Some (p, c) \<Rightarrow> Some (s\<lparr>
        s_queue := pending_remove i (s_queue s),
        s_tasks := s_tasks s @ [Deciding i d c],
        s_taken := s_taken s @ [(c, d)]\<rparr>))"
| "approvals_exec (Miss i d) s = (if map_of (q_pending (s_queue s)) i = None then Some s else None)"
| "approvals_exec (Deliver k) s = (if k < length (s_tasks s) then
     (case s_tasks s ! k of Deciding i d c \<Rightarrow> Some (s\<lparr>
        s_queue := oneshot_send c (decision_outcome d) (s_queue s),
        s_tasks := (s_tasks s)[k := Announcing i d]\<rparr>)
      | _ \<Rightarrow> None) else None)"
| "approvals_exec (Announce k) s = (if k < length (s_tasks s) then
     (case s_tasks s ! k of Announcing i d \<Rightarrow> Some (s\<lparr>
        s_queue := broadcast (Resolved i d) (s_queue s),
        s_tasks := (s_tasks s)[k := Finished]\<rparr>)
      | _ \<Rightarrow> None) else None)"
| "approvals_exec (Receive c) s = (if c < length (s_futures s) then
     (case (s_futures s ! c, q_channels (s_queue s) ! c) of
        ((f, Awaiting), Value v) \<Rightarrow> Some (s\<lparr>s_futures := (s_futures s)[c := (f, Returned (Ok v))]\<rparr>)
      | ((f, Awaiting), Closed) \<Rightarrow> Some (s\<lparr>s_futures := (s_futures s)[c :=
          (f, Returned (Err (Internal ''approval channel dropped'')))]\<rparr>)
      | _ \<Rightarrow> None) else None)"
| "approvals_exec (Expire c) s = (if c < length (s_futures s) then
     (case (s_futures s ! c, q_channels (s_queue s) ! c) of
        ((f, Awaiting), Waiting) \<Rightarrow> Some (s\<lparr>s_futures := (s_futures s)[c := (f, Expired)]\<rparr>)
      | _ \<Rightarrow> None) else None)"
| "approvals_exec (Clean c) s = (if c < length (s_futures s) then
     (case s_futures s ! c of (f, Expired) \<Rightarrow> Some (s\<lparr>
        s_queue := pending_drop (fut_id f) (s_queue s),
        s_futures := (s_futures s)[c := (f, Returned (Ok Timeout))]\<rparr>)
      | _ \<Rightarrow> None) else None)"
| "approvals_exec (Cancel c) s = (if c < length (s_futures s) then
     (case s_futures s ! c of
        (f, Awaiting) \<Rightarrow> Some (s\<lparr>s_futures := (s_futures s)[c := (f, Cancelled)]\<rparr>)
      | (f, Expired) \<Rightarrow> Some (s\<lparr>s_futures := (s_futures s)[c := (f, Cancelled)]\<rparr>)
      | _ \<Rightarrow> None) else None)"

primrec approvals_run :: "approval_label list \<Rightarrow> approval_sys \<Rightarrow> approval_sys option" where
  "approvals_run [] s = Some s"
| "approvals_run (l # ls) s = Option.bind (approvals_exec l s) (approvals_run ls)"

lemma approvals_exec_sound: "approvals_exec l s = Some t \<Longrightarrow> approvals_step s l t"
  by (cases l)
    (auto simp: Let_def intro: approvals_step.intros
      split: option.splits task.splits prod.splits oneshot.splits fut_state.splits if_splits)

lemma approvals_exec_complete: "approvals_step s l t \<Longrightarrow> approvals_exec l s = Some t"
  by (induction rule: approvals_step.induct) (auto simp: Let_def)

lemma approvals_step_iff: "approvals_step s l t \<longleftrightarrow> approvals_exec l s = Some t"
  using approvals_exec_sound approvals_exec_complete by blast

lemma approvals_run_path: "approvals_run ls s = Some t \<Longrightarrow> approvals.path s ls t"
  by (induction ls arbitrary: s)
    (auto simp: Option.bind_eq_Some_conv intro: approvals.path.intros approvals_exec_sound)

lemma approvals_run_reach: "approvals_init s \<Longrightarrow> approvals_run ls s = Some t \<Longrightarrow> approvals.reach t"
  using approvals.path_reach [OF approvals_run_path] approvals.reach.reach_init by blast

section \<open>Consequences\<close>

text \<open>Without interleaving, the three steps of a decision are the function \<^const>\<open>decide\<close>.\<close>

lemma decide_steps:
  assumes "decide X i d (s_queue s) = (Ok (), q')"
  shows "\<exists>t. approvals.path s
      [Take i d, Deliver (length (s_tasks s)), Announce (length (s_tasks s))] t \<and> s_queue t = q'"
proof -
  obtain p c where look: "map_of (q_pending (s_queue s)) i = Some (p, c)"
    and q': "q' = broadcast (Resolved i d) (oneshot_send c (decision_outcome d) (pending_remove i (s_queue s)))"
    using assms by (auto simp: decide_def split: option.splits)
  let ?k = "length (s_tasks s)"
  let ?s1 = "s\<lparr>s_queue := pending_remove i (s_queue s), s_tasks := s_tasks s @ [Deciding i d c],
      s_taken := s_taken s @ [(c, d)]\<rparr>"
  let ?s2 = "?s1\<lparr>s_queue := oneshot_send c (decision_outcome d) (s_queue ?s1),
      s_tasks := (s_tasks ?s1)[?k := Announcing i d]\<rparr>"
  let ?s3 = "?s2\<lparr>s_queue := broadcast (Resolved i d) (s_queue ?s2), s_tasks := (s_tasks ?s2)[?k := Finished]\<rparr>"
  have "approvals_step s (Take i d) ?s1" by (rule approvals_step.take [OF look])
  moreover have "approvals_step ?s1 (Deliver ?k) ?s2" by (rule approvals_step.deliver) simp_all
  moreover have "approvals_step ?s2 (Announce ?k) ?s3" by (rule approvals_step.announce) simp_all
  ultimately have "approvals.path s [Take i d, Deliver ?k, Announce ?k] ?s3"
    by (rule approvals.path.path_Cons [OF _ approvals.path.path_Cons [OF _ approvals.path_one]])
  then show ?thesis using q' by (intro exI [of _ ?s3]) simp
qed

lemma decide_miss:
  assumes "decide X i d (s_queue s) = (r, q')" and "r \<noteq> Ok ()"
  shows "approvals.path s [Miss i d] s \<and> q' = s_queue s"
proof -
  have "map_of (q_pending (s_queue s)) i = None" "q' = s_queue s"
    using assms by (auto simp: decide_def split: option.splits)
  then show ?thesis by (auto intro: approvals.path_one approvals_step.miss)
qed

text \<open>The same for \<^const>\<open>enqueue\<close> and for one poll of a waiting call.\<close>

lemma enqueue_steps:
  assumes "futures_wf s" and "enqueue i now req (s_queue s) = ((j, f), q')"
  shows "\<exists>t. approvals.path s [Insert i now req, Publish (length (s_tasks s))] t \<and>
    s_queue t = q' \<and> s_futures t = s_futures s @ [(f, Awaiting)]"
proof -
  let ?c = "length (q_channels (s_queue s))" and ?k = "length (s_tasks s)"
  let ?p = "\<lparr>pa_id = i, pa_request = req, pa_created_at = now\<rparr>"
  let ?s1 = "s\<lparr>s_queue := pending_insert ?p ?c ((s_queue s)\<lparr>q_channels := q_channels (s_queue s) @ [Waiting]\<rparr>),
      s_tasks := s_tasks s @ [Publishing ?p ?c], s_futures := s_futures s @ [(f, Idle)]\<rparr>"
  let ?s2 = "?s1\<lparr>s_queue := broadcast (Requested ?p) (s_queue ?s1), s_tasks := (s_tasks ?s1)[?k := Finished],
      s_futures := (s_futures ?s1)[?c := (fst (s_futures ?s1 ! ?c), Awaiting)]\<rparr>"
  have f: "f = \<lparr>fut_rx = ?c, fut_timeout = q_timeout (s_queue s), fut_id = i\<rparr>"
    and q: "q' = broadcast (Requested ?p) (s_queue ?s1)"
    using assms(2) by (auto simp: enqueue_def Let_def)
  have "approvals_step s (Insert i now req) ?s1" by (rule approvals_step.insert [OF refl refl f])
  moreover have "approvals_step ?s1 (Publish ?k) ?s2" by (rule approvals_step.publish) simp_all
  ultimately have "approvals.path s [Insert i now req, Publish ?k] ?s2"
    by (rule approvals.path.path_Cons [OF _ approvals.path_one])
  moreover have "?c = length (s_futures s)" using assms(1) by (simp add: futures_wf_def)
  ultimately show ?thesis using q by (intro exI [of _ ?s2]) simp
qed

lemma await_steps:
  assumes "c < length (s_futures s)" "s_futures s ! c = (f, Awaiting)" "fut_rx f = c"
    and "await_outcome f elapsed (s_queue s) = Some (r, q)"
  shows "\<exists>ls t. approvals.path s ls t \<and> set ls \<subseteq> {Receive c, Expire c, Clean c} \<and>
    s_futures t ! c = (f, Returned r) \<and> s_queue t = q"
proof (cases "q_channels (s_queue s) ! c")
  case Waiting
  let ?s1 = "s\<lparr>s_futures := (s_futures s)[c := (f, Expired)]\<rparr>"
  let ?s2 = "?s1\<lparr>s_queue := pending_drop (fut_id f) (s_queue ?s1),
      s_futures := (s_futures ?s1)[c := (f, Returned (Ok Timeout))]\<rparr>"
  have "approvals_step s (Expire c) ?s1" by (rule approvals_step.expire [OF assms(1,2) Waiting])
  moreover have "approvals_step ?s1 (Clean c) ?s2"
    using assms(1) by (intro approvals_step.clean) simp_all
  ultimately have "approvals.path s [Expire c, Clean c] ?s2"
    by (rule approvals.path.path_Cons [OF _ approvals.path_one])
  moreover have "r = Ok Timeout" "q = pending_drop (fut_id f) (s_queue s)"
    using assms(3,4) Waiting by (auto simp: await_outcome_def split: if_splits)
  ultimately show ?thesis using assms(1) by (intro exI [of _ "[Expire c, Clean c]"] exI [of _ ?s2]) simp
next
  case (Value v)
  from approvals.path_one [OF approvals_step.receive [OF assms(1,2) Value]] assms Value show ?thesis
    by (intro exI [of _ "[Receive c]"]) (force simp: await_outcome_def)
next
  case Closed
  from approvals.path_one [OF approvals_step.receive_closed [OF assms(1,2) Closed]] assms Closed show ?thesis
    by (intro exI [of _ "[Receive c]"]) (force simp: await_outcome_def)
qed

text \<open>A waiting call can always finish by itself, at the latest when its timer fires.\<close>

lemma awaiting_can_return:
  assumes "c < length (s_futures s)" "s_futures s ! c = (f, Awaiting)"
  shows "\<exists>ls t r. approvals.path s ls t \<and> set ls \<subseteq> {Receive c, Expire c, Clean c} \<and>
    s_futures t ! c = (f, Returned r)"
proof (cases "q_channels (s_queue s) ! c")
  case Waiting
  let ?s1 = "s\<lparr>s_futures := (s_futures s)[c := (f, Expired)]\<rparr>"
  let ?s2 = "?s1\<lparr>s_queue := pending_drop (fut_id f) (s_queue ?s1),
      s_futures := (s_futures ?s1)[c := (f, Returned (Ok Timeout))]\<rparr>"
  have "approvals_step s (Expire c) ?s1" by (rule approvals_step.expire [OF assms Waiting])
  moreover have "approvals_step ?s1 (Clean c) ?s2"
    using assms(1) by (intro approvals_step.clean) simp_all
  ultimately have "approvals.path s [Expire c, Clean c] ?s2"
    by (rule approvals.path.path_Cons [OF _ approvals.path_one])
  then show ?thesis using assms(1) by (intro exI [of _ "[Expire c, Clean c]"] exI [of _ ?s2]) simp
next
  case (Value v)
  from approvals_step.receive [OF assms Value] have
    "approvals.path s [Receive c] (s\<lparr>s_futures := (s_futures s)[c := (f, Returned (Ok v))]\<rparr>)"
    by (rule approvals.path_one)
  then show ?thesis using assms(1) by (intro exI [of _ "[Receive c]"]) force
next
  case Closed
  from approvals_step.receive_closed [OF assms Closed] have
    "approvals.path s [Receive c] (s\<lparr>s_futures := (s_futures s)[c :=
      (f, Returned (Err (Internal ''approval channel dropped'')))]\<rparr>)"
    by (rule approvals.path_one)
  then show ?thesis using assms(1) by (intro exI [of _ "[Receive c]"]) force
qed

lemma distinct_key_once:
  assumes "distinct (map fst xs)" and "(k, v) \<in> set xs"
  shows "filter (\<lambda>(k', v'). k' = k) xs = [(k, v)]"
  using assms
proof (induction xs)
  case (Cons x xs)
  then show ?case
    by (cases "fst x = k") (auto simp: image_iff filter_empty_conv)
qed simp

section \<open>Properties\<close>

definition demo_start :: "approval_sys" where
  "demo_start = \<lparr>s_queue = approval_queue_new 300, s_tasks = [], s_futures = [], s_taken = []\<rparr>"

definition demo_request :: ApprovalRequest where
  "demo_request = \<lparr>ar_account = AccountId 1, ar_category = Send, ar_summary = ''send_message'',
     ar_details = JNull\<rparr>"

lemma demo_init: "approvals_init demo_start"
  by (auto simp: approvals_init_def demo_start_def)

lemmas demo_defs = demo_start_def demo_request_def approval_queue_new_def pending_insert_def
  pending_remove_def pending_drop_def drop_sender_def broadcast_def oneshot_send_def Let_def

text \<open>
  C5: A waiting tool call is told "approved" only when a decision \<open>Approve\<close> took exactly this
  request out of the queue, and then no other decision ever took it: at most one decision per
  request is accepted, whatever the interleaving of callers, deciders, timers and disconnects.
\<close>

theorem approved_only_by_its_decision:
  assumes "approvals.reach s" and "returned s c Approved"
  shows "(c, Approve) \<in> set (s_taken s) \<and> (c, Reject) \<notin> set (s_taken s) \<and>
    length (filter (\<lambda>(c', d). c' = c) (s_taken s)) = 1"
proof -
  have wf: "senders_wf s" "answers_wf s" using approvals_reach_wf [OF assms(1)] by simp_all
  obtain d where d: "(c, d) \<in> set (s_taken s)" "Approved = decision_outcome d"
    using wf(2) assms(2) unfolding answers_wf_def by blast
  then have "d = Approve" by (cases d) simp_all
  moreover have "distinct (map fst (s_taken s))" using wf(1) by (simp add: senders_wf_def taken_wf_def)
  ultimately show ?thesis using d(1) distinct_key_once [of "s_taken s" c Approve]
      distinct_key_once [of "s_taken s" c Reject] by auto
qed

theorem approved_only_by_its_decision_witness:
  "\<exists>s. approvals.reach s \<and> returned s 0 Approved \<and> (0, Approve) \<in> set (s_taken s)"
proof -
  obtain s where run: "approvals_run [Insert (ApprovalId 7) 0 demo_request, Publish 0,
      Take (ApprovalId 7) Approve, Deliver 1, Miss (ApprovalId 7) Reject, Announce 1, Receive 0] demo_start = Some s"
    and ret: "returned s 0 Approved"
    by (simp add: demo_defs returned_def)
  have "approvals.reach s" by (rule approvals_run_reach [OF demo_init run])
  then show ?thesis using approved_only_by_its_decision [OF _ ret] ret by blast
qed

text \<open>
  C29: The race between a decision and the timer. There is a schedule in which the timer of a
  waiting call has fired, the decision \<open>Approve\<close> then still finds the entry, is delivered and
  announced to every subscriber as resolved, and the call nevertheless returns a timeout: the
  queue can report an approval that no caller acts on.
\<close>

theorem announced_approval_can_be_lost:
  "\<exists>s. approvals.reach s \<and> Resolved (ApprovalId 7) Approve \<in> set (q_events (s_queue s)) \<and>
     (0, Approve) \<in> set (s_taken s) \<and> returned s 0 Timeout"
proof -
  obtain s where run: "approvals_run [Insert (ApprovalId 7) 0 demo_request, Publish 0, Expire 0,
      Take (ApprovalId 7) Approve, Deliver 1, Announce 1, Clean 0] demo_start = Some s"
    and "Resolved (ApprovalId 7) Approve \<in> set (q_events (s_queue s))"
    and "(0, Approve) \<in> set (s_taken s)" and "returned s 0 Timeout"
    by (simp add: demo_defs returned_def)
  then show ?thesis using approvals_run_reach [OF demo_init run] by blast
qed

text \<open>
  Announcements can come in the wrong order: the entry is inserted before it is announced, and a client
  that lists the entries in between can have it decided, so that subscribers hear of the decision first
  and of the request afterwards.
\<close>

lemma resolved_can_precede_requested:
  "\<exists>s p. approvals.reach s \<and> q_events (s_queue s) = [Resolved (ApprovalId 7) Approve, Requested p] \<and>
     pa_id p = ApprovalId 7 \<and> q_pending (s_queue s) = []"
proof -
  obtain s p where run: "approvals_run [Insert (ApprovalId 7) 0 demo_request, Take (ApprovalId 7) Approve, Deliver 1,
      Announce 1, Publish 0] demo_start = Some s"
    and "q_events (s_queue s) = [Resolved (ApprovalId 7) Approve, Requested p]" "pa_id p = ApprovalId 7" "q_pending (s_queue s) = []"
    by (simp add: demo_defs)
  then show ?thesis using approvals_run_reach [OF demo_init run] by blast
qed

text \<open>A caller that goes away leaves its entry: it can still be listed and decided, for nobody.\<close>

lemma cancelled_request_stays:
  "\<exists>s. approvals.reach s \<and> snd (s_futures s ! 0) = Cancelled \<and> map_of (q_pending (s_queue s)) (ApprovalId 7) \<noteq> None"
proof -
  obtain s where run: "approvals_run [Insert (ApprovalId 7) 0 demo_request, Publish 0, Cancel 0] demo_start = Some s"
    and "snd (s_futures s ! 0) = Cancelled" "map_of (q_pending (s_queue s)) (ApprovalId 7) \<noteq> None"
    by (simp add: demo_defs)
  then show ?thesis using approvals_run_reach [OF demo_init run] by blast
qed





end
