(* ===== verification/Rust_Str.thy ===== *)
theory Rust_Str
  imports Mail_Prelude
begin

text \<open>
  The functions of Rust's standard library on strings that the sources use. A string is its
  UTF-8 byte sequence, so a character outside ASCII is several elements.
\<close>

definition strip_prefix :: "string \<Rightarrow> string \<Rightarrow> string option" where
  "strip_prefix p s = (if prefix p s then Some (drop (length p) s) else None)"

text \<open>\<open>s.split(c)\<close>: always at least one piece.\<close>

fun split_char :: "char \<Rightarrow> string \<Rightarrow> string list" where
  "split_char c [] = [[]]"
| "split_char c (x # xs) = (if x = c then [] # split_char c xs
     else (case split_char c xs of p # ps \<Rightarrow> (x # p) # ps | [] \<Rightarrow> [[x]]))"

definition split_once :: "char \<Rightarrow> string \<Rightarrow> (string \<times> string) option" where
  "split_once c s = (if c \<in> set s
     then Some (takeWhile (\<lambda>x. x \<noteq> c) s, tl (dropWhile (\<lambda>x. x \<noteq> c) s)) else None)"

definition str_find :: "char \<Rightarrow> string \<Rightarrow> nat option" where
  "str_find c s = (if c \<in> set s then Some (length (takeWhile (\<lambda>x. x \<noteq> c) s)) else None)"

definition str_rfind :: "char \<Rightarrow> string \<Rightarrow> nat option" where
  "str_rfind c s = (if c \<in> set s
     then Some (length s - 1 - length (takeWhile (\<lambda>x. x \<noteq> c) (rev s))) else None)"

text \<open>\<open>str::trim\<close> removes Unicode white space at both ends.\<close>

definition white_space :: "string list" where
  "white_space =
     [[CHR 0x09], [CHR 0x0A], [CHR 0x0B], [CHR 0x0C], [CHR 0x0D], [CHR 0x20],
      [CHR 0xC2, CHR 0x85], [CHR 0xC2, CHR 0xA0], [CHR 0xE1, CHR 0x9A, CHR 0x80],
      [CHR 0xE2, CHR 0x80, CHR 0x80], [CHR 0xE2, CHR 0x80, CHR 0x81],
      [CHR 0xE2, CHR 0x80, CHR 0x82], [CHR 0xE2, CHR 0x80, CHR 0x83],
      [CHR 0xE2, CHR 0x80, CHR 0x84], [CHR 0xE2, CHR 0x80, CHR 0x85],
      [CHR 0xE2, CHR 0x80, CHR 0x86], [CHR 0xE2, CHR 0x80, CHR 0x87],
      [CHR 0xE2, CHR 0x80, CHR 0x88], [CHR 0xE2, CHR 0x80, CHR 0x89],
      [CHR 0xE2, CHR 0x80, CHR 0x8A], [CHR 0xE2, CHR 0x80, CHR 0xA8],
      [CHR 0xE2, CHR 0x80, CHR 0xA9], [CHR 0xE2, CHR 0x80, CHR 0xAF],
      [CHR 0xE2, CHR 0x81, CHR 0x9F], [CHR 0xE3, CHR 0x80, CHR 0x80]]"

definition leading_white :: "string \<Rightarrow> string option" where
  "leading_white s = find (\<lambda>w. prefix w s) white_space"

lemma leading_white_shorter: "leading_white s = Some w \<Longrightarrow> 0 < length w \<and> length w \<le> length s"
  by (auto simp: leading_white_def find_Some_iff prefix_length_le)
    (auto simp: white_space_def less_Suc_eq nth_Cons')

lemma leading_white_drop: "leading_white s = Some w \<Longrightarrow> length s - length w < length s"
  using leading_white_shorter [of s w] by linarith

function trim_start :: "string \<Rightarrow> string" where
  "trim_start s = (case leading_white s of None \<Rightarrow> s | Some w \<Rightarrow> trim_start (drop (length w) s))"
  by pat_completeness auto
termination
  by (relation "measure length") (simp_all add: leading_white_drop)

declare trim_start.simps [simp del]

definition trailing_white :: "string \<Rightarrow> string option" where
  "trailing_white s = find (\<lambda>w. suffix w s) white_space"

lemma trailing_white_shorter: "trailing_white s = Some w \<Longrightarrow> 0 < length w \<and> length w \<le> length s"
  by (auto simp: trailing_white_def find_Some_iff suffix_length_le)
    (auto simp: white_space_def less_Suc_eq nth_Cons')

lemma trailing_white_drop: "trailing_white s = Some w \<Longrightarrow> length s - length w < length s"
  using trailing_white_shorter [of s w] by linarith

function trim_end :: "string \<Rightarrow> string" where
  "trim_end s = (case trailing_white s of None \<Rightarrow> s | Some w \<Rightarrow> trim_end (take (length s - length w) s))"
  by pat_completeness auto
termination
  by (relation "measure length") (simp_all add: trailing_white_drop)

declare trim_end.simps [simp del]

definition trim :: "string \<Rightarrow> string" where
  "trim s = trim_end (trim_start s)"

definition trim_matches :: "char \<Rightarrow> string \<Rightarrow> string" where
  "trim_matches c s = rev (dropWhile (\<lambda>x. x = c) (rev (dropWhile (\<lambda>x. x = c) s)))"

definition ascii_lower :: "char \<Rightarrow> char" where
  "ascii_lower c = (if 65 \<le> (of_char c :: nat) \<and> (of_char c :: nat) \<le> 90
     then char_of ((of_char c :: nat) + 32) else c)"

definition eq_ignore_ascii_case :: "string \<Rightarrow> string \<Rightarrow> bool" where
  "eq_ignore_ascii_case a b \<longleftrightarrow> map ascii_lower a = map ascii_lower b"

fun join :: "string \<Rightarrow> string list \<Rightarrow> string" where
  "join sep [] = []"
| "join sep [x] = x"
| "join sep (x # y # ys) = x @ sep @ join sep (y # ys)"

text \<open>Decimal printing and parsing of unsigned numbers.\<close>

definition digit :: "nat \<Rightarrow> char" where
  "digit n = char_of (48 + n)"

fun show_nat :: "nat \<Rightarrow> string" where
  "show_nat n = (if n < 10 then [digit n] else show_nat (n div 10) @ [digit (n mod 10)])"

declare show_nat.simps [simp del]

definition show_int :: "int \<Rightarrow> string" where
  "show_int n = (if n < 0 then CHR ''-'' # show_nat (nat (- n)) else show_nat (nat n))"

definition digit_value :: "char \<Rightarrow> nat option" where
  "digit_value c = (if 48 \<le> (of_char c :: nat) \<and> (of_char c :: nat) \<le> 57
     then Some (of_char c - 48) else None)"

fun digits_value :: "nat \<Rightarrow> string \<Rightarrow> nat option" where
  "digits_value acc [] = Some acc"
| "digits_value acc (c # cs) =
     Option.bind (digit_value c) (\<lambda>d. digits_value (10 * acc + d) cs)"

text \<open>\<open>str::parse::<i64>\<close>: an optional sign, at least one digit, no overflow.\<close>

definition parse_i64 :: "string \<Rightarrow> int option" where
  "parse_i64 s =
     (let (neg, ds) = (case s of
          CHR ''-'' # r \<Rightarrow> (True, r)
        | CHR ''+'' # r \<Rightarrow> (False, r)
        | _ \<Rightarrow> (False, s))
      in if ds = [] then None
         else Option.bind (digits_value 0 ds) (\<lambda>n.
           let v = (if neg then - int n else int n) in
           if - (2 ^ 63) \<le> v \<and> v < 2 ^ 63 then Some v else None))"

text \<open>Well-formed UTF-8, as the standard library checks it.\<close>

definition cont :: "char \<Rightarrow> bool" where
  "cont c \<longleftrightarrow> 128 \<le> (of_char c :: nat) \<and> (of_char c :: nat) < 192"

definition in_range :: "nat \<Rightarrow> nat \<Rightarrow> char \<Rightarrow> bool" where
  "in_range a b c \<longleftrightarrow> a \<le> of_char c \<and> of_char c \<le> b"

fun valid_utf8 :: "string \<Rightarrow> bool" where
  "valid_utf8 [] = True"
| "valid_utf8 (a # s) =
     (if in_range 0 127 a then valid_utf8 s
      else (case s of [] \<Rightarrow> False
      | b # s1 \<Rightarrow>
        if in_range 194 223 a then cont b \<and> valid_utf8 s1
        else (case s1 of [] \<Rightarrow> False
        | c # s2 \<Rightarrow>
          if in_range 224 239 a then
            (if in_range 224 224 a then in_range 160 191 b
             else if in_range 237 237 a then in_range 128 159 b else cont b) \<and> cont c \<and> valid_utf8 s2
          else (case s2 of [] \<Rightarrow> False
          | d # s3 \<Rightarrow>
            in_range 240 244 a \<and>
            (if in_range 240 240 a then in_range 144 191 b
             else if in_range 244 244 a then in_range 128 143 b else cont b) \<and>
            cont c \<and> cont d \<and> valid_utf8 s3))))"

section \<open>Facts\<close>

lemma split_char_not_Nil [simp]: "split_char c s \<noteq> []"
  by (induction s) (auto split: list.split)

lemma split_char_none: "c \<notin> set s \<Longrightarrow> split_char c s = [s]"
  by (induction s) auto

lemma split_char_append:
  "c \<notin> set a \<Longrightarrow> split_char c (a @ c # b) = a # split_char c b"
  by (induction a) auto

lemma split_char_join:
  assumes "xs \<noteq> []" and "\<And>x. x \<in> set xs \<Longrightarrow> c \<notin> set x"
  shows "split_char c (join [c] xs) = xs"
  using assms
proof (induction xs rule: induct_list012)
  case (2 x)
  then show ?case by (simp add: split_char_none)
next
  case (3 x y zs)
  then show ?case by (simp add: split_char_append)
qed simp

lemma join_Cons_head: "join sep ((x # p) # ps) = x # join sep (p # ps)"
  by (cases ps) simp_all

lemma join_split_char: "join [c] (split_char c s) = s"
proof (induction s)
  case (Cons x s)
  then show ?case
    by (cases "split_char c s" rule: list.exhaust) (auto split: list.split simp: neq_Nil_conv join_Cons_head)
qed simp

lemma split_once_Some:
  assumes "split_once c s = Some (a, b)"
  shows "s = a @ c # b" "c \<notin> set a"
proof -
  have c: "c \<in> set s" and a: "a = takeWhile (\<lambda>x. x \<noteq> c) s" and b: "b = tl (dropWhile (\<lambda>x. x \<noteq> c) s)"
    using assms by (auto simp: split_once_def split: if_splits)
  obtain y ys where y: "dropWhile (\<lambda>x. x \<noteq> c) s = y # ys"
    using c by (cases "dropWhile (\<lambda>x. x \<noteq> c) s") (auto simp: dropWhile_eq_Nil_conv)
  then have "y = c" using hd_dropWhile [of "\<lambda>x. x \<noteq> c" s] by simp
  then show "s = a @ c # b"
    using a b y takeWhile_dropWhile_id [of "\<lambda>x. x \<noteq> c" s] by simp
  show "c \<notin> set a" using a set_takeWhileD by fastforce
qed

lemma digit_value_digit [simp]: "n < 10 \<Longrightarrow> digit_value (digit n) = Some n"
  by (simp add: digit_value_def digit_def)

lemma digits_value_append:
  "digits_value acc (xs @ ys) = Option.bind (digits_value acc xs) (\<lambda>a. digits_value a ys)"
  by (induction xs arbitrary: acc) (auto split: Option.bind_split)

lemma digits_value_show_nat [simp]: "digits_value 0 (show_nat n) = Some n"
proof (induction n rule: show_nat.induct)
  case (1 n)
  show ?case
  proof (cases "n < 10")
    case True
    then show ?thesis by (simp add: show_nat.simps [of n])
  next
    case False
    then show ?thesis
      using 1 by (simp add: show_nat.simps [of n] digits_value_append)
  qed
qed

lemma show_nat_inject: "show_nat m = show_nat n \<longleftrightarrow> m = n"
  by (metis digits_value_show_nat option.inject)

lemma show_nat_not_Nil [simp]: "show_nat n \<noteq> []"
  by (subst show_nat.simps) simp

section \<open>Trimming\<close>

definition alnum :: "char \<Rightarrow> bool" where
  "alnum c \<longleftrightarrow> (let n = (of_char c :: nat) in
     48 \<le> n \<and> n \<le> 57 \<or> 65 \<le> n \<and> n \<le> 90 \<or> 97 \<le> n \<and> n \<le> 122)"

lemma alnum_not_white: "alnum c \<Longrightarrow> w \<in> set white_space \<Longrightarrow> hd w \<noteq> c \<and> last w \<noteq> c"
  by (auto simp: white_space_def alnum_def Let_def)

lemma white_space_not_Nil: "[] \<notin> set white_space"
  by (simp add: white_space_def)

lemma leading_white_alnum: "alnum c \<Longrightarrow> leading_white (c # cs) = None"
  unfolding leading_white_def find_None_iff
  using alnum_not_white white_space_not_Nil by (metis list.sel(1) prefix_Cons)

lemma trailing_white_alnum:
  assumes "alnum c"
  shows "trailing_white (cs @ [c]) = None"
  unfolding trailing_white_def find_None_iff
proof
  assume "\<exists>w. w \<in> set white_space \<and> suffix w (cs @ [c])"
  then obtain w where w: "w \<in> set white_space" "suffix w (cs @ [c])" by blast
  moreover have "w \<noteq> []" using w(1) white_space_not_Nil by metis
  ultimately have "last w = c" by (auto simp: suffix_def dest: arg_cong [where f = last])
  with alnum_not_white [OF assms w(1)] show False by simp
qed

text \<open>A text that starts and ends with a letter or digit is left alone, with one space after it too.\<close>

definition tidy :: "string \<Rightarrow> bool" where
  "tidy s \<longleftrightarrow> s \<noteq> [] \<and> alnum (hd s) \<and> alnum (last s)"

lemma trim_start_tidy: "tidy s \<Longrightarrow> trim_start (s @ t) = s @ t"
  by (cases s) (simp_all add: tidy_def trim_start.simps leading_white_alnum)

lemma trim_end_tidy: "tidy s \<Longrightarrow> trim_end s = s"
  by (cases s rule: rev_cases) (simp_all add: tidy_def trim_end.simps trailing_white_alnum)

lemma trim_tidy: "tidy s \<Longrightarrow> trim s = s"
  using trim_start_tidy [of s "[]"] by (simp add: trim_def trim_end_tidy)

lemma trailing_white_space: "trailing_white (s @ '' '') = Some '' ''"
  by (simp add: trailing_white_def white_space_def suffix_def)

lemma trim_tidy_space: "tidy s \<Longrightarrow> trim (s @ '' '') = s"
  by (simp add: trim_def trim_start_tidy trim_end.simps [of "s @ '' ''"] trailing_white_space trim_end_tidy)

lemma dropWhile_keep: "s \<noteq> [] \<Longrightarrow> \<not> P (hd s) \<Longrightarrow> dropWhile P s = s"
  by (cases s) auto

lemma trim_matches_quote: "tidy s \<Longrightarrow> trim_matches CHR 0x22 s = s"
proof -
  assume t: "tidy s"
  have "\<not> alnum CHR 0x22" by (simp add: alnum_def)
  then have "hd s \<noteq> CHR 0x22" "last s \<noteq> CHR 0x22" "s \<noteq> []" using t by (auto simp: tidy_def)
  then show ?thesis
    using dropWhile_keep [of s "\<lambda>x. x = CHR 0x22"] dropWhile_keep [of "rev s" "\<lambda>x. x = CHR 0x22"]
    by (simp add: trim_matches_def hd_rev)
qed

lemma str_rfind_last: "c \<notin> set t \<Longrightarrow> str_rfind c (s @ c # t) = Some (length s)"
  by (simp add: str_rfind_def takeWhile_append)

lemma str_find_first: "c \<notin> set s \<Longrightarrow> str_find c (s @ c # t) = Some (length s)"
  by (simp add: str_find_def takeWhile_append)

end
