(* ===== verification/Net.thy ===== *)
theory Net
  imports Core_Types Rust_Str
begin

text \<open>
  The outside world of the providers: HTTP exchanges, the clock and the OS keychain, and the
  secret store of \<^verbatim>\<open>secrets.rs\<close> on top of the keychain.

  The world keeps the history of everything the daemon did to it. What it answers is a parameter,
  the record \<open>env\<close>: a function of the history and of the request at hand. So every possible
  behaviour of servers, clock and keychain is covered, and equal histories get equal answers.
\<close>

section \<open>Requests, responses, history\<close>

datatype http_method = GET | POST | PUT | PATCH | DELETE

datatype http_body = NoBody | JsonBody json | FormBody "(string \<times> string) list"

record http_request =
  rq_method :: http_method
  rq_url :: string
  rq_bearer :: "string option"
  rq_body :: http_body

record http_response =
  rs_status :: nat
  rs_body :: string

datatype event =
    Http_Request http_request
  | Clock_Read
  | Keychain_Set string string string
  | Keychain_Get string string
  | Keychain_Delete string string

record env =
  env_http :: "event list \<Rightarrow> http_request \<Rightarrow> string + http_response"
  env_now :: "event list \<Rightarrow> datetime"
  env_keychain :: "event list \<Rightarrow> string option"

record OAuthTokens =
  tk_access_token :: string
  tk_refresh_token :: "string option"
  tk_expires_at :: datetime
  tk_scope :: "string option"

text \<open>
  \<open>net_tokens\<close> holds the shared token cell of every authenticated client, by the number of the
  client; \<open>net_keychain\<close> maps service and user to the stored password.
\<close>

record net =
  net_history :: "event list"
  net_tokens :: "nat \<Rightarrow> OAuthTokens"
  net_keychain :: "(string \<times> string) \<rightharpoonup> string"

definition log_event :: "event \<Rightarrow> net \<Rightarrow> net" where
  "log_event e w = w\<lparr>net_history := net_history w @ [e]\<rparr>"

definition http_send :: "env \<Rightarrow> http_request \<Rightarrow> (net, http_response) io" where
  "http_send E rq w = (map_err Http (env_http E (net_history w) rq), log_event (Http_Request rq) w)"

definition clock_now :: "env \<Rightarrow> (net, datetime) io" where
  "clock_now E w = (Ok (env_now E (net_history w)), log_event Clock_Read w)"

text \<open>\<open>error_for_status\<close> turns 4xx and 5xx into an error.\<close>

definition status_error :: "nat \<Rightarrow> bool" where
  "status_error s \<longleftrightarrow> 400 \<le> s \<and> s < 600"

definition error_for_status :: "http_response \<Rightarrow> http_response res" where
  "error_for_status r = (if status_error (rs_status r)
     then Err (Http (''HTTP status '' @ show_nat (rs_status r))) else Ok r)"

definition is_success :: "nat \<Rightarrow> bool" where
  "is_success s \<longleftrightarrow> 200 \<le> s \<and> s < 300"

text \<open>\<open>resp.json::<T>()\<close>: the body parsed and deserialised; \<open>what\<close> names the type in the message.\<close>

definition resp_json :: "crates \<Rightarrow> string \<Rightarrow> (json \<Rightarrow> 'a option) \<Rightarrow> http_response \<Rightarrow> 'a res" where
  "resp_json X what de r = res_bind (map_err Http (json_from_str X (rs_body r)))
     (\<lambda>v. ok_or (Http (serde_error X what v)) (de v))"

section \<open>The secret store\<close>

datatype KeyKind = RefreshToken | ImapPassword | SmtpPassword

primrec key_kind_as_str :: "KeyKind \<Rightarrow> string" where
  "key_kind_as_str RefreshToken = ''refresh_token''"
| "key_kind_as_str ImapPassword = ''imap_password''"
| "key_kind_as_str SmtpPassword = ''smtp_password''"

definition service_name :: "crates \<Rightarrow> AccountId \<Rightarrow> string" where
  "service_name X i = ''mail-mcp.'' @ account_id_to_string X i"

definition keychain :: "env \<Rightarrow> event \<Rightarrow> (net \<Rightarrow> 'a \<times> net) \<Rightarrow> (net, 'a) io" where
  "keychain E e act w = (case env_keychain E (net_history w) of
      Some m \<Rightarrow> (Err (Keychain m), log_event e w)
    | None \<Rightarrow> (case act (log_event e w) of (a, w') \<Rightarrow> (Ok a, w')))"

definition secret_set :: "crates \<Rightarrow> env \<Rightarrow> AccountId \<Rightarrow> KeyKind \<Rightarrow> string \<Rightarrow> (net, unit) io" where
  "secret_set X E i k v = keychain E (Keychain_Set (service_name X i) (key_kind_as_str k) v)
     (\<lambda>w. ((), w\<lparr>net_keychain := (net_keychain w)((service_name X i, key_kind_as_str k) \<mapsto> v)\<rparr>))"

definition secret_get :: "crates \<Rightarrow> env \<Rightarrow> AccountId \<Rightarrow> KeyKind \<Rightarrow> (net, string option) io" where
  "secret_get X E i k = keychain E (Keychain_Get (service_name X i) (key_kind_as_str k))
     (\<lambda>w. (net_keychain w (service_name X i, key_kind_as_str k), w))"

definition secret_delete :: "crates \<Rightarrow> env \<Rightarrow> AccountId \<Rightarrow> KeyKind \<Rightarrow> (net, unit) io" where
  "secret_delete X E i k = keychain E (Keychain_Delete (service_name X i) (key_kind_as_str k))
     (\<lambda>w. ((), w\<lparr>net_keychain := (net_keychain w)((service_name X i, key_kind_as_str k) := None)\<rparr>))"

definition secret_purge :: "crates \<Rightarrow> env \<Rightarrow> AccountId \<Rightarrow> (net, unit) io" where
  "secret_purge X E i =
     io_bind (io_ignore (secret_delete X E i RefreshToken)) (\<lambda>_.
     io_bind (io_ignore (secret_delete X E i ImapPassword)) (\<lambda>_.
     io_bind (io_ignore (secret_delete X E i SmtpPassword)) (\<lambda>_. io_ret ())))"

section \<open>Facts\<close>

text \<open>Nothing ever removes an event from the history.\<close>

definition extends :: "net \<Rightarrow> net \<Rightarrow> bool" where
  "extends w0 w \<longleftrightarrow> prefix (net_history w0) (net_history w)"

lemma extends_refl [simp]: "extends w w"
  by (simp add: extends_def)

lemma extends_trans: "extends a b \<Longrightarrow> extends b c \<Longrightarrow> extends a c"
  by (auto simp: extends_def)

lemma extends_simps [simp]:
  "extends w0 (w\<lparr>net_tokens := t\<rparr>) \<longleftrightarrow> extends w0 w"
  "extends w0 (w\<lparr>net_keychain := k\<rparr>) \<longleftrightarrow> extends w0 w"
  by (simp_all add: extends_def)

lemma extends_log: "extends w0 w \<Longrightarrow> extends w0 (log_event e w)"
  by (auto simp: extends_def log_event_def prefix_def)

lemma log_event_simps [simp]:
  "net_history (log_event e w) = net_history w @ [e]"
  "net_tokens (log_event e w) = net_tokens w"
  "net_keychain (log_event e w) = net_keychain w"
  by (simp_all add: log_event_def)

lemma http_send_safe: "safe b (extends w0) (http_send E rq)"
  by (rule safeI) (simp_all add: http_send_def extends_log)

lemma clock_now_safe: "safe b (extends w0) (clock_now E)"
  by (rule safeI) (simp_all add: clock_now_def extends_log)

lemma keychain_safe:
  assumes "\<And>w. extends w0 w \<Longrightarrow> extends w0 (snd (act w))"
  shows "safe b (extends w0) (keychain E e act)"
  using assms by (intro safeI) (auto simp: keychain_def extends_log split: option.split prod.splits,
    metis extends_log snd_conv)

lemma secret_set_safe: "safe b (extends w0) (secret_set X E i k v)"
  unfolding secret_set_def by (rule keychain_safe) simp

lemma error_for_status_no_panic [simp]: "\<not> is_panic (error_for_status r)"
  by (simp add: error_for_status_def)

lemma resp_json_no_panic [simp]: "\<not> is_panic (resp_json X what de r)"
  by (simp add: resp_json_def)

lemma key_kind_inject [simp]: "key_kind_as_str a = key_kind_as_str b \<longleftrightarrow> a = b"
  by (cases a; cases b) simp_all

lemma service_name_inject [simp]:
  "ulid_round_trip X \<Longrightarrow> service_name X a = service_name X b \<longleftrightarrow> a = b"
  by (simp add: service_name_def)

text \<open>The store as a table: what a lookup finds after each operation of a healthy keychain.\<close>

definition secret_lookup :: "crates \<Rightarrow> net \<Rightarrow> AccountId \<times> KeyKind \<Rightarrow> string option" where
  "secret_lookup X w = (\<lambda>(i, k). net_keychain w (service_name X i, key_kind_as_str k))"

lemma secret_get_result:
  "env_keychain E (net_history w) = None \<Longrightarrow> fst (secret_get X E i k w) = Ok (secret_lookup X w (i, k))"
  by (simp add: secret_get_def keychain_def secret_lookup_def)

lemma secret_set_lookup:
  assumes "ulid_round_trip X" "env_keychain E (net_history w) = None"
  shows "secret_lookup X (snd (secret_set X E i k v w)) = (secret_lookup X w)((i, k) \<mapsto> v)"
  using assms by (auto simp: secret_set_def keychain_def secret_lookup_def fun_eq_iff)

lemma secret_delete_lookup:
  assumes "ulid_round_trip X" "env_keychain E (net_history w) = None"
  shows "secret_lookup X (snd (secret_delete X E i k w)) = (secret_lookup X w)((i, k) := None)"
  using assms by (auto simp: secret_delete_def keychain_def secret_lookup_def fun_eq_iff)

lemma secret_purge_lookup:
  assumes "ulid_round_trip X" "\<And>h. env_keychain E h = None"
  shows "secret_lookup X (snd (secret_purge X E i w)) (j, k) = (if j = i then None else secret_lookup X w (j, k))"
  using assms by (cases k) (auto simp: secret_purge_def io_bind_def secret_delete_lookup)

section \<open>Properties\<close>

text \<open>
  The secret store is a table from account and kind to secret on a healthy keychain: what is
  set is what is read, kinds and accounts never interfere, and \<open>purge\<close> removes every kind of
  secret of the account and nothing of any other account.
\<close>

lemma secret_store_is_a_table:
  assumes "ulid_round_trip X" and "\<And>h. env_keychain E h = None"
  shows "fst (secret_get X E i k w) = Ok (secret_lookup X w (i, k)) \<and>
    secret_lookup X (snd (secret_set X E i k v w)) = (secret_lookup X w)((i, k) \<mapsto> v) \<and>
    secret_lookup X (snd (secret_delete X E i k w)) = (secret_lookup X w)((i, k) := None) \<and>
    (\<forall>j l. secret_lookup X (snd (secret_purge X E i w)) (j, l) = (if j = i then None else secret_lookup X w (j, l)))"
  using assms by (simp add: secret_get_result secret_set_lookup secret_delete_lookup secret_purge_lookup)

definition quiet_env :: env where
  "quiet_env = \<lparr>env_http = (\<lambda>h rq. Inl ''connection refused''), env_now = (\<lambda>h. int (length h)),
     env_keychain = (\<lambda>h. None)\<rparr>"

definition empty_net :: net where
  "empty_net = \<lparr>net_history = [], net_tokens = (\<lambda>_. \<lparr>tk_access_token = [], tk_refresh_token = None,
     tk_expires_at = 0, tk_scope = None\<rparr>), net_keychain = Map.empty\<rparr>"

lemma secret_store_is_a_table_example:
  "secret_lookup (sample_crates []) (snd (secret_set (sample_crates []) quiet_env (AccountId 1) RefreshToken ''rt'' empty_net))
     (AccountId 1, RefreshToken) = Some ''rt'' \<and>
   secret_lookup (sample_crates []) (snd (secret_set (sample_crates []) quiet_env (AccountId 1) RefreshToken ''rt'' empty_net))
     (AccountId 1, ImapPassword) = None"
proof -
  have q: "env_keychain quiet_env h = None" for h by (simp add: quiet_env_def)
  have "secret_lookup X empty_net p = None" for X p
    by (cases p) (simp add: secret_lookup_def empty_net_def)
  then show ?thesis
    using secret_store_is_a_table [OF sample_ulid_round_trip [of "[]"] q, where i = "AccountId 1" and k = RefreshToken
        and v = "''rt''" and w = empty_net] by simp
qed

end
