(* ===== verification/Loopback.thy ===== *)
theory Loopback
  imports Rust_Str
begin

text \<open>
  The listener for the OAuth redirect (\<^verbatim>\<open>oauth/loopback.rs\<close>). A connection is what the socket
  shows: one read that yields bytes or an error after some time, or that never completes. The
  waiting loop runs over the connections in the order of their arrival; a wait that never ends is
  the value \<^const>\<open>None\<close>.
\<close>

section \<open>One request\<close>

text \<open>\<open>lines().next()\<close>: up to the first newline, without a carriage return before it.\<close>

definition strip_cr :: "string \<Rightarrow> string" where
  "strip_cr l = (if l \<noteq> [] \<and> last l = CHR 0x0D then butlast l else l)"

definition first_line :: "string \<Rightarrow> string" where
  "first_line s = (let l = takeWhile (\<lambda>c. c \<noteq> CHR 0x0A) s in
     if CHR 0x0A \<in> set s then strip_cr l else l)"

fun take_token :: "string \<Rightarrow> string" where
  "take_token [] = []"
| "take_token (c # cs) = (if leading_white (c # cs) \<noteq> None then [] else c # take_token cs)"

text \<open>The second piece of \<open>split_whitespace\<close>, empty when there is none.\<close>

definition second_token :: "string \<Rightarrow> string" where
  "second_token s = (let t = trim_start s in take_token (trim_start (drop (length (take_token t)) t)))"

record query =
  qs_code :: "string option"
  qs_state :: "string option"
  qs_error :: "string option"

definition query_pair :: "crates \<Rightarrow> string \<Rightarrow> query \<Rightarrow> query" where
  "query_pair X pair q =
     (let (k, v) = (case split_once CHR ''='' pair of Some kv \<Rightarrow> kv | None \<Rightarrow> (pair, []));
          v = pct_decode_lossy X v
      in if k = ''code'' then q\<lparr>qs_code := Some v\<rparr>
         else if k = ''state'' then q\<lparr>qs_state := Some v\<rparr>
         else if k = ''error'' then q\<lparr>qs_error := Some v\<rparr>
         else q)"

definition parse_query :: "crates \<Rightarrow> string \<Rightarrow> query" where
  "parse_query X qs = fold (query_pair X) (split_char CHR ''&'' qs)
     \<lparr>qs_code = None, qs_state = None, qs_error = None\<rparr>"

definition request_query :: "crates \<Rightarrow> string \<Rightarrow> query" where
  "request_query X bytes =
     (let req = (if valid_utf8 bytes then bytes else []);
          target = second_token (first_line req);
          qs = (case split_once CHR ''?'' target of Some (_, q) \<Rightarrow> q | None \<Rightarrow> [])
      in parse_query X qs)"

definition crlf :: string where
  "crlf = [CHR 0x0D, CHR 0x0A]"

definition http_reply :: "string \<Rightarrow> string \<Rightarrow> string" where
  "http_reply status body = ''HTTP/1.1 '' @ status @ crlf @ ''Content-Type: text/plain; charset=utf-8'' @ crlf @
     ''Content-Length: '' @ show_nat (length body) @ crlf @ ''Connection: close'' @ crlf @ crlf @ body"

definition callback_reply :: "query \<Rightarrow> string \<Rightarrow> string" where
  "callback_reply q expected =
     (case qs_error q of
        Some e \<Rightarrow> http_reply ''400 Bad Request'' (''OAuth error: '' @ e @ [CHR 0x0A] @ ''You can close this window.'')
      | None \<Rightarrow>
          if qs_state q \<noteq> Some expected then
            http_reply ''400 Bad Request'' ''OAuth state mismatch. You can close this window.''
          else if qs_code q \<noteq> None then
            http_reply ''200 OK'' ''Sign-in complete. You can close this window.''
          else http_reply ''400 Bad Request'' ''Missing code parameter. You can close this window.'')"

text \<open>
  The result of one request and the bytes of the reply. Errors of writing the reply are ignored.
\<close>

definition handle_one :: "crates \<Rightarrow> string \<Rightarrow> string \<Rightarrow> string option res \<times> string" where
  "handle_one X expected bytes =
     (let q = request_query X bytes in
      (case qs_error q of
         Some e \<Rightarrow> Err (OAuth (''provider returned error: '' @ e))
       | None \<Rightarrow> if qs_state q \<noteq> Some expected then Ok None else Ok (qs_code q),
       callback_reply q expected))"

section \<open>Waiting for the callback\<close>

definition redirect_uri :: "nat \<Rightarrow> string" where
  "redirect_uri port = ''http://127.0.0.1:'' @ show_nat port @ ''/callback''"

text \<open>
  What \<open>accept\<close> yields: a failure, or a connection whose first read never completes, fails, or
  gives bytes; \<open>finished\<close> is the time when the handling of the connection is over.
\<close>

datatype connection =
    Accept_Failed string
  | Silent
  | Read_Failed string
  | Received string nat

definition timed_out :: "'a res" where
  "timed_out = Err (OAuth ''timed out waiting for browser callback'')"

fun await_callback :: "crates \<Rightarrow> string \<Rightarrow> nat \<Rightarrow> nat \<Rightarrow> (nat \<times> connection) list \<Rightarrow> string res option" where
  "await_callback X expected deadline now [] = Some timed_out"
| "await_callback X expected deadline now ((arrival, c) # conns) =
     (if deadline \<le> now \<or> deadline \<le> arrival then Some timed_out
      else (case c of
          Accept_Failed e \<Rightarrow> Some (Err (OAuth (''accept failed: '' @ e)))
        | Silent \<Rightarrow> None
        | Read_Failed e \<Rightarrow> Some (Err (Io e))
        | Received bytes finished \<Rightarrow> (case fst (handle_one X expected bytes) of
              Ok (Some code) \<Rightarrow> Some (Ok code)
            | Ok None \<Rightarrow> await_callback X expected deadline (max finished (max now arrival)) conns
            | Err e \<Rightarrow> Some (Err e)
            | Panic m \<Rightarrow> Some (Panic m))))"

section \<open>Facts\<close>

lemma handle_one_Ok_iff:
  "fst (handle_one X expected bytes) = Ok (Some code) \<longleftrightarrow>
     qs_error (request_query X bytes) = None \<and> qs_state (request_query X bytes) = Some expected \<and>
     qs_code (request_query X bytes) = Some code"
  by (auto simp: handle_one_def Let_def split: option.split)

lemma handle_one_None_iff:
  "fst (handle_one X expected bytes) = Ok None \<longleftrightarrow>
     qs_error (request_query X bytes) = None \<and>
     (qs_state (request_query X bytes) \<noteq> Some expected \<or> qs_code (request_query X bytes) = None)"
  by (auto simp: handle_one_def Let_def split: option.split)

lemma await_callback_source:
  assumes "await_callback X expected deadline now conns = Some (Ok code)"
  shows "\<exists>bytes finished arrival. (arrival, Received bytes finished) \<in> set conns \<and> arrival < deadline \<and>
    fst (handle_one X expected bytes) = Ok (Some code)"
  using assms
proof (induction conns arbitrary: now)
  case (Cons p conns)
  obtain arrival c where p: "p = (arrival, c)" by (cases p)
  with Cons.prems have t: "arrival < deadline" "now < deadline"
    by (auto simp: timed_out_def split: if_splits)
  with Cons.prems p obtain bytes fin where c: "c = Received bytes fin"
    by (cases c) auto
  show ?case
  proof (cases "fst (handle_one X expected bytes) = Ok None")
    case True
    with Cons.prems p c t have "await_callback X expected deadline (max fin (max now arrival)) conns = Some (Ok code)"
      by simp
    from Cons.IH [OF this] show ?thesis by (metis list.set_intros(2))
  next
    case False
    with Cons.prems p c t have "fst (handle_one X expected bytes) = Ok (Some code)"
      by (auto split: res.splits option.splits)
    with p c t show ?thesis by (metis list.set_intros(1))
  qed
qed (simp add: timed_out_def)

lemma await_callback_skip:
  assumes "\<forall>(a, c) \<in> set probes. \<exists>bytes f. c = Received bytes f \<and> a < deadline \<and> f < deadline \<and>
      fst (handle_one X expected bytes) = Ok None"
    and "now < deadline" and "arrival < deadline" and "fst (handle_one X expected bytes) = Ok (Some code)"
  shows "await_callback X expected deadline now (probes @ (arrival, Received bytes fin) # rest) = Some (Ok code)"
  using assms
proof (induction probes arbitrary: now)
  case (Cons p probes)
  then obtain a b f where "p = (a, Received b f)" "a < deadline" "f < deadline"
    "fst (handle_one X expected b) = Ok None" by auto
  with Cons show ?case by simp
qed simp

section \<open>Properties\<close>

text \<open>
  C27: Only the redirect of this very authorization is accepted: a code is returned only from a
  request, arrived before the deadline, that carries the expected \<open>state\<close>, that code and no
  \<open>error\<close>; the page then shown to the user says that sign-in is complete.
\<close>

theorem callback_needs_matching_state:
  assumes "await_callback X expected deadline now conns = Some (Ok code)"
  shows "\<exists>bytes finished arrival. (arrival, Received bytes finished) \<in> set conns \<and> arrival < deadline \<and>
    qs_state (request_query X bytes) = Some expected \<and> qs_code (request_query X bytes) = Some code \<and>
    qs_error (request_query X bytes) = None \<and>
    snd (handle_one X expected bytes) = http_reply ''200 OK'' ''Sign-in complete. You can close this window.''"
  using await_callback_source [OF assms] unfolding handle_one_Ok_iff
  by (force simp: handle_one_def Let_def callback_reply_def)

definition demo_callback :: string where
  "demo_callback = ''GET /callback?code=abc123&state=xyz HTTP/1.1'' @ crlf @ ''Host: localhost'' @ crlf @ crlf"

definition demo_probe :: string where
  "demo_probe = ''GET /callback?code=ignored&state=BAD HTTP/1.1'' @ crlf @ crlf"

lemma demo_callback_query:
  "request_query (sample_crates []) demo_callback =
     \<lparr>qs_code = Some ''abc123'', qs_state = Some ''xyz'', qs_error = None\<rparr>"
  by code_simp

lemma demo_probe_query:
  "request_query (sample_crates []) demo_probe =
     \<lparr>qs_code = Some ''ignored'', qs_state = Some ''BAD'', qs_error = None\<rparr>"
  by code_simp

lemma demo_run:
  "await_callback (sample_crates []) ''xyz'' 60 0 [(1, Received demo_probe 2), (3, Received demo_callback 4)] = Some (Ok ''abc123'')"
  by (simp add: handle_one_def demo_callback_query demo_probe_query Let_def)

theorem callback_needs_matching_state_witness:
  "\<exists>bytes finished arrival. (arrival, Received bytes finished) \<in>
     set [(1 :: nat, Received demo_probe 2), (3, Received demo_callback 4)] \<and>
   qs_state (request_query (sample_crates []) bytes) = Some ''xyz''"
  using callback_needs_matching_state [OF demo_run] by blast

text \<open>
  C28: Spurious connections do not abort the flow: after any number of requests with a wrong or
  missing state, or without a code, all handled before the deadline, the real redirect is still
  accepted.
\<close>

theorem spurious_requests_are_skipped:
  assumes "\<forall>(a, c) \<in> set probes. \<exists>bytes f. c = Received bytes f \<and> a < deadline \<and> f < deadline \<and>
      qs_error (request_query X bytes) = None \<and>
      (qs_state (request_query X bytes) \<noteq> Some expected \<or> qs_code (request_query X bytes) = None)"
    and "now < deadline" and "arrival < deadline"
    and "request_query X bytes = \<lparr>qs_code = Some code, qs_state = Some expected, qs_error = None\<rparr>"
  shows "await_callback X expected deadline now (probes @ (arrival, Received bytes fin) # rest) = Some (Ok code)"
proof (rule await_callback_skip [OF _ assms(2,3)])
  show "\<forall>(a, c) \<in> set probes. \<exists>bytes f. c = Received bytes f \<and> a < deadline \<and> f < deadline \<and>
      fst (handle_one X expected bytes) = Ok None"
    using assms(1) by (simp add: handle_one_None_iff)
  show "fst (handle_one X expected bytes) = Ok (Some code)"
    using assms(4) by (simp add: handle_one_Ok_iff)
qed

theorem spurious_requests_are_skipped_witness:
  "await_callback (sample_crates []) ''xyz'' 60 0
     ([(1, Received demo_probe 2)] @ (3, Received demo_callback 4) # []) = Some (Ok ''abc123'')"
  by (rule spurious_requests_are_skipped) (simp_all add: demo_probe_query demo_callback_query)

text \<open>
  A connection that is opened and stays silent stops the flow for good: only \<open>accept\<close> is under
  the deadline, the read is not, so the wait never returns, not even with a timeout, and the real
  redirect behind it is never looked at.
\<close>

lemma silent_connection_hangs:
  assumes "now < deadline" and "arrival < deadline"
  shows "await_callback X expected deadline now ((arrival, Silent) # conns) = None"
  using assms by simp



end
