(* ===== verification/Oauth.thy ===== *)
theory Oauth
  imports Net Loopback
begin

text \<open>
  OAuth with PKCE (\<^verbatim>\<open>oauth/mod.rs\<close>, \<^verbatim>\<open>oauth/google.rs\<close>, \<^verbatim>\<open>oauth/microsoft.rs\<close>): the provider
  configurations, the authorization URL, the exchange of a code and the refresh of tokens. Random
  values (the PKCE verifier and the state) and the port of the listener are arguments.
\<close>

section \<open>Configuration\<close>

record ProviderConfig =
  cfg_auth_url :: string
  cfg_token_url :: string
  cfg_client_id :: string
  cfg_default_scopes :: "string list"

definition google_config :: "string \<Rightarrow> ProviderConfig" where
  "google_config client_id = \<lparr>
     cfg_auth_url = ''https://accounts.google.com/o/oauth2/v2/auth'',
     cfg_token_url = ''https://oauth2.googleapis.com/token'',
     cfg_client_id = client_id,
     cfg_default_scopes = [
       ''https://www.googleapis.com/auth/gmail.modify'',
       ''https://www.googleapis.com/auth/gmail.compose'',
       ''https://www.googleapis.com/auth/gmail.send'',
       ''openid'', ''email'', ''profile'']\<rparr>"

definition microsoft_config :: "string \<Rightarrow> ProviderConfig" where
  "microsoft_config client_id = \<lparr>
     cfg_auth_url = ''https://login.microsoftonline.com/common/oauth2/v2.0/authorize'',
     cfg_token_url = ''https://login.microsoftonline.com/common/oauth2/v2.0/token'',
     cfg_client_id = client_id,
     cfg_default_scopes = [
       ''offline_access'',
       ''https://graph.microsoft.com/Mail.ReadWrite'',
       ''https://graph.microsoft.com/Mail.Send'',
       ''https://graph.microsoft.com/User.Read'']\<rparr>"

section \<open>PKCE\<close>

record PkcePair =
  pkce_verifier :: string
  pkce_challenge :: string

definition compute_challenge :: "crates \<Rightarrow> string \<Rightarrow> string" where
  "compute_challenge X verifier = b64url_encode X (sha256 X verifier)"

definition pkce_generate :: "crates \<Rightarrow> string \<Rightarrow> PkcePair" where
  "pkce_generate X verifier = \<lparr>pkce_verifier = verifier, pkce_challenge = compute_challenge X verifier\<rparr>"

section \<open>Token endpoint\<close>

record token_resp =
  tr_access_token :: string
  tr_refresh_token :: "string option"
  tr_expires_in :: int
  tr_scope :: "string option"

definition de_token_resp :: "json \<Rightarrow> token_resp option" where
  "de_token_resp value =
     (let v = struct_view 3 [''access_token'', ''refresh_token'', ''expires_in'', ''scope''] value in
     Option.bind (de_required as_str ''access_token'' v) (\<lambda>at.
     Option.bind (de_option as_str ''refresh_token'' v) (\<lambda>rt.
     Option.bind (de_required as_i64 ''expires_in'' v) (\<lambda>ex.
     Option.bind (de_option as_str ''scope'' v) (\<lambda>sc.
     Some \<lparr>tr_access_token = at, tr_refresh_token = rt, tr_expires_in = ex, tr_scope = sc\<rparr>)))))"

text \<open>
  \<open>Utc::now() + Duration::seconds(expires_in - 30)\<close>: the subtraction overflows below the range
  of \<open>i64\<close>, and both the duration and the sum panic when out of range.
\<close>

definition expiry :: "crates \<Rightarrow> datetime \<Rightarrow> int \<Rightarrow> datetime res" where
  "expiry X now expires_in =
     (if expires_in - 30 < - (2 ^ 63) then Panic ''attempt to subtract with overflow''
      else (case duration_seconds X (expires_in - 30) of
          None \<Rightarrow> Panic ''Duration::seconds out of bounds''
        | Some d \<Rightarrow> (case dt_checked_add X now d of
            None \<Rightarrow> Panic ''DateTime + TimeDelta overflowed''
          | Some t \<Rightarrow> Ok t)))"

definition token_request :: "crates \<Rightarrow> env \<Rightarrow> ProviderConfig \<Rightarrow> (string \<times> string) list \<Rightarrow> (net, OAuthTokens) io" where
  "token_request X E cfg params =
     io_bind (http_send E \<lparr>rq_method = POST, rq_url = cfg_token_url cfg, rq_bearer = None,
       rq_body = FormBody params\<rparr>) (\<lambda>r.
     io_bind (io_res (error_for_status r)) (\<lambda>r.
     io_bind (io_res (resp_json X ''Resp'' de_token_resp r)) (\<lambda>resp.
     io_bind (clock_now E) (\<lambda>now.
     io_bind (io_res (expiry X now (tr_expires_in resp))) (\<lambda>expires_at.
     io_ret \<lparr>tk_access_token = tr_access_token resp, tk_refresh_token = tr_refresh_token resp,
             tk_expires_at = expires_at, tk_scope = tr_scope resp\<rparr>)))))"

definition refresh :: "crates \<Rightarrow> env \<Rightarrow> ProviderConfig \<Rightarrow> string \<Rightarrow> (net, OAuthTokens) io" where
  "refresh X E cfg refresh_token = token_request X E cfg
     [(''client_id'', cfg_client_id cfg), (''grant_type'', ''refresh_token''),
      (''refresh_token'', refresh_token)]"

definition exchange_code :: "crates \<Rightarrow> env \<Rightarrow> ProviderConfig \<Rightarrow> string \<Rightarrow> string \<Rightarrow> string \<Rightarrow> (net, OAuthTokens) io" where
  "exchange_code X E cfg verifier code redirect = token_request X E cfg
     [(''client_id'', cfg_client_id cfg), (''grant_type'', ''authorization_code''), (''code'', code),
      (''redirect_uri'', redirect), (''code_verifier'', verifier)]"

section \<open>Authorization\<close>

record AuthChallenge =
  ch_auth_url :: string
  ch_redirect_uri :: string
  ch_state :: string
  ch_verifier :: string

definition begin_authorization ::
  "crates \<Rightarrow> ProviderConfig \<Rightarrow> string list option \<Rightarrow> string \<Rightarrow> string \<Rightarrow> string + nat \<Rightarrow> AuthChallenge res" where
  "begin_authorization X cfg extra_scopes verifier state bound =
     (let pair = pkce_generate X verifier in
      res_bind (map_err Io bound) (\<lambda>port.
      let redirect = redirect_uri port;
          scopes = unwrap_or (cfg_default_scopes cfg) extra_scopes;
          url = cfg_auth_url cfg @ ''?response_type=code&client_id='' @ pct_encode X (cfg_client_id cfg) @
            ''&redirect_uri='' @ pct_encode X redirect @
            ''&scope='' @ pct_encode X (join '' '' scopes) @
            ''&state='' @ pct_encode X state @
            ''&code_challenge='' @ pct_encode X (pkce_challenge pair) @
            ''&code_challenge_method=S256&access_type=offline&prompt=consent''
      in Ok \<lparr>ch_auth_url = url, ch_redirect_uri = redirect, ch_state = state,
            ch_verifier = pkce_verifier pair\<rparr>))"

text \<open>The wait for the callback may never return; then so does the completion.\<close>

definition complete_authorization ::
  "crates \<Rightarrow> env \<Rightarrow> ProviderConfig \<Rightarrow> AuthChallenge \<Rightarrow> nat \<Rightarrow> (nat \<times> connection) list \<Rightarrow> net \<Rightarrow> (OAuthTokens res \<times> net) option" where
  "complete_authorization X E cfg ch timeout conns w =
     (case await_callback X (ch_state ch) timeout 0 conns of
        None \<Rightarrow> None
      | Some (Ok code) \<Rightarrow> Some (exchange_code X E cfg (ch_verifier ch) code (ch_redirect_uri ch) w)
      | Some (Err e) \<Rightarrow> Some (Err e, w)
      | Some (Panic m) \<Rightarrow> Some (Panic m, w))"

section \<open>Facts\<close>

text \<open>
  \<open>calm X E\<close>: no answer of a server makes the computation of an expiry panic, that is, token
  endpoints announce lifetimes within the range of the time library.
\<close>

definition calm :: "crates \<Rightarrow> env \<Rightarrow> bool" where
  "calm X E \<longleftrightarrow> (\<forall>h rq r v resp now. env_http E h rq = Inr r \<longrightarrow> json_from_str X (rs_body r) = Inr v \<longrightarrow>
     de_token_resp v = Some resp \<longrightarrow> \<not> is_panic (expiry X now (tr_expires_in resp)))"

lemma token_request_extends: "keeps (extends w0) (token_request X E cfg params)"
  using http_send_safe [of True] clock_now_safe [of True] unfolding token_request_def safe_def
  by (intro keeps_bind keeps_res keeps_ret) blast+

lemma token_request_no_panic:
  assumes "calm X E"
  shows "\<not> is_panic (fst (token_request X E cfg params w))"
proof (cases "env_http E (net_history w) \<lparr>rq_method = POST, rq_url = cfg_token_url cfg, rq_bearer = None,
    rq_body = FormBody params\<rparr>")
  case (Inr r)
  have "\<not> is_panic (expiry X now (tr_expires_in resp))"
    if "resp_json X ''Resp'' de_token_resp r = Ok resp" for resp now
    using assms Inr that unfolding calm_def
    by (fastforce simp: resp_json_def res_bind_Ok_iff map_err_Ok_iff)
  moreover have "error_for_status r = Ok r'\<Longrightarrow> r' = r" for r'
    by (auto simp: error_for_status_def split: if_splits)
  ultimately show ?thesis
    using Inr by (auto simp: token_request_def http_send_def clock_now_def io_bind_def split: res.splits)
      (metis error_for_status_no_panic is_panic.simps(3) resp_json_no_panic)+
qed (simp add: token_request_def http_send_def io_bind_def)

lemma token_request_safe: "safe (calm X E) (extends w0) (token_request X E cfg params)"
  using token_request_extends token_request_no_panic by (auto simp: safe_def panic_free_def)

lemma refresh_safe: "safe (calm X E) (extends w0) (refresh X E cfg rt)"
  unfolding refresh_def by (rule token_request_safe)

text \<open>What a token endpoint can do to the daemon: the range in which an expiry is computed.\<close>

definition sane_chrono :: "crates \<Rightarrow> bool" where
  "sane_chrono X \<longleftrightarrow> (\<forall>s. duration_seconds X s = (if \<bar>s\<bar> \<le> 9223372036854775 then Some (s * 1000000000) else None))"

lemma expiry_panics:
  assumes "sane_chrono X" and "expires_in > 9223372036854805"
  shows "is_panic (expiry X now expires_in)"
  using assms by (simp add: expiry_def sane_chrono_def)

lemma token_request_ok:
  assumes "env_http E (net_history w) \<lparr>rq_method = POST, rq_url = cfg_token_url cfg, rq_bearer = None,
      rq_body = FormBody params\<rparr> = Inr r"
    and "\<not> status_error (rs_status r)" and "json_from_str X (rs_body r) = Inr v"
    and "de_token_resp v = Some resp"
    and "env_now E (net_history w @ [Http_Request \<lparr>rq_method = POST, rq_url = cfg_token_url cfg,
      rq_bearer = None, rq_body = FormBody params\<rparr>]) = now"
  shows "fst (token_request X E cfg params w) = res_bind (expiry X now (tr_expires_in resp)) (\<lambda>t.
    Ok \<lparr>tk_access_token = tr_access_token resp, tk_refresh_token = tr_refresh_token resp,
        tk_expires_at = t, tk_scope = tr_scope resp\<rparr>)"
  using assms
  by (cases "expiry X now (tr_expires_in resp)")
    (simp_all add: token_request_def http_send_def clock_now_def io_bind_def error_for_status_def resp_json_def)

end
