(* ===== verification/Auth_Client.thy ===== *)
theory Auth_Client
  imports Oauth
begin

text \<open>
  The authenticated HTTP client of an account (\<^verbatim>\<open>providers/gmail/client.rs\<close>): token refresh before
  expiry and after a 401, one retry, and the callback for rotated refresh tokens. The token cell
  is shared by the clones of a client; \<open>ac_cell\<close> is its index in \<^const>\<open>net_tokens\<close>. The definitions
  describe one call that runs without another call on the same client in between.
\<close>

record AuthClient =
  ac_cfg :: ProviderConfig
  ac_cell :: nat
  ac_on_rotation :: "(string \<Rightarrow> net \<Rightarrow> net) option"

definition tokens_of :: "AuthClient \<Rightarrow> net \<Rightarrow> OAuthTokens" where
  "tokens_of c w = net_tokens w (ac_cell c)"

definition set_tokens :: "AuthClient \<Rightarrow> OAuthTokens \<Rightarrow> net \<Rightarrow> net" where
  "set_tokens c t w = w\<lparr>net_tokens := (net_tokens w)(ac_cell c := t)\<rparr>"

definition access_token :: "AuthClient \<Rightarrow> (net, string) io" where
  "access_token c w = (Ok (tk_access_token (tokens_of c w)), w)"

definition refresh_token_of :: "AuthClient \<Rightarrow> (net, string) io" where
  "refresh_token_of c w =
     (ok_or (OAuth ''no refresh token available'') (tk_refresh_token (tokens_of c w)), w)"

text \<open>Storing the new tokens keeps the old refresh token when none came, and the old scope.\<close>

definition store_refreshed :: "AuthClient \<Rightarrow> OAuthTokens \<Rightarrow> net \<Rightarrow> net" where
  "store_refreshed c new w = set_tokens c ((tokens_of c w)\<lparr>
     tk_access_token := tk_access_token new, tk_expires_at := tk_expires_at new,
     tk_refresh_token := (case tk_refresh_token new of
         Some rt \<Rightarrow> Some rt | None \<Rightarrow> tk_refresh_token (tokens_of c w))\<rparr>) w"

definition notify_rotation :: "AuthClient \<Rightarrow> string \<Rightarrow> OAuthTokens \<Rightarrow> net \<Rightarrow> net" where
  "notify_rotation c old new w = (case tk_refresh_token new of
      Some rt \<Rightarrow> if rt \<noteq> old then (case ac_on_rotation c of Some cb \<Rightarrow> cb rt w | None \<Rightarrow> w) else w
    | None \<Rightarrow> w)"

definition ensure_fresh :: "crates \<Rightarrow> env \<Rightarrow> AuthClient \<Rightarrow> (net, unit) io" where
  "ensure_fresh X E c =
     io_bind (clock_now E) (\<lambda>now w.
       if tk_expires_at (tokens_of c w) \<le> now then
         io_bind (refresh_token_of c) (\<lambda>old.
         io_bind (refresh X E (ac_cfg c) old) (\<lambda>new w.
           (Ok (), notify_rotation c old new (store_refreshed c new w)))) w
       else (Ok (), w))"

definition expire_now :: "env \<Rightarrow> AuthClient \<Rightarrow> (net, unit) io" where
  "expire_now E c = io_bind (clock_now E) (\<lambda>now w.
     (Ok (), set_tokens c ((tokens_of c w)\<lparr>tk_expires_at := now - 1000000000\<rparr>) w))"

definition send_once :: "env \<Rightarrow> AuthClient \<Rightarrow> http_request \<Rightarrow> (net, http_response) io" where
  "send_once E c rq = io_bind (access_token c) (\<lambda>tok. http_send E (rq\<lparr>rq_bearer := Some tok\<rparr>))"

text \<open>Every request the code builds has a body that can be sent twice.\<close>

definition auth_send :: "crates \<Rightarrow> env \<Rightarrow> AuthClient \<Rightarrow> http_request \<Rightarrow> (net, http_response) io" where
  "auth_send X E c rq =
     io_bind (ensure_fresh X E c) (\<lambda>_.
     io_bind (send_once E c rq) (\<lambda>resp.
       if rs_status resp = 401 then
         io_bind (expire_now E c) (\<lambda>_.
         io_bind (ensure_fresh X E c) (\<lambda>_.
         send_once E c rq))
       else io_ret resp))"

definition client_get :: "crates \<Rightarrow> env \<Rightarrow> AuthClient \<Rightarrow> string \<Rightarrow> (net, http_response) io" where
  "client_get X E c url = auth_send X E c \<lparr>rq_method = GET, rq_url = url, rq_bearer = None, rq_body = NoBody\<rparr>"

definition post_json :: "crates \<Rightarrow> env \<Rightarrow> AuthClient \<Rightarrow> string \<Rightarrow> json \<Rightarrow> (net, http_response) io" where
  "post_json X E c url b = auth_send X E c \<lparr>rq_method = POST, rq_url = url, rq_bearer = None, rq_body = JsonBody b\<rparr>"

definition put_json :: "crates \<Rightarrow> env \<Rightarrow> AuthClient \<Rightarrow> string \<Rightarrow> json \<Rightarrow> (net, http_response) io" where
  "put_json X E c url b = auth_send X E c \<lparr>rq_method = PUT, rq_url = url, rq_bearer = None, rq_body = JsonBody b\<rparr>"

definition patch_json :: "crates \<Rightarrow> env \<Rightarrow> AuthClient \<Rightarrow> string \<Rightarrow> json \<Rightarrow> (net, http_response) io" where
  "patch_json X E c url b = auth_send X E c \<lparr>rq_method = PATCH, rq_url = url, rq_bearer = None, rq_body = JsonBody b\<rparr>"

definition client_delete :: "crates \<Rightarrow> env \<Rightarrow> AuthClient \<Rightarrow> string \<Rightarrow> (net, http_response) io" where
  "client_delete X E c url = auth_send X E c \<lparr>rq_method = DELETE, rq_url = url, rq_bearer = None, rq_body = NoBody\<rparr>"

section \<open>Facts\<close>

lemma tokens_of_simps [simp]:
  "tokens_of c (log_event e w) = tokens_of c w"
  "tokens_of c (set_tokens c t w) = t"
  "net_history (set_tokens c t w) = net_history w"
  "net_keychain (set_tokens c t w) = net_keychain w"
  by (simp_all add: tokens_of_def set_tokens_def)

text \<open>
  The callback the daemon registers: the rotated token goes to the keychain, a failure is only
  logged.
\<close>

definition rotation_callback :: "crates \<Rightarrow> env \<Rightarrow> AccountId \<Rightarrow> string \<Rightarrow> net \<Rightarrow> net" where
  "rotation_callback X E i rt w = snd (secret_set X E i RefreshToken rt w)"

definition daemon_client :: "crates \<Rightarrow> env \<Rightarrow> ProviderConfig \<Rightarrow> nat \<Rightarrow> AccountId \<Rightarrow> AuthClient" where
  "daemon_client X E cfg cell i =
     \<lparr>ac_cfg = cfg, ac_cell = cell, ac_on_rotation = Some (rotation_callback X E i)\<rparr>"

lemma daemon_client_simps [simp]:
  "ac_cfg (daemon_client X E cfg cell i) = cfg" "ac_cell (daemon_client X E cfg cell i) = cell"
  "ac_on_rotation (daemon_client X E cfg cell i) = Some (rotation_callback X E i)"
  by (simp_all add: daemon_client_def)

text \<open>The contract of a rotation callback towards the client: it only appends to the history.\<close>

definition callback_extends :: "AuthClient \<Rightarrow> bool" where
  "callback_extends c \<longleftrightarrow> (\<forall>cb rt w w0. ac_on_rotation c = Some cb \<longrightarrow> extends w0 w \<longrightarrow> extends w0 (cb rt w))"

lemma daemon_callback_extends: "callback_extends (daemon_client X E cfg cell i)"
  using safeD(1) [OF secret_set_safe] by (simp add: callback_extends_def rotation_callback_def)

lemma access_token_safe: "safe b P (access_token c)"
  by (rule safeI) (simp_all add: access_token_def)

lemma refresh_token_of_safe: "safe b P (refresh_token_of c)"
  by (rule safeI) (simp_all add: refresh_token_of_def)

lemma notify_rotation_extends:
  "callback_extends c \<Longrightarrow> extends w0 w \<Longrightarrow> extends w0 (notify_rotation c old new w)"
  by (simp add: notify_rotation_def callback_extends_def split: option.split)

lemma store_refreshed_extends: "extends w0 w \<Longrightarrow> extends w0 (store_refreshed c new w)"
  by (simp add: store_refreshed_def set_tokens_def)

text \<open>Stateful branching: a safe choice between safe calls.\<close>

lemma safe_choose: "safe b P m \<Longrightarrow> safe b P n \<Longrightarrow> safe b P (\<lambda>w. if q w then m w else n w)"
  by (auto simp: safe_def keeps_def panic_free_def)

lemma safe_update: "(\<And>w. P w \<Longrightarrow> P (f w)) \<Longrightarrow> safe b P (\<lambda>w. (Ok a, f w))"
  by (rule safeI) simp_all

lemma ensure_fresh_safe:
  assumes "callback_extends c"
  shows "safe (calm X E) (extends w0) (ensure_fresh X E c)"
  unfolding ensure_fresh_def
  by (intro safe_bind clock_now_safe safe_choose refresh_token_of_safe refresh_safe safe_update)
    (auto intro: notify_rotation_extends [OF assms] store_refreshed_extends)

lemma send_once_safe: "safe b (extends w0) (send_once E c rq)"
  unfolding send_once_def by (intro safe_bind access_token_safe http_send_safe)

lemma expire_now_safe: "safe b (extends w0) (expire_now E c)"
  unfolding expire_now_def by (intro safe_bind clock_now_safe safe_update) (simp add: set_tokens_def)

lemma auth_send_safe:
  assumes "callback_extends c"
  shows "safe (calm X E) (extends w0) (auth_send X E c rq)"
  unfolding auth_send_def
  by (intro safe_bind safe_if safe_ret ensure_fresh_safe [OF assms] send_once_safe expire_now_safe)

lemma client_ops_safe:
  assumes "callback_extends c"
  shows "safe (calm X E) (extends w0) (client_get X E c url)"
    "safe (calm X E) (extends w0) (post_json X E c url body)"
    "safe (calm X E) (extends w0) (put_json X E c url body)"
    "safe (calm X E) (extends w0) (patch_json X E c url body)"
    "safe (calm X E) (extends w0) (client_delete X E c url)"
  unfolding client_get_def post_json_def put_json_def patch_json_def client_delete_def
  by (rule auth_send_safe [OF assms])+

section \<open>Requests that carry a token\<close>

fun bearer_requests :: "event list \<Rightarrow> http_request list" where
  "bearer_requests [] = []"
| "bearer_requests (Http_Request rq # es) =
     (if rq_bearer rq = None then bearer_requests es else rq # bearer_requests es)"
| "bearer_requests (_ # es) = bearer_requests es"

lemma bearer_requests_append [simp]:
  "bearer_requests (xs @ ys) = bearer_requests xs @ bearer_requests ys"
  by (induction xs rule: bearer_requests.induct) auto

definition bearers :: "http_request list \<Rightarrow> net \<Rightarrow> bool" where
  "bearers rs w \<longleftrightarrow> bearer_requests (net_history w) = rs"

lemma token_request_bearers: "keeps (bearers rs) (token_request X E cfg params)"
  unfolding token_request_def
  by (intro keeps_bind keeps_res keeps_ret)
    (simp_all add: keeps_def bearers_def http_send_def clock_now_def)

lemma rotation_callback_bearers: "bearers rs w \<Longrightarrow> bearers rs (rotation_callback X E i rt w)"
  by (auto simp: bearers_def rotation_callback_def secret_set_def keychain_def split: option.split)

lemma keeps_choose: "keeps P m \<Longrightarrow> keeps P n \<Longrightarrow> keeps P (\<lambda>w. if q w then m w else n w)"
  by (auto simp: keeps_def)

lemma keeps_update: "(\<And>w. P w \<Longrightarrow> P (f w)) \<Longrightarrow> keeps P (\<lambda>w. (Ok a, f w))"
  by (auto simp: keeps_def)

lemma ensure_fresh_bearers: "keeps (bearers rs) (ensure_fresh X E (daemon_client X E cfg cell i))"
  unfolding ensure_fresh_def refresh_def
  by (intro keeps_bind keeps_choose keeps_update token_request_bearers)
    (auto simp: keeps_def clock_now_def refresh_token_of_def notify_rotation_def store_refreshed_def bearers_def
      intro: rotation_callback_bearers [unfolded bearers_def] split: option.split)

lemma send_once_bearers:
  assumes "send_once E c rq w = (r, w')"
  shows "bearer_requests (net_history w') =
    bearer_requests (net_history w) @ [rq\<lparr>rq_bearer := Some (tk_access_token (tokens_of c w))\<rparr>]"
  using assms by (auto simp: send_once_def access_token_def http_send_def io_bind_def)

lemma ensure_fresh_bearersD:
  assumes "ensure_fresh X E (daemon_client X E cfg cell i) w = (r, w')"
  shows "bearer_requests (net_history w') = bearer_requests (net_history w)"
  using keepsD [OF ensure_fresh_bearers, of "bearer_requests (net_history w)" w X E cfg cell i] assms
  by (simp add: bearers_def)

section \<open>Persistence of rotated tokens\<close>

text \<open>The keychain holds the refresh token that the client uses.\<close>

definition persisted :: "crates \<Rightarrow> AccountId \<Rightarrow> nat \<Rightarrow> net \<Rightarrow> bool" where
  "persisted X i cell w \<longleftrightarrow>
     net_keychain w (service_name X i, key_kind_as_str RefreshToken) = tk_refresh_token (net_tokens w cell)"

lemma persisted_log [simp]: "persisted X i cell (log_event e w) = persisted X i cell w"
  by (simp add: persisted_def)

text \<open>What a refresh does to tokens and keychain: nothing.\<close>

lemma token_request_frame:
  "token_request X E cfg params w = (r, w') \<Longrightarrow> net_tokens w' = net_tokens w \<and> net_keychain w' = net_keychain w"
proof -
  assume r: "token_request X E cfg params w = (r, w')"
  have "keeps (\<lambda>v. net_tokens v = net_tokens w \<and> net_keychain v = net_keychain w) (token_request X E cfg params)"
    unfolding token_request_def
    by (intro keeps_bind keeps_res keeps_ret) (simp_all add: keeps_def http_send_def clock_now_def)
  from keepsD [OF this, of w] r show ?thesis by simp
qed

lemma ensure_fresh_persisted:
  assumes "\<And>h. env_keychain E h = None"
  shows "keeps (persisted X i cell) (ensure_fresh X E (daemon_client X E cfg cell i))"
  unfolding keeps_def
proof (intro allI impI)
  fix w assume p: "persisted X i cell w"
  let ?c = "daemon_client X E cfg cell i"
  let ?w = "log_event Clock_Read w"
  show "persisted X i cell (snd (ensure_fresh X E ?c w))"
  proof (cases "tk_expires_at (tokens_of ?c w) \<le> env_now E (net_history w)")
    case True
    show ?thesis
    proof (cases "tk_refresh_token (net_tokens w cell)")
      case None
      with True p show ?thesis
        by (simp add: ensure_fresh_def clock_now_def refresh_token_of_def io_bind_def tokens_of_def)
    next
      case (Some old)
      obtain r w2 where r: "refresh X E cfg old ?w = (r, w2)" by (cases "refresh X E cfg old ?w")
      then have f: "net_tokens w2 = net_tokens w" "net_keychain w2 = net_keychain w"
        using token_request_frame [of X E cfg _ ?w] by (auto simp: refresh_def)
      from True Some r p show ?thesis
        by (cases r) (auto simp: ensure_fresh_def clock_now_def refresh_token_of_def io_bind_def tokens_of_def
            notify_rotation_def store_refreshed_def set_tokens_def rotation_callback_def secret_set_def
            keychain_def assms persisted_def f split: option.split)
    qed
  next
    case False
    with p show ?thesis by (simp add: ensure_fresh_def clock_now_def io_bind_def tokens_of_def)
  qed
qed

lemma keeps_if: "(q \<Longrightarrow> keeps P m) \<Longrightarrow> (\<not> q \<Longrightarrow> keeps P n) \<Longrightarrow> keeps P (if q then m else n)"
  by simp

lemma send_once_persisted: "keeps (persisted X i cell) (send_once E c rq)"
  by (simp add: keeps_def send_once_def access_token_def http_send_def io_bind_def)

lemma expire_now_persisted: "keeps (persisted X i cell) (expire_now E (daemon_client X E cfg cell i))"
  by (simp add: keeps_def expire_now_def clock_now_def io_bind_def persisted_def set_tokens_def tokens_of_def)

text \<open>The server has answered a request with 401.\<close>

definition refused :: "env \<Rightarrow> http_request \<Rightarrow> bool" where
  "refused E rq \<longleftrightarrow> (\<exists>h resp. env_http E h rq = Inr resp \<and> rs_status resp = 401)"

lemma send_once_refused:
  assumes "send_once E c rq w = (Ok resp, w')" "rs_status resp = 401"
  shows "refused E (rq\<lparr>rq_bearer := Some (tk_access_token (tokens_of c w))\<rparr>)"
  using assms by (auto simp: send_once_def access_token_def http_send_def io_bind_def map_err_Ok_iff refused_def)

lemma auth_send_requests:
  assumes "auth_send X E (daemon_client X E cfg cell i) rq w = (r, w')"
  shows "\<exists>sent. bearer_requests (net_history w') = bearer_requests (net_history w) @ sent \<and>
    length sent \<le> 2 \<and> (\<forall>q \<in> set sent. \<exists>t. q = rq\<lparr>rq_bearer := Some t\<rparr>) \<and>
    (length sent = 2 \<longrightarrow> refused E (hd sent)) \<and>
    (\<forall>resp. r = Ok resp \<longrightarrow> sent \<noteq> [] \<and> (rs_status resp = 401 \<longrightarrow> length sent = 2))"
proof -
  let ?c = "daemon_client X E cfg cell i"
  obtain r1 w1 where e1: "ensure_fresh X E ?c w = (r1, w1)" by (cases "ensure_fresh X E ?c w")
  obtain r2 w2 where s1: "send_once E ?c rq w1 = (r2, w2)" by (cases "send_once E ?c rq w1")
  obtain r3 w3 where x: "expire_now E ?c w2 = (r3, w3)" by (cases "expire_now E ?c w2")
  then have x': "r3 = Ok ()" "bearer_requests (net_history w3) = bearer_requests (net_history w2)"
    by (auto simp: expire_now_def clock_now_def io_bind_def)
  obtain r4 w4 where e2: "ensure_fresh X E ?c w3 = (r4, w4)" by (cases "ensure_fresh X E ?c w3")
  obtain r5 w5 where s2: "send_once E ?c rq w4 = (r5, w5)" by (cases "send_once E ?c rq w4")
  note b = ensure_fresh_bearersD [OF e1] send_once_bearers [OF s1] x'(2) ensure_fresh_bearersD [OF e2]
    send_once_bearers [OF s2]
  show ?thesis
  proof (cases "\<exists>resp. r1 = Ok () \<and> r2 = Ok resp \<and> rs_status resp = 401")
    case True
    then have "refused E (rq\<lparr>rq_bearer := Some (tk_access_token (tokens_of ?c w1))\<rparr>)"
      using send_once_refused s1 by blast
    moreover have "\<exists>t. rq\<lparr>rq_bearer := Some a\<rparr> = rq\<lparr>rq_bearer := Some t\<rparr>" for a by blast
    ultimately show ?thesis
      using True assms e1 s1 x x' e2 s2 b
      by (cases r4) (auto simp: auth_send_def io_bind_def)
  next
    case False
    then show ?thesis
      using assms e1 s1 b
      by (cases r1; cases r2) (auto simp: auth_send_def io_bind_def)
  qed
qed

section \<open>Properties\<close>


definition demo_cfg :: ProviderConfig where
  "demo_cfg = google_config ''cid''"

definition demo_reply :: json where
  "demo_reply = JObject [(''access_token'', JString ''AT-NEW''), (''refresh_token'', JString ''RT-2''),
     (''expires_in'', JNumber (PosInt 3600))]"

text \<open>A server that refuses the old access token and rotates the refresh token.\<close>

definition demo_env :: env where
  "demo_env = \<lparr>env_http = (\<lambda>h rq. if rq_bearer rq = None then Inr \<lparr>rs_status = 200, rs_body = ''T''\<rparr>
       else if rq_bearer rq = Some ''AT-NEW'' then Inr \<lparr>rs_status = 200, rs_body = ''ok''\<rparr>
       else Inr \<lparr>rs_status = 401, rs_body = []\<rparr>),
     env_now = (\<lambda>h. int (length h)), env_keychain = (\<lambda>h. None)\<rparr>"

definition demo_net :: net where
  "demo_net = empty_net\<lparr>net_tokens := (\<lambda>_. \<lparr>tk_access_token = ''AT-OLD'', tk_refresh_token = Some ''RT-1'',
       tk_expires_at = 100, tk_scope = None\<rparr>),
     net_keychain := [(''mail-mcp.u'', ''refresh_token'') \<mapsto> ''RT-1'']\<rparr>"

definition demo_rq :: http_request where
  "demo_rq = \<lparr>rq_method = GET, rq_url = ''https://x/probe'', rq_bearer = None, rq_body = NoBody\<rparr>"

lemma demo_refresh:
  "fst (auth_send (sample_crates [(''T'', demo_reply)]) demo_env
     (daemon_client (sample_crates [(''T'', demo_reply)]) demo_env demo_cfg 0 (AccountId 1)) demo_rq demo_net) =
   Ok \<lparr>rs_status = 200, rs_body = ''ok''\<rparr>"
  by (simp add: auth_send_def ensure_fresh_def send_once_def expire_now_def clock_now_def access_token_def
      refresh_token_of_def refresh_def token_request_def http_send_def io_bind_def demo_env_def demo_net_def
      demo_rq_def demo_cfg_def google_config_def tokens_of_def set_tokens_def error_for_status_def
      status_error_def resp_json_def sample_crates_def demo_reply_def de_token_resp_def de_defs Let_def
      expiry_def notify_rotation_def store_refreshed_def rotation_callback_def secret_set_def keychain_def
      empty_net_def log_event_def)




text \<open>
  A token endpoint can crash the caller: a lifetime beyond the range of the time library makes
  the refresh panic instead of returning an error.
\<close>

lemma huge_token_lifetime_panics:
  assumes "sane_chrono X"
    and "env_http E (net_history w) \<lparr>rq_method = POST, rq_url = cfg_token_url cfg, rq_bearer = None,
      rq_body = FormBody [(''client_id'', cfg_client_id cfg), (''grant_type'', ''refresh_token''), (''refresh_token'', rt)]\<rparr> = Inr r"
    and "\<not> status_error (rs_status r)" and "json_from_str X (rs_body r) = Inr v"
    and "de_token_resp v = Some resp" and "tr_expires_in resp > 9223372036854805"
  shows "is_panic (fst (refresh X E cfg rt w))"
  using token_request_ok [OF assms(2-5) refl] expiry_panics [OF assms(1,6)]
  by (simp add: refresh_def)

definition huge_reply :: json where
  "huge_reply = JObject [(''access_token'', JString ''a''), (''expires_in'', JNumber (PosInt 9223372036854775807))]"

lemma huge_token_lifetime_panics_example:
  "is_panic (fst (refresh (sample_crates [(''T'', huge_reply)]) demo_env demo_cfg ''RT-1'' demo_net))"
proof (rule huge_token_lifetime_panics [where r = "\<lparr>rs_status = 200, rs_body = ''T''\<rparr>" and v = huge_reply
    and resp = "\<lparr>tr_access_token = ''a'', tr_refresh_token = None, tr_expires_in = 9223372036854775807, tr_scope = None\<rparr>"])
  show "sane_chrono (sample_crates [(''T'', huge_reply)])" by (simp add: sane_chrono_def sample_crates_def)
  show "de_token_resp huge_reply =
      Some \<lparr>tr_access_token = ''a'', tr_refresh_token = None, tr_expires_in = 9223372036854775807, tr_scope = None\<rparr>"
    by (simp add: huge_reply_def de_token_resp_def de_defs Let_def)
qed (simp_all add: demo_env_def status_error_def sample_crates_def)

end
