(* ===== verification/Auth_Steps.thy ===== *)
theory Auth_Steps
  imports Auth_Client
begin

text \<open>
  Several calls at once on one authenticated client (\<^verbatim>\<open>providers/gmail/client.rs\<close>). The token cell is
  behind a mutex that is held for one read or one write at a time, never across a request: the steps
  of a call are the stretches between two points where another call can run. \<^theory_text>\<open>Auth_Client\<close> describes
  a call that runs alone; here calls interleave, and the sequential \<^const>\<open>ensure_fresh\<close> is one
  of the schedules.
\<close>

section \<open>Calls and their steps\<close>

text \<open>
  Where a call is, in the order of the code; the flag says that the request is being repeated after a
  401. \<open>Asking\<close> carries the refresh token that was read, \<open>Answered\<close> and \<open>Stored\<close> also the answer of
  the token endpoint: before it is stored, and stored but not yet handed to the callback.
\<close>

datatype call =
    Start bool
  | NeedsRefresh bool
  | Asking bool string
  | Answered bool string OAuthTokens
  | Stored bool string OAuthTokens
  | Ready bool
  | Sent bool
  | Unauthorized
  | Finished
  | Failed

text \<open>\<open>au_keychain\<close> is the refresh token in the keychain; \<open>au_wire\<close> the access tokens sent, by call.\<close>

record auth_state =
  au_tokens :: OAuthTokens
  au_keychain :: "string option"
  au_call :: "nat \<Rightarrow> call"
  au_wire :: "(nat \<times> string) list"

text \<open>The labels carry what comes from outside: the clock, the answers of the servers.\<close>

datatype auth_label =
    CheckExpiry nat datetime
  | ReadRefreshToken nat
  | TokenAnswer nat OAuthTokens
  | TokenError nat
  | StoreTokens nat
  | RotationCallback nat
  | SendRequest nat
  | Respond nat nat
  | SendError nat
  | ForceExpiry nat datetime

definition goto :: "nat \<Rightarrow> call \<Rightarrow> auth_state \<Rightarrow> auth_state" where
  "goto t c s = s\<lparr>au_call := (au_call s)(t := c)\<rparr>"

definition merged :: "OAuthTokens \<Rightarrow> OAuthTokens \<Rightarrow> OAuthTokens" where
  "merged new old = old\<lparr>tk_access_token := tk_access_token new, tk_expires_at := tk_expires_at new,
     tk_refresh_token := (case tk_refresh_token new of Some rt \<Rightarrow> Some rt | None \<Rightarrow> tk_refresh_token old)\<rparr>"

definition rotated :: "string \<Rightarrow> OAuthTokens \<Rightarrow> string option \<Rightarrow> string option" where
  "rotated old new k = (case tk_refresh_token new of Some rt \<Rightarrow> if rt \<noteq> old then Some rt else k | None \<Rightarrow> k)"

inductive auth_step :: "auth_state \<Rightarrow> auth_label \<Rightarrow> auth_state \<Rightarrow> bool" where
  still_valid:
    "au_call s t = Start r \<Longrightarrow> \<not> tk_expires_at (au_tokens s) \<le> now \<Longrightarrow> auth_step s (CheckExpiry t now) (goto t (Ready r) s)"
| expired:
    "au_call s t = Start r \<Longrightarrow> tk_expires_at (au_tokens s) \<le> now \<Longrightarrow> auth_step s (CheckExpiry t now) (goto t (NeedsRefresh r) s)"
| refresh_token_read:
    "au_call s t = NeedsRefresh r \<Longrightarrow> tk_refresh_token (au_tokens s) = Some old \<Longrightarrow>
     auth_step s (ReadRefreshToken t) (goto t (Asking r old) s)"
| no_refresh_token:
    "au_call s t = NeedsRefresh r \<Longrightarrow> tk_refresh_token (au_tokens s) = None \<Longrightarrow>
     auth_step s (ReadRefreshToken t) (goto t Failed s)"
| answered:
    "au_call s t = Asking r old \<Longrightarrow> auth_step s (TokenAnswer t new) (goto t (Answered r old new) s)"
| refused:
    "au_call s t = Asking r old \<Longrightarrow> auth_step s (TokenError t) (goto t Failed s)"
| stored:
    "au_call s t = Answered r old new \<Longrightarrow>
     auth_step s (StoreTokens t) (goto t (Stored r old new) (s\<lparr>au_tokens := merged new (au_tokens s)\<rparr>))"
| notified:
    "au_call s t = Stored r old new \<Longrightarrow>
     auth_step s (RotationCallback t) (goto t (Ready r) (s\<lparr>au_keychain := rotated old new (au_keychain s)\<rparr>))"
| sent:
    "au_call s t = Ready r \<Longrightarrow>
     auth_step s (SendRequest t) (goto t (Sent r) (s\<lparr>au_wire := au_wire s @ [(t, tk_access_token (au_tokens s))]\<rparr>))"
| unauthorized:
    "au_call s t = Sent False \<Longrightarrow> auth_step s (Respond t 401) (goto t Unauthorized s)"
| finished:
    "au_call s t = Sent r \<Longrightarrow> r \<or> status \<noteq> 401 \<Longrightarrow> auth_step s (Respond t status) (goto t Finished s)"
| send_failed:
    "au_call s t = Sent r \<Longrightarrow> auth_step s (SendError t) (goto t Failed s)"
| force_expiry:
    "au_call s t = Unauthorized \<Longrightarrow>
     auth_step s (ForceExpiry t now) (goto t (Start True) (s\<lparr>au_tokens := (au_tokens s)\<lparr>tk_expires_at := now - 1000000000\<rparr>\<rparr>))"

inductive_cases auth_stepE: "auth_step s l s'"

definition auth_init :: "auth_state \<Rightarrow> bool" where
  "auth_init s \<longleftrightarrow> (\<forall>t. au_call s t = Start False) \<and> au_wire s = [] \<and> au_keychain s = tk_refresh_token (au_tokens s)"

interpretation auth: transition_system auth_init auth_step .

lemma goto_simps [simp]:
  "au_call (goto t c s) = (au_call s)(t := c)" "au_tokens (goto t c s) = au_tokens s"
  "au_keychain (goto t c s) = au_keychain s" "au_wire (goto t c s) = au_wire s"
  by (simp_all add: goto_def)

section \<open>Requests on the wire\<close>

definition requests_of :: "nat \<Rightarrow> auth_state \<Rightarrow> nat" where
  "requests_of t s = length (filter (\<lambda>(u, _). u = t) (au_wire s))"

fun requests_ok :: "call \<Rightarrow> nat \<Rightarrow> bool" where
  "requests_ok (Start r) n = (n = (if r then 1 else 0))"
| "requests_ok (NeedsRefresh r) n = (n = (if r then 1 else 0))"
| "requests_ok (Asking r old) n = (n = (if r then 1 else 0))"
| "requests_ok (Answered r old new) n = (n = (if r then 1 else 0))"
| "requests_ok (Stored r old new) n = (n = (if r then 1 else 0))"
| "requests_ok (Ready r) n = (n = (if r then 1 else 0))"
| "requests_ok (Sent r) n = (n = (if r then 2 else 1))"
| "requests_ok Unauthorized n = (n = 1)"
| "requests_ok Finished n = (n = 1 \<or> n = 2)"
| "requests_ok Failed n = (n \<le> 2)"

lemma requests_ok_step:
  "auth_step s l s' \<Longrightarrow> \<forall>t. requests_ok (au_call s t) (requests_of t s) \<Longrightarrow> requests_ok (au_call s' u) (requests_of u s')"
proof -
  assume step: "auth_step s l s'" and all: "\<forall>t. requests_ok (au_call s t) (requests_of t s)"
  have "requests_ok (au_call s u) (requests_of u s)" using all by blast
  with step show ?thesis by (cases rule: auth_step.cases) (auto simp: requests_of_def split: if_splits)
qed

lemma requests_ok_reach: "auth.reach s \<Longrightarrow> \<forall>t. requests_ok (au_call s t) (requests_of t s)"
proof (erule auth.invariant)
  show "\<forall>t. requests_ok (au_call s t) (requests_of t s)" if "auth_init s" for s
    using that by (simp add: auth_init_def requests_of_def)
qed (blast intro: requests_ok_step)

text \<open>A second request is prepared only after a 401.\<close>

fun second_try :: "call \<Rightarrow> bool" where
  "second_try (Start r) = r"
| "second_try (NeedsRefresh r) = r"
| "second_try (Asking r old) = r"
| "second_try (Answered r old new) = r"
| "second_try (Stored r old new) = r"
| "second_try (Ready r) = r"
| "second_try (Sent r) = r"
| "second_try Unauthorized = True"
| "second_try _ = False"

definition repeats :: "nat \<Rightarrow> auth_state \<Rightarrow> bool" where
  "repeats t s \<longleftrightarrow> second_try (au_call s t) \<or> requests_of t s = 2"

lemma repeats_step:
  assumes "auth_step s l s'" "requests_ok (au_call s t) (requests_of t s)" "repeats t s'"
  shows "repeats t s \<or> l = Respond t 401"
  using assms by (cases rule: auth_step.cases) (auto simp: repeats_def requests_of_def split: if_splits)

lemma repeats_path:
  assumes "auth.path s ls s'" "auth.reach s" "repeats t s'"
  shows "repeats t s \<or> Respond t 401 \<in> set ls"
  using assms
proof (induction rule: auth.path.induct)
  case (path_Cons s l v ls u)
  then have "repeats t v \<or> Respond t 401 \<in> set ls" by (blast intro: auth.reach_step)
  moreover have "requests_ok (au_call s t) (requests_of t s)" using requests_ok_reach [OF path_Cons.prems(1)] by blast
  ultimately show ?case using repeats_step [OF path_Cons.hyps(1)] by auto
qed simp

section \<open>One refresh at a time\<close>

fun refreshing :: "call \<Rightarrow> bool" where
  "refreshing (NeedsRefresh r) = True"
| "refreshing (Asking r old) = True"
| "refreshing (Answered r old new) = True"
| "refreshing (Stored r old new) = True"
| "refreshing _ = False"

definition lone :: "auth_state \<Rightarrow> bool" where
  "lone s \<longleftrightarrow> (\<forall>t u. refreshing (au_call s t) \<and> refreshing (au_call s u) \<longrightarrow> t = u)"

text \<open>What the keychain holds, by the position of the refreshing call.\<close>

fun keychain_ok :: "auth_state \<Rightarrow> call \<Rightarrow> bool" where
  "keychain_ok s (Asking r old) = (tk_refresh_token (au_tokens s) = Some old)"
| "keychain_ok s (Answered r old new) = (tk_refresh_token (au_tokens s) = Some old)"
| "keychain_ok s (Stored r old new) = (tk_refresh_token (au_tokens s) = rotated old new (Some old) \<and> au_keychain s = Some old)"
| "keychain_ok s _ = True"

definition in_step :: "auth_state \<Rightarrow> bool" where
  "in_step s \<longleftrightarrow> (\<forall>t. keychain_ok s (au_call s t)) \<and>
     ((\<nexists>t r old new. au_call s t = Stored r old new) \<longrightarrow> au_keychain s = tk_refresh_token (au_tokens s))"

lemma keychain_ok_cong:
  "tk_refresh_token (au_tokens s') = tk_refresh_token (au_tokens s) \<Longrightarrow> au_keychain s' = au_keychain s \<Longrightarrow>
     keychain_ok s' c = keychain_ok s c"
  by (cases c) simp_all

lemma keychain_ok_idle: "\<not> refreshing c \<Longrightarrow> keychain_ok s c"
  by (cases c) simp_all

abbreviation is_stored :: "call \<Rightarrow> bool" where
  "is_stored c \<equiv> \<exists>r old new. c = Stored r old new"

text \<open>A step that changes neither the refresh token nor the keychain.\<close>

lemma in_step_goto:
  assumes "in_step s" "au_call v = au_call s" "\<not> is_stored (au_call s t)" "\<not> is_stored c" "keychain_ok s c"
    and "tk_refresh_token (au_tokens v) = tk_refresh_token (au_tokens s)" "au_keychain v = au_keychain s"
  shows "in_step (goto t c v)"
proof -
  let ?s = "goto t c v"
  have "(\<nexists>t r old new. au_call ?s t = Stored r old new) \<longleftrightarrow> (\<nexists>t r old new. au_call s t = Stored r old new)"
    using assms(2-4) by (metis fun_upd_apply goto_simps(1))
  then show ?thesis
    using assms keychain_ok_cong [of ?s s] by (auto simp: in_step_def)
qed

text \<open>A step of the only refreshing call.\<close>

lemma in_step_lone:
  assumes "lone s" "refreshing (au_call s t)" "au_call s' = (au_call s)(t := c)" "keychain_ok s' c"
    and "\<not> is_stored c \<longrightarrow> au_keychain s' = tk_refresh_token (au_tokens s')"
  shows "in_step s'"
proof -
  have idle: "\<not> refreshing (au_call s u)" if "u \<noteq> t" for u
    using assms(1,2) that by (auto simp: lone_def)
  have "keychain_ok s' (au_call s' u)" for u
    using assms(3,4) keychain_ok_idle [OF idle] by (cases "u = t") simp_all
  moreover have "au_keychain s' = tk_refresh_token (au_tokens s')" if "\<nexists>u r old new. au_call s' u = Stored r old new"
  proof -
    have "\<not> is_stored c" using that assms(3) by (metis fun_upd_same)
    then show ?thesis using assms(5) by blast
  qed
  ultimately show ?thesis unfolding in_step_def by blast
qed

lemma in_step_none_stored:
  assumes "in_step s" "lone s" "au_call s t = Answered r old new"
  shows "au_keychain s = Some old" "tk_refresh_token (au_tokens s) = Some old"
proof -
  have "keychain_ok s (au_call s t)" using assms(1) by (simp add: in_step_def)
  then show m: "tk_refresh_token (au_tokens s) = Some old" by (simp add: assms(3))
  have "\<not> is_stored (au_call s u)" for u
    using assms(2,3) by (cases "u = t") (auto simp: lone_def)
  then have "au_keychain s = tk_refresh_token (au_tokens s)" using assms(1) by (simp add: in_step_def)
  with m show "au_keychain s = Some old" by simp
qed

lemma in_step_step:
  assumes "auth_step s l s'" "in_step s" "lone s"
  shows "in_step s'"
  using assms(1)
proof (cases rule: auth_step.cases)
  case (stored t r old new)
  note k = in_step_none_stored [OF assms(2,3) stored(3)]
  show ?thesis
    by (rule in_step_lone [OF assms(3), of t _ "Stored r old new"])
      (simp_all add: stored k merged_def rotated_def split: option.split)
next
  case (notified t r old new)
  have "keychain_ok s (au_call s t)" using assms(2) by (simp add: in_step_def)
  then show ?thesis
    by (intro in_step_lone [OF assms(3), of t _ "Ready r"]) (auto simp: notified rotated_def split: option.split)
next
  case (answered t r old new)
  have "keychain_ok s (au_call s t)" using assms(2) by (simp add: in_step_def)
  then show ?thesis
    unfolding answered(2) by (intro in_step_goto [OF assms(2)]) (simp_all add: answered)
qed (auto intro!: in_step_goto [OF assms(2)])

lemma in_step_path:
  assumes "auth.path s ls s'" "in_step s" "\<forall>ms v. prefix ms ls \<and> auth.path s ms v \<longrightarrow> lone v"
  shows "in_step s'"
  using assms
proof (induction rule: auth.path.induct)
  case (path_Cons s l v ls u)
  have "lone s" using path_Cons.prems(2) [rule_format, of "[]" s] auth.path_Nil [of s] by simp
  then have "in_step v" by (rule in_step_step [OF path_Cons.hyps(1) path_Cons.prems(1)])
  moreover have "lone w" if "prefix ms ls" "auth.path v ms w" for ms w
    using path_Cons.prems(2) [rule_format, of "l # ms" w] auth.path_Cons [OF path_Cons.hyps(1) that(2)] that(1) by simp
  ultimately show ?case by (intro path_Cons.IH) blast+
qed simp

section \<open>Running a schedule\<close>

fun auth_exec :: "auth_label \<Rightarrow> auth_state \<Rightarrow> auth_state option" where
  "auth_exec (CheckExpiry t now) s = (case au_call s t of
      Start r \<Rightarrow> Some (goto t (if tk_expires_at (au_tokens s) \<le> now then NeedsRefresh r else Ready r) s)
    | _ \<Rightarrow> None)"
| "auth_exec (ReadRefreshToken t) s = (case au_call s t of
      NeedsRefresh r \<Rightarrow> Some (goto t (case tk_refresh_token (au_tokens s) of Some old \<Rightarrow> Asking r old | None \<Rightarrow> Failed) s)
    | _ \<Rightarrow> None)"
| "auth_exec (TokenAnswer t new) s = (case au_call s t of Asking r old \<Rightarrow> Some (goto t (Answered r old new) s) | _ \<Rightarrow> None)"
| "auth_exec (TokenError t) s = (case au_call s t of Asking r old \<Rightarrow> Some (goto t Failed s) | _ \<Rightarrow> None)"
| "auth_exec (StoreTokens t) s = (case au_call s t of
      Answered r old new \<Rightarrow> Some (goto t (Stored r old new) (s\<lparr>au_tokens := merged new (au_tokens s)\<rparr>))
    | _ \<Rightarrow> None)"
| "auth_exec (RotationCallback t) s = (case au_call s t of
      Stored r old new \<Rightarrow> Some (goto t (Ready r) (s\<lparr>au_keychain := rotated old new (au_keychain s)\<rparr>))
    | _ \<Rightarrow> None)"
| "auth_exec (SendRequest t) s = (case au_call s t of
      Ready r \<Rightarrow> Some (goto t (Sent r) (s\<lparr>au_wire := au_wire s @ [(t, tk_access_token (au_tokens s))]\<rparr>))
    | _ \<Rightarrow> None)"
| "auth_exec (Respond t status) s = (case au_call s t of
      Sent r \<Rightarrow> Some (goto t (if status = 401 \<and> \<not> r then Unauthorized else Finished) s)
    | _ \<Rightarrow> None)"
| "auth_exec (SendError t) s = (case au_call s t of Sent r \<Rightarrow> Some (goto t Failed s) | _ \<Rightarrow> None)"
| "auth_exec (ForceExpiry t now) s = (case au_call s t of
      Unauthorized \<Rightarrow> Some (goto t (Start True) (s\<lparr>au_tokens := (au_tokens s)\<lparr>tk_expires_at := now - 1000000000\<rparr>\<rparr>))
    | _ \<Rightarrow> None)"

lemma auth_exec_iff: "auth_step s l s' \<longleftrightarrow> auth_exec l s = Some s'"
proof
  show "auth_step s l s' \<Longrightarrow> auth_exec l s = Some s'" by (erule auth_stepE) auto
  show "auth_exec l s = Some s' \<Longrightarrow> auth_step s l s'"
    by (cases l) (auto intro: auth_step.intros split: call.splits option.splits if_splits)
qed

fun auth_run :: "auth_label list \<Rightarrow> auth_state \<Rightarrow> auth_state option" where
  "auth_run [] s = Some s"
| "auth_run (l # ls) s = Option.bind (auth_exec l s) (auth_run ls)"

lemma auth_run_path: "auth.path s ls s' \<longleftrightarrow> auth_run ls s = Some s'"
proof
  show "auth.path s ls s' \<Longrightarrow> auth_run ls s = Some s'"
    by (induction rule: auth.path.induct) (simp_all add: auth_exec_iff)
  show "auth_run ls s = Some s' \<Longrightarrow> auth.path s ls s'"
    by (induction ls arbitrary: s) (auto simp: auth_exec_iff bind_eq_Some_conv intro: auth.path.intros)
qed

text \<open>The sequential \<open>ensure_fresh\<close> is a schedule of one call.\<close>

definition represents :: "crates \<Rightarrow> AccountId \<Rightarrow> nat \<Rightarrow> net \<Rightarrow> auth_state \<Rightarrow> bool" where
  "represents X i cell w s \<longleftrightarrow> au_tokens s = net_tokens w cell \<and>
     au_keychain s = net_keychain w (service_name X i, key_kind_as_str RefreshToken)"

lemma ensure_fresh_is_a_run:
  assumes "\<And>h. env_keychain E h = None" and "represents X i cell w s" and "au_call s t = Start b"
    and "ensure_fresh X E (daemon_client X E cfg cell i) w = (r, w')" and "\<not> is_panic r"
  shows "\<exists>ls s'. auth_run ls s = Some s' \<and> represents X i cell w' s' \<and>
    au_call s' = (au_call s)(t := if is_ok r then Ready b else Failed)"
proof -
  let ?c = "daemon_client X E cfg cell i" and ?now = "env_now E (net_history w)" and ?w = "log_event Clock_Read w"
  let ?check = "CheckExpiry t ?now"
  have rep: "au_tokens s = net_tokens w cell" "au_keychain s = net_keychain w (service_name X i, key_kind_as_str RefreshToken)"
    using assms(2) by (simp_all add: represents_def)
  show ?thesis
  proof (cases "tk_expires_at (net_tokens w cell) \<le> ?now")
    case False
    then have "r = Ok ()" "w' = ?w"
      using assms(4) by (auto simp: ensure_fresh_def clock_now_def io_bind_def tokens_of_def)
    then show ?thesis using assms(3) rep False by (intro exI [of _ "[?check]"]) (simp add: represents_def)
  next
    case True
    show ?thesis
    proof (cases "tk_refresh_token (net_tokens w cell)")
      case None
      then have "is_ok r = False" "w' = ?w"
        using assms(4) True by (auto simp: ensure_fresh_def clock_now_def io_bind_def tokens_of_def refresh_token_of_def)
      then show ?thesis
        using assms(3) rep True None by (intro exI [of _ "[?check, ReadRefreshToken t]"]) (simp add: represents_def)
    next
      case (Some old)
      obtain r0 w2 where r0: "refresh X E cfg old ?w = (r0, w2)" by (cases "refresh X E cfg old ?w")
      then have f: "net_tokens w2 = net_tokens w" "net_keychain w2 = net_keychain w"
        using token_request_frame [of X E cfg _ ?w] by (auto simp: refresh_def)
      have e: "(r, w') = (case r0 of Ok new \<Rightarrow> (Ok (), notify_rotation ?c old new (store_refreshed ?c new w2))
          | Err e \<Rightarrow> (Err e, w2) | Panic m \<Rightarrow> (Panic m, w2))"
        using assms(4) True Some r0
        by (simp add: ensure_fresh_def clock_now_def io_bind_def tokens_of_def refresh_token_of_def split: res.split)
      show ?thesis
      proof (cases r0)
        case (Ok new)
        with e assms(3) rep True Some f show ?thesis
          by (intro exI [of _ "[?check, ReadRefreshToken t, TokenAnswer t new, StoreTokens t, RotationCallback t]"])
            (auto simp: represents_def notify_rotation_def store_refreshed_def set_tokens_def tokens_of_def merged_def rotated_def
              rotation_callback_def secret_set_def keychain_def assms(1) split: option.split)
      next
        case (Err e')
        with e assms(3) rep True Some f show ?thesis
          by (intro exI [of _ "[?check, ReadRefreshToken t, TokenError t]"]) (simp add: represents_def)
      qed (use e assms(5) in simp)
    qed
  qed
qed

section \<open>Properties\<close>


definition demo_auth :: auth_state where
  "demo_auth = \<lparr>au_tokens = \<lparr>tk_access_token = ''AT'', tk_refresh_token = Some ''RT'', tk_expires_at = 0, tk_scope = None\<rparr>,
     au_keychain = Some ''RT'', au_call = (\<lambda>_. Start False), au_wire = []\<rparr>"

definition demo_answer :: "string \<Rightarrow> OAuthTokens" where
  "demo_answer rt = \<lparr>tk_access_token = ''AT-'' @ rt, tk_refresh_token = Some rt, tk_expires_at = 3600, tk_scope = None\<rparr>"


text \<open>
  Two refreshes at once can lose a rotated token. Whenever two calls find the access token expired
  and the provider rotates the refresh token, there is a schedule after which both calls go on
  normally, but the client uses one of the new refresh tokens while the keychain holds the other: the
  callback that stores a token runs after the lock on the token cell was released, so the two
  callbacks can come in the opposite order.
\<close>

lemma concurrent_rotation_is_lost:
  fixes x y :: OAuthTokens and s :: auth_state
  assumes "au_call s t = Start b" and "au_call s u = Start c" and "t \<noteq> u" and "tk_expires_at (au_tokens s) \<le> now"
    and "tk_refresh_token (au_tokens s) = Some old" and "tk_refresh_token x = Some rx" and "tk_refresh_token y = Some ry"
    and "rx \<noteq> old" and "ry \<noteq> old"
  shows "\<exists>ls s'. auth.path s ls s' \<and> au_call s' = (au_call s)(t := Ready b, u := Ready c) \<and>
    tk_refresh_token (au_tokens s') = Some ry \<and> au_keychain s' = Some rx"
proof -
  let ?ls = "[CheckExpiry t now, CheckExpiry u now, ReadRefreshToken t, ReadRefreshToken u, TokenAnswer t x, TokenAnswer u y,
      StoreTokens t, StoreTokens u, RotationCallback u, RotationCallback t]"
  have "\<exists>s'. auth_run ?ls s = Some s' \<and> au_call s' = (au_call s)(t := Ready b, u := Ready c) \<and>
      tk_refresh_token (au_tokens s') = Some ry \<and> au_keychain s' = Some rx"
    using assms by (simp add: merged_def rotated_def fun_upd_twist)
  then show ?thesis unfolding auth_run_path by blast
qed

lemma concurrent_rotation_is_lost_example:
  "\<exists>ls s'. auth.path demo_auth ls s' \<and> tk_refresh_token (au_tokens s') = Some ''B'' \<and> au_keychain s' = Some ''A''"
  using concurrent_rotation_is_lost [of demo_auth 0 False 1 False 5 "''RT''" "demo_answer ''A''" "''A''" "demo_answer ''B''" "''B''"]
  by (auto simp: demo_auth_def demo_answer_def)

end
