(* ===== verification/Enforce.thy ===== *)
theory Enforce
  imports Approvals
begin

text \<open>
  Policy enforcement (\<^verbatim>\<open>permissions/enforce.rs\<close>): session trust and the decision whether a tool
  call proceeds, is refused, is turned into a draft, or has to wait for the user.

  While a call waits, the rest of the daemon runs. That is the parameter \<open>wait\<close>: it takes the
  future and the state at the moment of waiting to the outcome and the state at the moment of
  resumption. The state is a record with the two fields that enforcement reads and writes;
  the daemon extends it.
\<close>

datatype EnforceOutcome = Proceed | Blocked | ConvertToDraft

type_synonym SessionTrust = "(AccountId \<times> Category) \<rightharpoonup> bool"

record EnforceState =
  ctx_approvals :: ApprovalQueue
  ctx_trust :: SessionTrust

definition is_trusted :: "SessionTrust \<Rightarrow> AccountId \<Rightarrow> Category \<Rightarrow> bool" where
  "is_trusted t a c = unwrap_or False (t (a, c))"

definition grant :: "AccountId \<Rightarrow> Category \<Rightarrow> SessionTrust \<Rightarrow> SessionTrust" where
  "grant a c t = t((a, c) \<mapsto> True)"

definition revoke_all :: "SessionTrust \<Rightarrow> SessionTrust" where
  "revoke_all t = Map.empty"

type_synonym 'z approval_wait = "ApprovalFuture \<Rightarrow> ('z EnforceState_scheme, ApprovalOutcome) io"

definition ask_confirm ::
  "'z approval_wait \<Rightarrow> ApprovalId \<Rightarrow> datetime \<Rightarrow> ApprovalRequest \<Rightarrow> ('z EnforceState_scheme, EnforceOutcome) io" where
  "ask_confirm wait i now request s =
     (let ((_, fut), q) = enqueue i now request (ctx_approvals s) in
      io_bind (wait fut) (\<lambda>outcome. io_ret (case outcome of
          Approved \<Rightarrow> Proceed
        | Rejected \<Rightarrow> Blocked
        | Timeout \<Rightarrow> Blocked)) (s\<lparr>ctx_approvals := q\<rparr>))"

definition enforce ::
  "'z approval_wait \<Rightarrow> ApprovalId \<Rightarrow> datetime \<Rightarrow> Permissions \<Rightarrow> Category \<Rightarrow> ApprovalRequest \<Rightarrow>
   ('z EnforceState_scheme, EnforceOutcome) io" where
  "enforce wait i now perms category request = (case policy_for perms category of
      Allow \<Rightarrow> io_ret Proceed
    | Block \<Rightarrow> io_ret Blocked
    | Draftify \<Rightarrow>
        if category = Send then io_ret ConvertToDraft else ask_confirm wait i now request
    | Confirm \<Rightarrow> ask_confirm wait i now request
    | Session \<Rightarrow> (\<lambda>s.
        if is_trusted (ctx_trust s) (ar_account request) category then (Ok Proceed, s)
        else io_bind (ask_confirm wait i now request) (\<lambda>outcome s'.
          (Ok outcome,
           if outcome = Proceed
           then s'\<lparr>ctx_trust := grant (ar_account request) category (ctx_trust s')\<rparr>
           else s')) s))"

section \<open>What enforcement promises\<close>

text \<open>When the user has to be asked, and what happens when not.\<close>

definition needs_user :: "Policy \<Rightarrow> Category \<Rightarrow> bool \<Rightarrow> bool" where
  "needs_user p c trusted \<longleftrightarrow>
     p = Confirm \<or> p = Draftify \<and> c \<noteq> Send \<or> p = Session \<and> \<not> trusted"

primrec silent_outcome :: "Policy \<Rightarrow> EnforceOutcome" where
  "silent_outcome Allow = Proceed"
| "silent_outcome Confirm = Blocked"
| "silent_outcome Session = Proceed"
| "silent_outcome Draftify = ConvertToDraft"
| "silent_outcome Block = Blocked"

lemma enforce_silent:
  assumes "\<not> needs_user (policy_for perms c) c (is_trusted (ctx_trust s) (ar_account req) c)"
  shows "enforce wait i now perms c req s = (Ok (silent_outcome (policy_for perms c)), s)"
  using assms by (cases "policy_for perms c") (auto simp: enforce_def needs_user_def)

definition after_answer ::
  "Policy \<Rightarrow> AccountId \<Rightarrow> Category \<Rightarrow> ApprovalOutcome \<Rightarrow> 'z EnforceState_scheme \<Rightarrow> EnforceOutcome res \<times> 'z EnforceState_scheme" where
  "after_answer p a c v s =
     (Ok (if v = Approved then Proceed else Blocked),
      if p = Session \<and> v = Approved then s\<lparr>ctx_trust := grant a c (ctx_trust s)\<rparr> else s)"

lemma ask_confirm_simps:
  assumes "enqueue i now req (ctx_approvals s) = ((j, fut), q)"
  shows "wait fut (s\<lparr>ctx_approvals := q\<rparr>) = (Ok v, s') \<Longrightarrow>
      ask_confirm wait i now req s = (Ok (if v = Approved then Proceed else Blocked), s')"
    and "wait fut (s\<lparr>ctx_approvals := q\<rparr>) = (Err e, s') \<Longrightarrow>
      ask_confirm wait i now req s = (Err e, s')"
  using assms by (auto simp: ask_confirm_def io_bind_def split: ApprovalOutcome.split)

lemma enforce_asks:
  assumes "needs_user (policy_for perms c) c (is_trusted (ctx_trust s) (ar_account req) c)"
    and q: "enqueue i now req (ctx_approvals s) = ((j, fut), q)"
    and w: "wait fut (s\<lparr>ctx_approvals := q\<rparr>) = (Ok v, s')"
  shows "enforce wait i now perms c req s =
    after_answer (policy_for perms c) (ar_account req) c v s'"
  using assms(1) ask_confirm_simps(1) [where wait = wait, OF q w]
  by (cases "policy_for perms c")
    (auto simp: enforce_def needs_user_def after_answer_def io_bind_def)

lemma enforce_wait_error:
  assumes "needs_user (policy_for perms c) c (is_trusted (ctx_trust s) (ar_account req) c)"
    and q: "enqueue i now req (ctx_approvals s) = ((j, fut), q)"
    and w: "wait fut (s\<lparr>ctx_approvals := q\<rparr>) = (Err e, s')"
  shows "enforce wait i now perms c req s = (Err e, s')"
  using assms(1) ask_confirm_simps(2) [where wait = wait, OF q w]
  by (cases "policy_for perms c") (auto simp: enforce_def needs_user_def io_bind_def)

lemma is_trusted_simps [simp]:
  "is_trusted Map.empty a c \<longleftrightarrow> False"
  "is_trusted (revoke_all t) a c \<longleftrightarrow> False"
  "is_trusted (grant a c t) b d \<longleftrightarrow> (b = a \<and> d = c) \<or> is_trusted t b d"
  by (auto simp: is_trusted_def revoke_all_def grant_def)

lemma ask_confirm_panic_free:
  assumes "\<And>f. panic_free (wait f)"
  shows "panic_free (ask_confirm wait i now req)"
proof -
  have "panic_free (io_bind (wait f) (\<lambda>v. io_ret (g v)))" for f and g :: "ApprovalOutcome \<Rightarrow> EnforceOutcome"
    by (rule panic_free_bind [OF assms panic_free_ret])
  then show ?thesis by (simp add: panic_free_def ask_confirm_def split: prod.split)
qed

lemma enforce_panic_free:
  assumes "\<And>f. panic_free (wait f)"
  shows "panic_free (enforce wait i now perms c req)"
proof -
  note ask = ask_confirm_panic_free [of wait i now req, OF assms]
  have "panic_free (io_bind (ask_confirm wait i now req) (\<lambda>v s. (Ok v, g v s)))" for g :: "EnforceOutcome \<Rightarrow> _"
    by (rule panic_free_bind [OF ask]) (simp add: panic_free_def)
  with ask show ?thesis
    by (simp add: panic_free_def enforce_def split: Policy.split)
qed

text \<open>Enforcement keeps what does not look at the queue and the trust, if the waiting does.\<close>

lemma enforce_keeps:
  assumes "\<And>s q. P s \<Longrightarrow> P (s\<lparr>ctx_approvals := q\<rparr>)" and "\<And>s t. P s \<Longrightarrow> P (s\<lparr>ctx_trust := t\<rparr>)"
    and "\<And>f. keeps P (wait f)"
  shows "keeps P (enforce wait i now perms c req)"
proof -
  have "P (snd (ask_confirm wait i now req s))" if "P s" for s
  proof -
    obtain j fut q where q: "enqueue i now req (ctx_approvals s) = ((j, fut), q)" by (metis prod.exhaust)
    have "keeps P (io_bind (wait fut) (\<lambda>outcome. io_ret (case outcome of
        Approved \<Rightarrow> Proceed | Rejected \<Rightarrow> Blocked | Timeout \<Rightarrow> Blocked)))"
      by (intro keeps_bind keeps_ret assms(3))
    from keepsD [OF this assms(1) [OF that, of q]] show ?thesis by (simp add: ask_confirm_def q)
  qed
  then have ask: "keeps P (ask_confirm wait i now req)" by (simp add: keeps_def)
  have "keeps P (io_bind (ask_confirm wait i now req) (\<lambda>outcome s'. (Ok outcome,
      if outcome = Proceed then s'\<lparr>ctx_trust := grant (ar_account req) c (ctx_trust s')\<rparr> else s')))"
    by (intro keeps_bind ask) (simp add: keeps_def assms(2))
  with ask show ?thesis
    by (cases "policy_for perms c") (auto simp: enforce_def keeps_def)
qed

section \<open>Properties\<close>

text \<open>
  C7: Enforcement is its policy table. When the policy does not ask for the user, the outcome is
  the fixed one of the policy (allow and a trusted session proceed, block refuses, draftify
  rewrites a send) and the state does not change; otherwise exactly one request is queued, and the
  call proceeds if and only if the answer is "approved"; trust is granted only by an approval
  under the session policy.
\<close>

theorem enforce_follows_policy:
  assumes "enqueue i now req (ctx_approvals s) = ((j, fut), q)"
    and "wait fut (s\<lparr>ctx_approvals := q\<rparr>) = (Ok v, s')"
  shows "enforce wait i now perms c req s =
    (if needs_user (policy_for perms c) c (is_trusted (ctx_trust s) (ar_account req) c)
     then after_answer (policy_for perms c) (ar_account req) c v s'
     else (Ok (silent_outcome (policy_for perms c)), s))"
  using enforce_silent enforce_asks [where wait = wait, OF _ assms] by (cases
    "needs_user (policy_for perms c) c (is_trusted (ctx_trust s) (ar_account req) c)") auto

definition demo_state :: EnforceState where
  "demo_state = \<lparr>ctx_approvals = approval_queue_new 300, ctx_trust = Map.empty\<rparr>"

definition demo_req :: "Category \<Rightarrow> ApprovalRequest" where
  "demo_req c = \<lparr>ar_account = AccountId 1, ar_category = c, ar_summary = ''trash'', ar_details = JNull\<rparr>"

theorem enforce_follows_policy_witness:
  "enforce (\<lambda>f. io_ret Approved) (ApprovalId 7) 0 (override_for Trash Session with_defaults) Trash
     (demo_req Trash) demo_state =
   after_answer Session (AccountId 1) Trash Approved
     (demo_state\<lparr>ctx_approvals := snd (enqueue (ApprovalId 7) 0 (demo_req Trash) (ctx_approvals demo_state))\<rparr>)"
proof -
  obtain j fut q where e: "enqueue (ApprovalId 7) 0 (demo_req Trash) (ctx_approvals demo_state) = ((j, fut), q)"
    by (metis prod.exhaust)
  have w: "(\<lambda>f. io_ret Approved) fut (demo_state\<lparr>ctx_approvals := q\<rparr>)
      = (Ok Approved, demo_state\<lparr>ctx_approvals := q\<rparr>)" by simp
  have p: "policy_for (override_for Trash Session with_defaults) Trash = Session"
    by (simp add: policy_for_def override_for_def)
  show ?thesis
    using enforce_follows_policy [where wait = "\<lambda>f. io_ret Approved", OF e w, of "override_for Trash Session with_defaults" Trash]
    by (simp add: p e needs_user_def) (simp add: demo_state_def demo_req_def)
qed

text \<open>
  Session trust is given once and narrowly: after an approved call under the session policy,
  a later call of the same account and category proceeds without asking, and no other account or
  category has gained trust.
\<close>

lemma session_trust_is_narrow:
  assumes "policy_for perms c = Session"
    and "enforce wait i now perms c req s = (Ok Proceed, s')"
    and "\<And>f. ctx_trust (snd (wait f t)) = ctx_trust t"
    and "t = s\<lparr>ctx_approvals := snd (enqueue i now req (ctx_approvals s))\<rparr>"
  shows "enforce wait' i' now' perms c (req\<lparr>ar_details := d\<rparr>) s' = (Ok Proceed, s') \<and>
    (\<forall>a k. is_trusted (ctx_trust s') a k =
       ((a, k) = (ar_account req, c) \<or> is_trusted (ctx_trust s) a k))"
proof -
  have *: "is_trusted (ctx_trust s') a k \<longleftrightarrow>
      (a, k) = (ar_account req, c) \<or> is_trusted (ctx_trust s) a k" for a k
  proof (cases "is_trusted (ctx_trust s) (ar_account req) c")
    case True
    then show ?thesis using assms(1,2) by (auto simp: enforce_def)
  next
    case False
    obtain j fut q where e: "enqueue i now req (ctx_approvals s) = ((j, fut), q)"
      by (metis prod.exhaust)
    obtain r u where w: "wait fut t = (r, u)" by (cases "wait fut t")
    have "ctx_trust u = ctx_trust s" using assms(3) [of fut] w assms(4) by simp
    moreover have "r = Ok Approved \<and> s' = u\<lparr>ctx_trust := grant (ar_account req) c (ctx_trust u)\<rparr>"
      using assms(1,2,4) False e w
      by (cases r) (auto simp: enforce_def ask_confirm_def io_bind_def split: ApprovalOutcome.splits)
    ultimately show ?thesis by auto
  qed
  then show ?thesis using assms(1) by (simp add: enforce_def)
qed

lemma session_trust_is_narrow_example:
  "\<exists>s'. enforce (\<lambda>f. io_ret Approved) (ApprovalId 7) 0 (override_for Trash Session with_defaults) Trash
       (demo_req Trash) demo_state = (Ok Proceed, s') \<and>
     enforce (\<lambda>f. io_ret Rejected) (ApprovalId 8) 9 (override_for Trash Session with_defaults) Trash
       (demo_req Trash\<lparr>ar_details := JNull\<rparr>) s' = (Ok Proceed, s') \<and>
     \<not> is_trusted (ctx_trust s') (AccountId 2) Trash"
proof -
  let ?perms = "override_for Trash Session with_defaults"
  have p: "policy_for ?perms Trash = Session" by (simp add: policy_for_def override_for_def)
  obtain s' where s': "enforce (\<lambda>f. io_ret Approved) (ApprovalId 7) 0 ?perms Trash
      (demo_req Trash) demo_state = (Ok Proceed, s')"
    by (simp add: enforce_def p ask_confirm_def enqueue_def Let_def io_bind_def demo_state_def)
  show ?thesis
    using session_trust_is_narrow [OF p s' _ refl, of "\<lambda>f. io_ret Rejected" "ApprovalId 8" 9 JNull] s'
    by (auto simp: demo_state_def demo_req_def)
qed

end
