(* ===== verification/Tools.thy ===== *)
theory Tools
  imports Permissions
begin

text \<open>
  The catalogue of MCP tools (\<^verbatim>\<open>mcp/tools.rs\<close>): name, description, argument schema and category
  of every tool, in the order of the source.
\<close>

record ToolSpec =
  tool_name :: string
  tool_description :: string
  tool_input_schema :: json
  tool_category :: Category

definition string_schema :: json where
  "string_schema = JObject [(''type'', JString ''string'')]"

definition strings_schema :: json where
  "strings_schema = JObject [(''type'', JString ''array''), (''items'', string_schema)]"

definition object_schema :: "(string \<times> json) list \<Rightarrow> string list \<Rightarrow> json" where
  "object_schema props req = JObject
     [(''type'', JString ''object''), (''properties'', JObject props),
      (''required'', JArray (map JString req)), (''additionalProperties'', JBool False)]"

definition tool_list_accounts :: ToolSpec where
  "tool_list_accounts = \<lparr>
     tool_name = ''list_accounts'',
     tool_description =
       ''List all connected mail accounts. Returns account ids, labels, '' @
       ''providers, emails. Use this first to find an account_id before any '' @
       ''other tool call.'',
     tool_input_schema = JObject [(''type'', JString ''object''), (''properties'', JObject []), (''additionalProperties'', JBool False)],
     tool_category = Read\<rparr>"

definition tool_search :: ToolSpec where
  "tool_search = \<lparr>
     tool_name = ''search'',
     tool_description =
       ''Search threads on a single account. The query string uses '' @
       ''provider-native syntax (Gmail's search operators e.g. 'from:alice '' @
       ''subject:invoice'). Returns thread summaries plus an opaque cursor for '' @
       ''pagination.'',
     tool_input_schema = object_schema
       [(''account_id'', string_schema),
        (''query'', string_schema),
        (''label_id'', string_schema),
        (''folder_id'', string_schema),
        (''limit'', JObject [(''type'', JString ''integer''), (''minimum'', JNumber (PosInt 1)), (''maximum'', JNumber (PosInt 100)), (''default'', JNumber (PosInt 20))]),
        (''cursor'', string_schema)]
       [''account_id''],
     tool_category = Read\<rparr>"

definition tool_get_thread :: ToolSpec where
  "tool_get_thread = \<lparr>
     tool_name = ''get_thread'',
     tool_description =
       ''Get a full mail thread (all messages, including bodies) by id.'',
     tool_input_schema = object_schema
       [(''account_id'', string_schema),
        (''thread_id'', string_schema)]
       [''account_id'', ''thread_id''],
     tool_category = Read\<rparr>"

definition tool_get_message :: ToolSpec where
  "tool_get_message = \<lparr>
     tool_name = ''get_message'',
     tool_description =
       ''Get a single message by id with full body and attachment metadata.'',
     tool_input_schema = object_schema
       [(''account_id'', string_schema),
        (''message_id'', string_schema)]
       [''account_id'', ''message_id''],
     tool_category = Read\<rparr>"

definition tool_list_folders :: ToolSpec where
  "tool_list_folders = \<lparr>
     tool_name = ''list_folders'',
     tool_description =
       ''List system folders. On Gmail these are the system labels (INBOX, SENT, '' @
       ''TRASH, DRAFT, SPAM); on M365/IMAP these are real folders.'',
     tool_input_schema = object_schema
       [(''account_id'', string_schema)]
       [''account_id''],
     tool_category = Read\<rparr>"

definition tool_list_labels :: ToolSpec where
  "tool_list_labels = \<lparr>
     tool_name = ''list_labels'',
     tool_description =
       ''List user-created labels (Gmail) / categories (M365) / IMAP keywords. '' @
       ''Excludes system folders, which are returned by list_folders.'',
     tool_input_schema = object_schema
       [(''account_id'', string_schema)]
       [''account_id''],
     tool_category = Read\<rparr>"

definition tool_list_drafts :: ToolSpec where
  "tool_list_drafts = \<lparr>
     tool_name = ''list_drafts'',
     tool_description =
       ''List existing drafts on the account.'',
     tool_input_schema = object_schema
       [(''account_id'', string_schema)]
       [''account_id''],
     tool_category = Read\<rparr>"

definition tool_mark_read :: ToolSpec where
  "tool_mark_read = \<lparr>
     tool_name = ''mark_read'',
     tool_description =
       ''Mark messages as read or unread.'',
     tool_input_schema = object_schema
       [(''account_id'', string_schema),
        (''message_ids'', strings_schema),
        (''read'', JObject [(''type'', JString ''boolean'')])]
       [''account_id'', ''message_ids'', ''read''],
     tool_category = Modify\<rparr>"

definition tool_star :: ToolSpec where
  "tool_star = \<lparr>
     tool_name = ''star'',
     tool_description =
       ''Star or unstar messages.'',
     tool_input_schema = object_schema
       [(''account_id'', string_schema),
        (''message_ids'', strings_schema),
        (''starred'', JObject [(''type'', JString ''boolean'')])]
       [''account_id'', ''message_ids'', ''starred''],
     tool_category = Modify\<rparr>"

definition tool_label :: ToolSpec where
  "tool_label = \<lparr>
     tool_name = ''label'',
     tool_description =
       ''Add or remove a label on messages. On Gmail this maps to label modify; '' @
       ''on IMAP to keyword set/clear.'',
     tool_input_schema = object_schema
       [(''account_id'', string_schema),
        (''message_ids'', strings_schema),
        (''label_id'', string_schema),
        (''on'', JObject [(''type'', JString ''boolean'')])]
       [''account_id'', ''message_ids'', ''label_id'', ''on''],
     tool_category = Modify\<rparr>"

definition tool_move_to :: ToolSpec where
  "tool_move_to = \<lparr>
     tool_name = ''move_to'',
     tool_description =
       ''Move messages to a folder. On Gmail this re-labels (e.g., move from '' @
       ''INBOX to TRASH); on IMAP/M365 it's a real folder move.'',
     tool_input_schema = object_schema
       [(''account_id'', string_schema),
        (''message_ids'', strings_schema),
        (''folder_id'', string_schema)]
       [''account_id'', ''message_ids'', ''folder_id''],
     tool_category = Modify\<rparr>"

definition tool_archive :: ToolSpec where
  "tool_archive = \<lparr>
     tool_name = ''archive'',
     tool_description =
       ''Archive messages (Gmail: remove INBOX label; IMAP/M365: move to All '' @
       ''Mail / Archive folder).'',
     tool_input_schema = object_schema
       [(''account_id'', string_schema),
        (''message_ids'', strings_schema)]
       [''account_id'', ''message_ids''],
     tool_category = Modify\<rparr>"

definition tool_trash :: ToolSpec where
  "tool_trash = \<lparr>
     tool_name = ''trash'',
     tool_description =
       ''Move messages to Trash. Reversible until the user empties Trash.'',
     tool_input_schema = object_schema
       [(''account_id'', string_schema),
        (''message_ids'', strings_schema)]
       [''account_id'', ''message_ids''],
     tool_category = Trash\<rparr>"

definition tool_untrash :: ToolSpec where
  "tool_untrash = \<lparr>
     tool_name = ''untrash'',
     tool_description =
       ''Restore messages from Trash.'',
     tool_input_schema = object_schema
       [(''account_id'', string_schema),
        (''message_ids'', strings_schema)]
       [''account_id'', ''message_ids''],
     tool_category = Trash\<rparr>"

definition tool_create_draft :: ToolSpec where
  "tool_create_draft = \<lparr>
     tool_name = ''create_draft'',
     tool_description =
       ''Create a new draft. The draft is saved on the provider's server and '' @
       ''will be visible in the user's drafts folder.'',
     tool_input_schema = object_schema
       [(''account_id'', string_schema),
        (''to'', strings_schema),
        (''cc'', strings_schema),
        (''bcc'', strings_schema),
        (''subject'', string_schema),
        (''body_text'', string_schema),
        (''body_html'', string_schema),
        (''in_reply_to'', string_schema),
        (''thread_id'', string_schema)]
       [''account_id'', ''to'', ''subject''],
     tool_category = Draft\<rparr>"

definition tool_update_draft :: ToolSpec where
  "tool_update_draft = \<lparr>
     tool_name = ''update_draft'',
     tool_description =
       ''Update an existing draft.'',
     tool_input_schema = object_schema
       [(''account_id'', string_schema),
        (''draft_id'', string_schema),
        (''to'', strings_schema),
        (''cc'', strings_schema),
        (''bcc'', strings_schema),
        (''subject'', string_schema),
        (''body_text'', string_schema),
        (''body_html'', string_schema)]
       [''account_id'', ''draft_id'', ''to'', ''subject''],
     tool_category = Draft\<rparr>"

definition tool_send_message :: ToolSpec where
  "tool_send_message = \<lparr>
     tool_name = ''send_message'',
     tool_description =
       ''Send a message directly. Subject to the user's send-policy (default: '' @
       ''Convert to draft, in which case this returns a draft_created result '' @
       ''instead of actually sending).'',
     tool_input_schema = object_schema
       [(''account_id'', string_schema),
        (''to'', strings_schema),
        (''cc'', strings_schema),
        (''bcc'', strings_schema),
        (''subject'', string_schema),
        (''body_text'', string_schema),
        (''body_html'', string_schema),
        (''in_reply_to'', string_schema),
        (''thread_id'', string_schema)]
       [''account_id'', ''to'', ''subject''],
     tool_category = Send\<rparr>"

definition tool_send_draft :: ToolSpec where
  "tool_send_draft = \<lparr>
     tool_name = ''send_draft'',
     tool_description =
       ''Send an existing draft. Subject to send-policy like send_message.'',
     tool_input_schema = object_schema
       [(''account_id'', string_schema),
        (''draft_id'', string_schema)]
       [''account_id'', ''draft_id''],
     tool_category = Send\<rparr>"

definition tools :: "ToolSpec list" where
  "tools = [tool_list_accounts,
     tool_search,
     tool_get_thread,
     tool_get_message,
     tool_list_folders,
     tool_list_labels,
     tool_list_drafts,
     tool_mark_read,
     tool_star,
     tool_label,
     tool_move_to,
     tool_archive,
     tool_trash,
     tool_untrash,
     tool_create_draft,
     tool_update_draft,
     tool_send_message,
     tool_send_draft]"

lemmas tool_defs = tool_list_accounts_def tool_search_def tool_get_thread_def tool_get_message_def tool_list_folders_def tool_list_labels_def tool_list_drafts_def tool_mark_read_def tool_star_def tool_label_def tool_move_to_def tool_archive_def tool_trash_def tool_untrash_def tool_create_draft_def tool_update_draft_def tool_send_message_def tool_send_draft_def

lemma tool_fields [simp]:
  "tool_name tool_list_accounts = ''list_accounts''" "tool_category tool_list_accounts = Read"
  "tool_name tool_search = ''search''" "tool_category tool_search = Read"
  "tool_name tool_get_thread = ''get_thread''" "tool_category tool_get_thread = Read"
  "tool_name tool_get_message = ''get_message''" "tool_category tool_get_message = Read"
  "tool_name tool_list_folders = ''list_folders''" "tool_category tool_list_folders = Read"
  "tool_name tool_list_labels = ''list_labels''" "tool_category tool_list_labels = Read"
  "tool_name tool_list_drafts = ''list_drafts''" "tool_category tool_list_drafts = Read"
  "tool_name tool_mark_read = ''mark_read''" "tool_category tool_mark_read = Modify"
  "tool_name tool_star = ''star''" "tool_category tool_star = Modify"
  "tool_name tool_label = ''label''" "tool_category tool_label = Modify"
  "tool_name tool_move_to = ''move_to''" "tool_category tool_move_to = Modify"
  "tool_name tool_archive = ''archive''" "tool_category tool_archive = Modify"
  "tool_name tool_trash = ''trash''" "tool_category tool_trash = Trash"
  "tool_name tool_untrash = ''untrash''" "tool_category tool_untrash = Trash"
  "tool_name tool_create_draft = ''create_draft''" "tool_category tool_create_draft = Draft"
  "tool_name tool_update_draft = ''update_draft''" "tool_category tool_update_draft = Draft"
  "tool_name tool_send_message = ''send_message''" "tool_category tool_send_message = Send"
  "tool_name tool_send_draft = ''send_draft''" "tool_category tool_send_draft = Send"
  by (simp_all add: tool_defs)

lemma tool_names: "map tool_name tools =
  [''list_accounts'',
   ''search'',
   ''get_thread'',
   ''get_message'',
   ''list_folders'',
   ''list_labels'',
   ''list_drafts'',
   ''mark_read'',
   ''star'',
   ''label'',
   ''move_to'',
   ''archive'',
   ''trash'',
   ''untrash'',
   ''create_draft'',
   ''update_draft'',
   ''send_message'',
   ''send_draft'']"
  by (simp add: tools_def)

lemma tool_names_distinct: "distinct (map tool_name tools)"
  by (simp add: tool_names)

definition find_tool :: "string \<Rightarrow> ToolSpec option" where
  "find_tool name = find (\<lambda>t. tool_name t = name) tools"

lemma find_tool_name: "find_tool name = Some t \<Longrightarrow> tool_name t = name \<and> t \<in> set tools"
  by (auto simp: find_tool_def find_Some_iff)

end
