(* ===== verification/Dispatch.thy ===== *)
theory Dispatch
  imports Enforce Tools
begin

text \<open>
  The dispatch layer (\<^verbatim>\<open>mcp/dispatch.rs\<close>): from the name and the JSON arguments of a tool call
  to the call of a provider method, with the pause switch and policy enforcement in between.
  \<open>ctx_net\<close> is everything a provider acts on (the network, its tokens); a provider is looked up
  in the registry once, before the call may have to wait for the user.
\<close>

section \<open>Context and registry\<close>

record 'o DispatchContext = EnforceState +
  ctx_storage :: db
  ctx_providers :: "AccountId \<rightharpoonup> 'o MailProvider"
  ctx_mcp_paused :: bool
  ctx_net :: 'o

definition registry_insert :: "AccountId \<Rightarrow> 'o MailProvider \<Rightarrow> ('o, 'z) DispatchContext_scheme \<Rightarrow> ('o, 'z) DispatchContext_scheme" where
  "registry_insert i p s = s\<lparr>ctx_providers := (ctx_providers s)(i \<mapsto> p)\<rparr>"

definition registry_remove :: "AccountId \<Rightarrow> ('o, 'z) DispatchContext_scheme \<Rightarrow> ('o, 'z) DispatchContext_scheme" where
  "registry_remove i s = s\<lparr>ctx_providers := (ctx_providers s)(i := None)\<rparr>"

definition registry_get :: "AccountId \<Rightarrow> ('o, 'z) DispatchContext_scheme \<Rightarrow> 'o MailProvider option" where
  "registry_get i s = ctx_providers s i"

text \<open>Effects on one part of the context.\<close>

definition on_storage :: "(db, 'a) io \<Rightarrow> (('o, 'z) DispatchContext_scheme, 'a) io" where
  "on_storage m s = (case m (ctx_storage s) of (r, d) \<Rightarrow> (r, s\<lparr>ctx_storage := d\<rparr>))"

definition on_net :: "('o, 'a) io \<Rightarrow> (('o, 'z) DispatchContext_scheme, 'a) io" where
  "on_net m s = (case m (ctx_net s) of (r, n) \<Rightarrow> (r, s\<lparr>ctx_net := n\<rparr>))"

section \<open>Arguments\<close>

definition parse_account_id :: "crates \<Rightarrow> json \<Rightarrow> AccountId res" where
  "parse_account_id X args =
     res_bind (ok_or (Provider ''missing account_id'') (get_str ''account_id'' args)) (\<lambda>s.
     map_err (\<lambda>e. Provider (''bad account_id: '' @ e)) (account_id_from_str X s))"

record SendArgs =
  sa_account_id :: string
  sa_to :: "string list"
  sa_cc :: "string list"
  sa_bcc :: "string list"
  sa_subject :: string
  sa_body_text :: "string option"
  sa_body_html :: "string option"
  sa_in_reply_to :: "string option"
  sa_thread_id :: "string option"

definition de_send_args :: "json \<Rightarrow> SendArgs option" where
  "de_send_args value =
     (let v = struct_view 9 [''account_id'', ''to'', ''cc'', ''bcc'', ''subject'', ''body_text'', ''body_html'',
            ''in_reply_to'', ''thread_id''] value in
     Option.bind (de_required as_str ''account_id'' v) (\<lambda>account_id.
     Option.bind (de_required de_vec_string ''to'' v) (\<lambda>to.
     Option.bind (de_default [] de_vec_string ''cc'' v) (\<lambda>cc.
     Option.bind (de_default [] de_vec_string ''bcc'' v) (\<lambda>bcc.
     Option.bind (de_required as_str ''subject'' v) (\<lambda>subject.
     Option.bind (de_option as_str ''body_text'' v) (\<lambda>body_text.
     Option.bind (de_option as_str ''body_html'' v) (\<lambda>body_html.
     Option.bind (de_option as_str ''in_reply_to'' v) (\<lambda>in_reply_to.
     Option.bind (de_option as_str ''thread_id'' v) (\<lambda>thread_id.
     Some \<lparr>sa_account_id = account_id, sa_to = to, sa_cc = cc, sa_bcc = bcc,
           sa_subject = subject, sa_body_text = body_text, sa_body_html = body_html,
           sa_in_reply_to = in_reply_to, sa_thread_id = thread_id\<rparr>))))))))))"

record UpdateArgs =
  ua_draft_id :: string
  ua_to :: "string list"
  ua_cc :: "string list"
  ua_bcc :: "string list"
  ua_subject :: string
  ua_body_text :: "string option"
  ua_body_html :: "string option"

definition de_update_args :: "json \<Rightarrow> UpdateArgs option" where
  "de_update_args value =
     (let v = struct_view 7 [''draft_id'', ''to'', ''cc'', ''bcc'', ''subject'', ''body_text'', ''body_html''] value in
     Option.bind (de_required as_str ''draft_id'' v) (\<lambda>draft_id.
     Option.bind (de_required de_vec_string ''to'' v) (\<lambda>to.
     Option.bind (de_default [] de_vec_string ''cc'' v) (\<lambda>cc.
     Option.bind (de_default [] de_vec_string ''bcc'' v) (\<lambda>bcc.
     Option.bind (de_required as_str ''subject'' v) (\<lambda>subject.
     Option.bind (de_option as_str ''body_text'' v) (\<lambda>body_text.
     Option.bind (de_option as_str ''body_html'' v) (\<lambda>body_html.
     Some \<lparr>ua_draft_id = draft_id, ua_to = to, ua_cc = cc, ua_bcc = bcc,
           ua_subject = subject, ua_body_text = body_text, ua_body_html = body_html\<rparr>))))))))"

definition addrs :: "string list \<Rightarrow> EmailAddress list" where
  "addrs v = map (\<lambda>s. \<lparr>ea_email = s, ea_name = None\<rparr>) v"

definition draft_of_args :: "SendArgs \<Rightarrow> DraftInput" where
  "draft_of_args s = \<lparr>di_to = addrs (sa_to s), di_cc = addrs (sa_cc s), di_bcc = addrs (sa_bcc s),
     di_subject = sa_subject s, di_body_text = sa_body_text s, di_body_html = sa_body_html s,
     di_in_reply_to = map_option MessageId (sa_in_reply_to s),
     di_thread_id = map_option ThreadId (sa_thread_id s)\<rparr>"

definition outgoing_of_args :: "SendArgs \<Rightarrow> OutgoingMessage" where
  "outgoing_of_args s = \<lparr>om_to = addrs (sa_to s), om_cc = addrs (sa_cc s), om_bcc = addrs (sa_bcc s),
     om_subject = sa_subject s, om_body_text = sa_body_text s, om_body_html = sa_body_html s,
     om_in_reply_to = map_option MessageId (sa_in_reply_to s),
     om_thread_id = map_option ThreadId (sa_thread_id s)\<rparr>"

definition draft_of_update :: "UpdateArgs \<Rightarrow> DraftInput" where
  "draft_of_update s = \<lparr>di_to = addrs (ua_to s), di_cc = addrs (ua_cc s), di_bcc = addrs (ua_bcc s),
     di_subject = ua_subject s, di_body_text = ua_body_text s, di_body_html = ua_body_html s,
     di_in_reply_to = None, di_thread_id = None\<rparr>"

text \<open>Entries of \<open>message_ids\<close> that are not strings are skipped; a missing array is empty.\<close>

definition message_ids :: "json \<Rightarrow> MessageId list" where
  "message_ids args = (case get_array ''message_ids'' args of
      None \<Rightarrow> []
    | Some a \<Rightarrow> map MessageId (List.map_filter as_str a))"

definition str_or_empty :: "string \<Rightarrow> json \<Rightarrow> string" where
  "str_or_empty k args = unwrap_or '''' (get_str k args)"

text \<open>The limit is an unsigned 64-bit number cut to 32 bits.\<close>

definition search_query_of :: "json \<Rightarrow> SearchQuery" where
  "search_query_of args =
     \<lparr>q_text = get_str ''query'' args,
      q_folder = map_option FolderId (get_str ''folder_id'' args),
      q_label = map_option LabelId (get_str ''label_id'' args),
      q_limit = map_option ucast (get_u64 ''limit'' args),
      q_cursor = get_str ''cursor'' args\<rparr>"

section \<open>Execution\<close>

definition json_ok :: json where
  "json_ok = JObject [(''ok'', JBool True)]"

definition convert_send_to_draft :: "crates \<Rightarrow> 'o MailProvider \<Rightarrow> json \<Rightarrow> ('o, json) io" where
  "convert_send_to_draft X p args =
     io_bind (io_res (ok_or (Provider (''bad send args: '' @ serde_error X ''SendArgs'' args))
       (de_send_args args))) (\<lambda>s.
     io_bind (p_create_draft p (draft_of_args s)) (\<lambda>i.
     io_ret (JObject
       [(''result'', JString ''draft_created''),
        (''draft_id'', JString (draft_id_str i)),
        (''note'', JString (''Send was converted to a draft per user policy. '' @
           ''Please review and send from your mail client.''))])))"

text \<open>The arms of the match for drafts and sending, and those that are not for a provider.\<close>

definition execute_compose :: "crates \<Rightarrow> 'o MailProvider \<Rightarrow> string \<Rightarrow> json \<Rightarrow> ('o, json) io" where
  "execute_compose X p tool args =
     (if tool = ''create_draft'' then
        io_bind (io_res (ok_or (Provider (''bad args: '' @ serde_error X ''SendArgs'' args))
          (de_send_args args))) (\<lambda>s.
        io_bind (p_create_draft p (draft_of_args s)) (\<lambda>i.
        io_ret (JObject [(''draft_id'', JString (draft_id_str i))])))
      else if tool = ''update_draft'' then
        io_bind (io_res (ok_or (Provider (''bad args: '' @ serde_error X ''UpdateArgs'' args))
          (de_update_args args))) (\<lambda>s.
        io_bind (p_update_draft p (DraftId (ua_draft_id s)) (draft_of_update s)) (\<lambda>_.
        io_ret json_ok))
      else if tool = ''send_message'' then
        io_bind (io_res (ok_or (Provider (''bad args: '' @ serde_error X ''SendArgs'' args))
          (de_send_args args))) (\<lambda>s.
        io_bind (p_send_message p (outgoing_of_args s)) (\<lambda>i.
        io_ret (JObject [(''message_id'', JString (message_id_str i))])))
      else if tool = ''send_draft'' then
        io_bind (p_send_draft p (DraftId (str_or_empty ''draft_id'' args))) (\<lambda>i.
        io_ret (JObject [(''message_id'', JString (message_id_str i))]))
      else if tool = ''list_accounts'' then
        io_res (Panic ''list_accounts should be handled before dispatch'')
      else io_res (Err (NotFound (''tool '' @ tool))))"

definition execute :: "crates \<Rightarrow> 'o MailProvider \<Rightarrow> string \<Rightarrow> json \<Rightarrow> ('o, json) io" where
  "execute X p tool args =
     (if tool = ''search'' then
        io_bind (p_search p (search_query_of args)) (\<lambda>r. io_ret (search_results_json X r))
      else if tool = ''get_thread'' then
        io_bind (p_get_thread p (ThreadId (str_or_empty ''thread_id'' args)))
          (\<lambda>t. io_ret (thread_json X t))
      else if tool = ''get_message'' then
        io_bind (p_get_message p (MessageId (str_or_empty ''message_id'' args)))
          (\<lambda>m. io_ret (message_json X m))
      else if tool = ''list_folders'' then
        io_bind (p_list_folders p) (\<lambda>fs. io_ret (JArray (map folder_json fs)))
      else if tool = ''list_labels'' then
        io_bind (p_list_labels p) (\<lambda>ls. io_ret (JArray (map label_json ls)))
      else if tool = ''list_drafts'' then
        io_bind (p_list_drafts p) (\<lambda>ds. io_ret (JArray (map (draft_summary_json X) ds)))
      else if tool = ''mark_read'' then
        io_bind (p_mark_read p (message_ids args) (unwrap_or True (get_bool ''read'' args)))
          (\<lambda>_. io_ret json_ok)
      else if tool = ''star'' then
        io_bind (p_star p (message_ids args) (unwrap_or True (get_bool ''starred'' args)))
          (\<lambda>_. io_ret json_ok)
      else if tool = ''label'' then
        io_bind (p_label p (message_ids args) (LabelId (str_or_empty ''label_id'' args))
          (unwrap_or True (get_bool ''on'' args))) (\<lambda>_. io_ret json_ok)
      else if tool = ''move_to'' then
        io_bind (p_move_to p (message_ids args) (FolderId (str_or_empty ''folder_id'' args)))
          (\<lambda>_. io_ret json_ok)
      else if tool = ''archive'' then
        io_bind (p_archive p (message_ids args)) (\<lambda>_. io_ret json_ok)
      else if tool = ''trash'' then
        io_bind (p_trash p (message_ids args)) (\<lambda>_. io_ret json_ok)
      else if tool = ''untrash'' then
        io_bind (p_untrash p (message_ids args)) (\<lambda>_. io_ret json_ok)
      else execute_compose X p tool args)"

lemmas execute_defs = execute_def execute_compose_def

definition paused_message :: string where
  "paused_message = ''MCP is paused '' @ [CHR 0xE2, CHR 0x80, CHR 0x94] @
     '' open mail-mcp Settings to resume.''"

text \<open>What is done with the outcome of enforcement.\<close>

definition finish_call ::
  "crates \<Rightarrow> 'o MailProvider \<Rightarrow> ToolSpec \<Rightarrow> json \<Rightarrow> EnforceOutcome \<Rightarrow> (('o, 'z) DispatchContext_scheme, json) io" where
  "finish_call X provider tool args outcome = (case outcome of
      Blocked \<Rightarrow> io_res (Err (PermissionDenied (tool_name tool @ '': blocked by user policy'')))
    | ConvertToDraft \<Rightarrow>
        if tool_name tool = ''send_draft'' then
          io_ret (JObject
            [(''result'', JString ''send_held''),
             (''draft_id'', JString (str_or_empty ''draft_id'' args)),
             (''note'', JString (''Send was held per user policy. The draft remains in '' @
                ''your drafts folder; please review and send from your mail client.''))])
        else on_net (convert_send_to_draft X provider args)
    | Proceed \<Rightarrow> on_net (execute X provider (tool_name tool) args))"

definition tool_request :: "ToolSpec \<Rightarrow> AccountId \<Rightarrow> json \<Rightarrow> ApprovalRequest" where
  "tool_request tool account args =
     \<lparr>ar_account = account, ar_category = tool_category tool, ar_summary = tool_name tool,
      ar_details = args\<rparr>"

definition dispatch ::
  "crates \<Rightarrow> ('o, 'z) DispatchContext_ext approval_wait \<Rightarrow> ApprovalId \<Rightarrow> datetime \<Rightarrow> ToolSpec \<Rightarrow> json \<Rightarrow>
   (('o, 'z) DispatchContext_scheme, json) io" where
  "dispatch X wait i now tool args s =
     (if ctx_mcp_paused s then (Err (PermissionDenied paused_message), s)
      else io_bind (io_res (parse_account_id X args)) (\<lambda>account.
        io_bind (\<lambda>s. (ok_or (NotFound (''account '' @ account_id_to_string X account))
                        (registry_get account s), s)) (\<lambda>provider.
        io_bind (on_storage (for_account X account)) (\<lambda>perms.
        io_bind (enforce wait i now perms (tool_category tool) (tool_request tool account args))
          (finish_call X provider tool args)))) s)"

section \<open>The contract of a provider\<close>

text \<open>
  What dispatch relies on: every method keeps the invariant of the world it acts on, and under a
  condition on that world no method panics. Execution of any tool then does the same.
\<close>

locale mail_provider =
  fixes p :: "'w MailProvider" and I :: "'w \<Rightarrow> bool" and calm :: bool
  assumes safe_search: "safe calm I (p_search p q)"
    and safe_get_thread: "safe calm I (p_get_thread p tid)"
    and safe_get_message: "safe calm I (p_get_message p mid)"
    and safe_list_folders: "safe calm I (p_list_folders p)"
    and safe_list_labels: "safe calm I (p_list_labels p)"
    and safe_list_drafts: "safe calm I (p_list_drafts p)"
    and safe_mark_read: "safe calm I (p_mark_read p ids b)"
    and safe_star: "safe calm I (p_star p ids b)"
    and safe_label: "safe calm I (p_label p ids lid b)"
    and safe_move_to: "safe calm I (p_move_to p ids fid)"
    and safe_archive: "safe calm I (p_archive p ids)"
    and safe_trash: "safe calm I (p_trash p ids)"
    and safe_untrash: "safe calm I (p_untrash p ids)"
    and safe_create_draft: "safe calm I (p_create_draft p inp)"
    and safe_update_draft: "safe calm I (p_update_draft p did inp)"
    and safe_send_message: "safe calm I (p_send_message p msg)"
    and safe_send_draft: "safe calm I (p_send_draft p did)"
begin

lemmas safe_ops = safe_search safe_get_thread safe_get_message safe_list_folders safe_list_labels
  safe_list_drafts safe_mark_read safe_star safe_label safe_move_to safe_archive safe_trash
  safe_untrash safe_create_draft safe_update_draft safe_send_message safe_send_draft

lemma convert_send_to_draft_safe: "safe calm I (convert_send_to_draft X p args)"
  unfolding convert_send_to_draft_def by (intro safe_bind safe_ret safe_res safe_ops) simp

lemma execute_safe:
  assumes "tool \<noteq> ''list_accounts''"
  shows "safe calm I (execute X p tool args)"
  unfolding execute_defs
  by (intro safe_if safe_bind safe_ret safe_res safe_ops) (simp_all add: assms)

end

section \<open>Behaviour\<close>

lemma on_storage_for_account:
  assumes "db_wf (ctx_storage s)" "db_faults (ctx_storage s) = []"
  obtains perms where "on_storage (for_account X a) s = (Ok perms, s)"
    and "policy_for perms = policy_table X (ctx_storage s) a"
  using for_account_table [OF assms, of X a] by (fastforce simp: on_storage_def)

text \<open>
  On a healthy database, a call that names a registered account is enforcement under the stored
  policy followed by the matching action.
\<close>

lemma dispatch_unfold:
  assumes "\<not> ctx_mcp_paused s" "parse_account_id X args = Ok a" "ctx_providers s a = Some p"
    "db_wf (ctx_storage s)" "db_faults (ctx_storage s) = []"
  obtains perms where "policy_for perms = policy_table X (ctx_storage s) a"
    and "dispatch X wait i now tool args s =
      io_bind (enforce wait i now perms (tool_category tool) (tool_request tool a args))
        (finish_call X p tool args) s"
proof -
  obtain perms where perms: "on_storage (for_account X a) s = (Ok perms, s)"
    "policy_for perms = policy_table X (ctx_storage s) a"
    using on_storage_for_account [OF assms(4,5)] .
  moreover have "dispatch X wait i now tool args s =
      io_bind (enforce wait i now perms (tool_category tool) (tool_request tool a args))
        (finish_call X p tool args) s"
    using assms perms(1) by (simp add: dispatch_def registry_get_def io_bind_def)
  ultimately show ?thesis using that by blast
qed

lemma dispatch_silent:
  assumes "\<not> ctx_mcp_paused s" "parse_account_id X args = Ok a" "ctx_providers s a = Some p"
    "db_wf (ctx_storage s)" "db_faults (ctx_storage s) = []"
    "\<not> needs_user (policy_table X (ctx_storage s) a (tool_category tool)) (tool_category tool)
       (is_trusted (ctx_trust s) a (tool_category tool))"
  shows "dispatch X wait i now tool args s = finish_call X p tool args
    (silent_outcome (policy_table X (ctx_storage s) a (tool_category tool))) s"
proof -
  obtain perms where pol: "policy_for perms = policy_table X (ctx_storage s) a"
    and eq: "dispatch X wait i now tool args s =
      io_bind (enforce wait i now perms (tool_category tool) (tool_request tool a args))
        (finish_call X p tool args) s"
    using dispatch_unfold [OF assms(1-5)] .
  show ?thesis
    using assms(6) enforce_silent [of perms "tool_category tool" s "tool_request tool a args"]
    by (simp add: eq pol tool_request_def)
qed

lemma dispatch_asks:
  assumes "\<not> ctx_mcp_paused s" "parse_account_id X args = Ok a" "ctx_providers s a = Some p"
    "db_wf (ctx_storage s)" "db_faults (ctx_storage s) = []"
    "needs_user (policy_table X (ctx_storage s) a (tool_category tool)) (tool_category tool)
       (is_trusted (ctx_trust s) a (tool_category tool))"
    and q: "enqueue i now (tool_request tool a args) (ctx_approvals s) = ((j, fut), q)"
    and w: "wait fut (s\<lparr>ctx_approvals := q\<rparr>) = (Ok v, s')"
  shows "dispatch X wait i now tool args s =
    io_bind (after_answer (policy_table X (ctx_storage s) a (tool_category tool)) a (tool_category tool) v)
      (finish_call X p tool args) s'"
proof -
  obtain perms where pol: "policy_for perms = policy_table X (ctx_storage s) a"
    and eq: "dispatch X wait i now tool args s =
      io_bind (enforce wait i now perms (tool_category tool) (tool_request tool a args))
        (finish_call X p tool args) s"
    using dispatch_unfold [OF assms(1-5)] .
  have "enforce wait i now perms (tool_category tool) (tool_request tool a args) s =
      after_answer (policy_for perms (tool_category tool)) a (tool_category tool) v s'"
    using enforce_asks [where wait = wait, OF _ q w, of perms "tool_category tool"] assms(6)
    by (simp add: pol tool_request_def)
  then show ?thesis by (simp add: eq pol io_bind_def)
qed

text \<open>A provider that records which of its methods was called and succeeds.\<close>

definition recording_provider :: "string list MailProvider" where
  "recording_provider =
     (let log = (\<lambda>n r w. (Ok r, w @ [n])) in \<lparr>
        p_search = (\<lambda>q w. (Ok \<lparr>sr_threads = [], sr_next_cursor = None\<rparr>, w @ [''search''])),
        p_get_thread = (\<lambda>i w. (Ok \<lparr>t_id = i, t_subject = [], t_messages = []\<rparr>, w @ [''get_thread''])),
        p_get_message = (\<lambda>i w. (Ok
          \<lparr>m_id = i, m_thread_id = ThreadId [], m_from = None, m_to = [], m_cc = [], m_bcc = [],
           m_subject = [], m_date = 0, m_body_text = None, m_body_html = None, m_labels = [],
           m_folder = None, m_flags = \<lparr>mf_read = True, mf_starred = False, mf_draft = False\<rparr>,
           m_attachments = [], m_snippet = []\<rparr>, w @ [''get_message''])),
        p_list_folders = (\<lambda>w. (Ok [], w @ [''list_folders''])),
        p_list_labels = (\<lambda>w. (Ok [], w @ [''list_labels''])),
        p_list_drafts = (\<lambda>w. (Ok [], w @ [''list_drafts''])),
        p_mark_read = (\<lambda>ids b. log ''mark_read'' ()),
        p_star = (\<lambda>ids b. log ''star'' ()),
        p_label = (\<lambda>ids l b. log ''label'' ()),
        p_move_to = (\<lambda>ids f. log ''move_to'' ()),
        p_archive = (\<lambda>ids. log ''archive'' ()),
        p_trash = (\<lambda>ids. log ''trash'' ()),
        p_untrash = (\<lambda>ids. log ''untrash'' ()),
        p_create_draft = (\<lambda>d w. (Ok (DraftId ''d-fake''), w @ [''create_draft''])),
        p_update_draft = (\<lambda>i d. log ''update_draft'' ()),
        p_send_message = (\<lambda>m w. (Ok (MessageId ''m-fake''), w @ [''send_message''])),
        p_send_draft = (\<lambda>i w. (Ok (MessageId ''m-fake''), w @ [''send_draft'']))\<rparr>)"

lemma recording_provider_safe: "mail_provider recording_provider (\<lambda>_. True) True"
  by unfold_locales (simp_all add: recording_provider_def safe_def keeps_def panic_free_def)

lemmas on_defs = on_net_def on_storage_def

lemma on_net_panic: "is_panic (fst (on_net m s)) \<longleftrightarrow> is_panic (fst (m (ctx_net s)))"
  by (simp add: on_net_def split: prod.split)

lemma finish_call_no_panic:
  assumes "mail_provider p I True" "tool_name tool \<noteq> ''list_accounts''"
  shows "\<not> is_panic (fst (finish_call X p tool args v s))"
  using safeD(2) [OF mail_provider.execute_safe [OF assms] TrueI]
    safeD(2) [OF mail_provider.convert_send_to_draft_safe [OF assms(1)] TrueI]
  by (cases v) (simp_all add: finish_call_def on_net_panic)

lemma dispatch_no_panic:
  assumes "\<And>f. panic_free (wait f)"
    and "\<And>a p. ctx_providers s a = Some p \<Longrightarrow> mail_provider p I True"
    and "tool_name tool \<noteq> ''list_accounts''"
  shows "\<not> is_panic (fst (dispatch X wait i now tool args s))"
proof (cases "\<not> ctx_mcp_paused s \<and> is_ok (parse_account_id X args)")
  case False
  moreover have "\<not> is_panic (parse_account_id X args)" by (simp add: parse_account_id_def)
  ultimately show ?thesis
    by (cases "parse_account_id X args") (auto simp: dispatch_def io_bind_def)
next
  case True
  then obtain a where a: "parse_account_id X args = Ok a" by (cases "parse_account_id X args") auto
  show ?thesis
  proof (cases "ctx_providers s a")
    case None
    with True a show ?thesis by (simp add: dispatch_def registry_get_def io_bind_def)
  next
    case (Some p)
    note contract = assms(2) [OF Some]
    have "panic_free (on_storage (for_account X a))"
      using for_account_panic_free [of X a] by (simp add: panic_free_def on_storage_def case_prod_unfold)
    moreover have "panic_free (io_bind (enforce wait i now perms c req) (finish_call X p tool args))" for perms c req
      by (intro panic_free_bind enforce_panic_free assms(1))
        (simp add: panic_free_def finish_call_no_panic [OF contract assms(3)])
    ultimately have "panic_free (io_bind (on_storage (for_account X a)) (\<lambda>perms.
        io_bind (enforce wait i now perms (tool_category tool) (tool_request tool a args))
          (finish_call X p tool args)))"
      by (rule panic_free_bind)
    with True a Some show ?thesis
      by (simp add: dispatch_def registry_get_def io_bind_def panic_free_def)
  qed
qed

section \<open>Properties\<close>

definition demo_args :: json where
  "demo_args = JObject [(''account_id'', JString ''u''), (''to'', JArray [JString ''alice@example.com'']),
     (''subject'', JString ''Hi''), (''message_ids'', JArray [JString ''m1'']), (''draft_id'', JString ''d-123'')]"

definition demo_row :: AccountRow where
  "demo_row = \<lparr>row_id = ''u'', row_label = ''x'', row_provider = ''gmail'', row_email = ''x@x'',
     row_config_json = ''{}'', row_scopes_json = ''[]'', row_created_at = 0, row_last_validated = None\<rparr>"

definition demo_ctx :: "(string \<times> string) list \<Rightarrow> string list DispatchContext" where
  "demo_ctx pol = \<lparr>ctx_approvals = approval_queue_new 300, ctx_trust = Map.empty,
     ctx_storage = empty_db\<lparr>accounts := [demo_row], permissions := map (\<lambda>(c, p). ((''u'', c), p)) pol\<rparr>,
     ctx_providers = [AccountId 1 \<mapsto> recording_provider], ctx_mcp_paused = False, ctx_net = []\<rparr>"

lemma demo_parse [simp]: "parse_account_id (sample_crates tbl) demo_args = Ok (AccountId 1)"
  by (simp add: parse_account_id_def demo_args_def json_simps account_id_from_str_def sample_crates_def)

lemma demo_send_args [simp]:
  "de_send_args demo_args = Some \<lparr>sa_account_id = ''u'', sa_to = [''alice@example.com''], sa_cc = [],
     sa_bcc = [], sa_subject = ''Hi'', sa_body_text = None, sa_body_html = None,
     sa_in_reply_to = None, sa_thread_id = None\<rparr>"
  by (simp add: demo_args_def de_send_args_def de_defs Let_def)

lemma demo_ctx_simps [simp]:
  "ctx_mcp_paused (demo_ctx pol) = False" "ctx_providers (demo_ctx pol) (AccountId 1) = Some recording_provider"
  "db_faults (ctx_storage (demo_ctx pol)) = []" "ctx_net (demo_ctx pol) = []"
  "ctx_trust (demo_ctx pol) = Map.empty" "ctx_approvals (demo_ctx pol) = approval_queue_new 300"
  by (simp_all add: demo_ctx_def empty_db_def)

lemma demo_policy:
  "policy_table (sample_crates tbl) (ctx_storage (demo_ctx [(category_as_str c, policy_as_str p)])) (AccountId 1) c = p"
  by (simp add: policy_table_def demo_ctx_def account_id_to_string_def sample_crates_def)

lemma demo_wf: "db_wf (ctx_storage (demo_ctx [(category_as_str c, policy_as_str p)]))"
  by (simp add: db_wf_def demo_ctx_def empty_db_def demo_row_def provider_check_def)



lemma finish_call_blocked: "finish_call X p tool args Blocked s =
    (Err (PermissionDenied (tool_name tool @ '': blocked by user policy'')), s)"
  by (simp add: finish_call_def)

lemma dispatch_not_silent_wait:
  assumes "\<not> ctx_mcp_paused s" "parse_account_id X args = Ok a" "ctx_providers s a = Some p"
    "db_wf (ctx_storage s)" "db_faults (ctx_storage s) = []"
    "needs_user (policy_table X (ctx_storage s) a (tool_category tool)) (tool_category tool)
       (is_trusted (ctx_trust s) a (tool_category tool))"
    and q: "enqueue i now (tool_request tool a args) (ctx_approvals s) = ((j, fut), q)"
    and w: "wait fut (s\<lparr>ctx_approvals := q\<rparr>) = (r, s')" "r \<noteq> Ok Approved"
  shows "snd (dispatch X wait i now tool args s) = s'"
proof -
  obtain perms where pol: "policy_for perms = policy_table X (ctx_storage s) a"
    and eq: "dispatch X wait i now tool args s =
      io_bind (enforce wait i now perms (tool_category tool) (tool_request tool a args))
        (finish_call X p tool args) s"
    using dispatch_unfold [OF assms(1-5)] .
  have nu: "needs_user (policy_for perms (tool_category tool)) (tool_category tool)
      (is_trusted (ctx_trust s) (ar_account (tool_request tool a args)) (tool_category tool))"
    using assms(6) by (simp add: pol tool_request_def)
  show ?thesis
  proof (cases r)
    case (Ok v)
    then show ?thesis
      using enforce_asks [where wait = wait, OF nu q] w
      by (simp add: eq io_bind_def after_answer_def finish_call_blocked)
  next
    case (Err e)
    then show ?thesis
      using enforce_wait_error [where wait = wait, OF nu q] w by (simp add: eq io_bind_def)
  next
    case (Panic m)
    then show ?thesis
      using nu q w
      by (cases "policy_for perms (tool_category tool)")
        (auto simp: eq io_bind_def enforce_def ask_confirm_def needs_user_def tool_request_def)
  qed
qed

text \<open>
  C1: No provider call without permission. If a tool call changes what a provider acts on, then
  the daemon is not paused, the arguments name a registered account, and either the stored
  policy lets the category through silently (allow, a trusted session, or draftify for a send
  other than \<open>send_draft\<close>) or the user was asked for this very call and approved it. In
  particular a blocked category never reaches a provider. (Other tasks may run while the call
  waits; the statement is about this call, so \<open>wait\<close> is taken to leave the network alone.)
\<close>

theorem provider_called_only_with_permission:
  assumes "db_wf (ctx_storage s)" "db_faults (ctx_storage s) = []"
    and "\<And>f t. ctx_net (snd (wait f t)) = ctx_net t"
    and "ctx_net (snd (dispatch X wait i now tool args s)) \<noteq> ctx_net s"
  shows "\<not> ctx_mcp_paused s \<and> (\<exists>a p. parse_account_id X args = Ok a \<and> ctx_providers s a = Some p \<and>
    (let pol = policy_table X (ctx_storage s) a (tool_category tool) in
       pol = Allow \<or> pol = Session \<and> is_trusted (ctx_trust s) a (tool_category tool) \<or>
       pol = Draftify \<and> tool_category tool = Send \<and> tool_name tool \<noteq> ''send_draft'' \<or>
       pol \<noteq> Block \<and> (\<exists>j fut q s'.
         enqueue i now (tool_request tool a args) (ctx_approvals s) = ((j, fut), q) \<and>
         wait fut (s\<lparr>ctx_approvals := q\<rparr>) = (Ok Approved, s'))))"
proof -
  have np: "\<not> ctx_mcp_paused s" using assms(4) by (auto simp: dispatch_def)
  then obtain a where a: "parse_account_id X args = Ok a"
    using assms(4) by (cases "parse_account_id X args") (auto simp: dispatch_def io_bind_def)
  then obtain p where p: "ctx_providers s a = Some p"
    using assms(4) np by (cases "ctx_providers s a") (auto simp: dispatch_def io_bind_def registry_get_def)
  let ?c = "tool_category tool"
  let ?pol = "policy_table X (ctx_storage s) a ?c"
  show ?thesis
  proof (cases "needs_user ?pol ?c (is_trusted (ctx_trust s) a ?c)")
    case False
    have "dispatch X wait i now tool args s = finish_call X p tool args (silent_outcome ?pol) s"
      by (rule dispatch_silent [OF np a p assms(1,2) False])
    then have "?pol \<noteq> Block" "?pol = Draftify \<Longrightarrow> tool_name tool \<noteq> ''send_draft''"
      using assms(4) by (auto simp: finish_call_def)
    with False np a p show ?thesis by (cases ?pol) (auto simp: needs_user_def)
  next
    case True
    obtain j fut q where q: "enqueue i now (tool_request tool a args) (ctx_approvals s) = ((j, fut), q)"
      by (metis prod.exhaust)
    obtain r s' where w: "wait fut (s\<lparr>ctx_approvals := q\<rparr>) = (r, s')" by (metis prod.exhaust)
    have "r = Ok Approved"
    proof (rule ccontr)
      assume "r \<noteq> Ok Approved"
      then have "snd (dispatch X wait i now tool args s) = s'"
        by (rule dispatch_not_silent_wait [where wait = wait, OF np a p assms(1,2) True q w])
      with assms(3) [of fut "s\<lparr>ctx_approvals := q\<rparr>"] assms(4) w show False by simp
    qed
    with True np a p q w show ?thesis by (auto simp: needs_user_def)
  qed
qed

theorem provider_called_only_with_permission_witness:
  "ctx_net (snd (dispatch (sample_crates []) (\<lambda>f. io_ret Approved) (ApprovalId 7) 0 tool_trash demo_args
       (demo_ctx [(category_as_str Trash, policy_as_str Confirm)]))) = [''trash''] \<and>
     policy_table (sample_crates []) (ctx_storage (demo_ctx [(category_as_str Trash, policy_as_str Confirm)]))
       (AccountId 1) Trash \<noteq> Block"
proof -
  let ?s = "demo_ctx [(category_as_str Trash, policy_as_str Confirm)]"
  let ?w = "\<lambda>f. io_ret Approved"
  obtain j fut q where q: "enqueue (ApprovalId 7) 0 (tool_request tool_trash (AccountId 1) demo_args)
      (ctx_approvals ?s) = ((j, fut), q)"
    by (metis prod.exhaust)
  have pol: "policy_table (sample_crates []) (ctx_storage ?s) (AccountId 1) Trash = Confirm"
    by (rule demo_policy)
  have "dispatch (sample_crates []) ?w (ApprovalId 7) 0 tool_trash demo_args ?s =
    io_bind (after_answer Confirm (AccountId 1) Trash Approved)
      (finish_call (sample_crates []) recording_provider tool_trash demo_args) (?s\<lparr>ctx_approvals := q\<rparr>)"
    using dispatch_asks [where wait = ?w and s = ?s and X = "sample_crates []" and args = demo_args
        and tool = tool_trash, OF _ demo_parse demo_ctx_simps(2) demo_wf _ _ q] pol
    by (simp add: needs_user_def del: category_as_str.simps policy_as_str.simps)
  then have net: "ctx_net (snd (dispatch (sample_crates []) ?w (ApprovalId 7) 0 tool_trash demo_args ?s)) = [''trash'']"
    by (simp add: after_answer_def io_bind_def finish_call_def on_net_def execute_defs recording_provider_def
        del: category_as_str.simps policy_as_str.simps)
  have "\<exists>a p. parse_account_id (sample_crates []) demo_args = Ok a \<and> ctx_providers ?s a = Some p \<and>
      policy_table (sample_crates []) (ctx_storage ?s) a (tool_category tool_trash) \<noteq> Block"
    using provider_called_only_with_permission [of ?s ?w "sample_crates []" "ApprovalId 7" 0 tool_trash demo_args]
      demo_wf [of Trash Confirm] net
    by (auto simp: Let_def simp del: category_as_str.simps policy_as_str.simps)
  with net show ?thesis by simp
qed

text \<open>
  Every tool of the catalogue but \<open>list_accounts\<close> is routed to the provider method of its own
  name: against a provider that records its calls, execution either makes exactly that one call,
  or rejects malformed arguments and makes none; a name outside the catalogue is "not found".
\<close>

lemma tools_are_routed_by_name:
  "(\<forall>n \<in> set (map tool_name tools) - {''list_accounts''}.
      (\<exists>v. execute X recording_provider n args w = (Ok v, w @ [n])) \<or>
      (\<exists>m. execute X recording_provider n args w = (Err (Provider m), w))) \<and>
   (\<forall>n. n \<notin> set (map tool_name tools) \<longrightarrow>
      execute X recording_provider n args w = (Err (NotFound (''tool '' @ n)), w))"
proof (intro conjI ballI allI impI)
  fix n assume "n \<in> set (map tool_name tools) - {''list_accounts''}"
  then show "(\<exists>v. execute X recording_provider n args w = (Ok v, w @ [n])) \<or>
      (\<exists>m. execute X recording_provider n args w = (Err (Provider m), w))"
    unfolding tool_names
    by (cases "de_send_args args"; cases "de_update_args args")
      (auto simp: execute_defs recording_provider_def io_bind_def Let_def)
next
  fix n assume "n \<notin> set (map tool_name tools)"
  then show "execute X recording_provider n args w = (Err (NotFound (''tool '' @ n)), w)"
    unfolding tool_names by (simp add: execute_defs)
qed

lemma tools_are_routed_by_name_example:
  "''archive'' \<in> set (map tool_name tools) - {''list_accounts''} \<and>
   (\<exists>v. execute (sample_crates []) recording_provider ''archive'' demo_args [] = (Ok v, [''archive'']))"
proof
  show mem: "''archive'' \<in> set (map tool_name tools) - {''list_accounts''}" by (simp add: tool_names)
  have "\<not> (\<exists>m. execute (sample_crates []) recording_provider ''archive'' demo_args [] = (Err (Provider m), []))"
    by (simp add: execute_defs recording_provider_def io_bind_def)
  then show "\<exists>v. execute (sample_crates []) recording_provider ''archive'' demo_args [] = (Ok v, [''archive''])"
    using tools_are_routed_by_name [of "sample_crates []" demo_args "[]"] mem by force
qed

text \<open>
  The limit of a search is cut to 32 bits without a check: the provider gets the remainder
  modulo \<open>2^32\<close>, so a limit of exactly \<open>2^32\<close> asks for nothing, although the schema
  announces a range of 1 to 100.
\<close>

lemma search_limit_wraps:
  assumes "get_u64 ''limit'' args = Some n"
  shows "\<exists>l. q_limit (search_query_of args) = Some l \<and> unat l = unat n mod 2 ^ 32"
  using assms by (simp add: search_query_of_def unsigned_ucast_eq take_bit_eq_mod)

lemma search_limit_wraps_example:
  "\<exists>l. q_limit (search_query_of (JObject [(''limit'', JNumber (PosInt 4294967297))])) = Some l \<and> unat l = 1"
  using search_limit_wraps [of "JObject [(''limit'', JNumber (PosInt 4294967297))]" 4294967297]
  by (simp add: json_simps)

text \<open>
  A call that has to be confirmed is settled by the answer: an approval executes the tool on
  the provider that was registered when the call arrived, in the state at the moment of the
  answer (under the session policy after trust was recorded); a rejection or a timeout refuses it
  and changes nothing more.
\<close>

lemma confirmed_call_follows_answer:
  assumes "\<not> ctx_mcp_paused s" "parse_account_id X args = Ok a" "ctx_providers s a = Some p"
    "db_wf (ctx_storage s)" "db_faults (ctx_storage s) = []"
    "needs_user (policy_table X (ctx_storage s) a (tool_category tool)) (tool_category tool)
       (is_trusted (ctx_trust s) a (tool_category tool))"
    and "enqueue i now (tool_request tool a args) (ctx_approvals s) = ((j, fut), q)"
    and "wait fut (s\<lparr>ctx_approvals := q\<rparr>) = (Ok v, s')"
  shows "dispatch X wait i now tool args s =
    (if v = Approved then
       on_net (execute X p (tool_name tool) args)
         (if policy_table X (ctx_storage s) a (tool_category tool) = Session
          then s'\<lparr>ctx_trust := grant a (tool_category tool) (ctx_trust s')\<rparr> else s')
     else (Err (PermissionDenied (tool_name tool @ '': blocked by user policy'')), s'))"
  using dispatch_asks [where wait = wait, OF assms]
  by (simp add: after_answer_def io_bind_def finish_call_def)

lemma confirmed_call_follows_answer_example:
  "\<exists>s'. dispatch (sample_crates []) (\<lambda>f. io_ret Rejected) (ApprovalId 7) 0 tool_trash demo_args
       (demo_ctx [(category_as_str Trash, policy_as_str Confirm)]) =
     (Err (PermissionDenied ''trash: blocked by user policy''), s') \<and> ctx_net s' = []"
proof -
  let ?s = "demo_ctx [(category_as_str Trash, policy_as_str Confirm)]"
  let ?w = "\<lambda>f. io_ret Rejected"
  obtain j fut q where q: "enqueue (ApprovalId 7) 0 (tool_request tool_trash (AccountId 1) demo_args)
      (ctx_approvals ?s) = ((j, fut), q)"
    by (metis prod.exhaust)
  show ?thesis
    using confirmed_call_follows_answer [where wait = ?w and s = ?s and X = "sample_crates []"
        and args = demo_args and tool = tool_trash, OF _ demo_parse demo_ctx_simps(2) demo_wf _ _ q]
      demo_policy [of "[]" Trash Confirm]
    by (simp add: needs_user_def del: category_as_str.simps policy_as_str.simps)
qed

end
