(* ===== verification/Mcp_Server.thy ===== *)
theory Mcp_Server
  imports Dispatch Rust_Str
begin

text \<open>
  The HTTP side of MCP (\<^verbatim>\<open>mcp/server.rs\<close>): the bearer check, JSON-RPC requests and answers, and
  the handlers of the three routes. Routing and the parsing of the HTTP request are axum's; a
  handler gets the header map and the decoded body. A panic of a handler is the result \<^const>\<open>Panic\<close>.
\<close>

record ServerInfo =
  si_name :: string
  si_version :: string

record McpState =
  mcp_bearer_token :: string
  mcp_server_info :: ServerInfo

record JsonRpcReq =
  rpc_id :: json
  rpc_method :: string
  rpc_params :: json

definition de_json_rpc_req :: "json \<Rightarrow> JsonRpcReq option" where
  "de_json_rpc_req value =
     (let v = struct_view 2 [''id'', ''method'', ''params''] value in
     Option.bind (de_default JNull Some ''id'' v) (\<lambda>i.
     Option.bind (de_required as_str ''method'' v) (\<lambda>m.
     Option.bind (de_default JNull Some ''params'' v) (\<lambda>p.
     Some \<lparr>rpc_id = i, rpc_method = m, rpc_params = p\<rparr>))))"

definition i32_json :: "int \<Rightarrow> json" where
  "i32_json n = JNumber (if n < 0 then NegInt (word_of_int n) else PosInt (word_of_int n))"

definition rpc_ok :: "json \<Rightarrow> json \<Rightarrow> json" where
  "rpc_ok i result = JObject [(''jsonrpc'', JString ''2.0''), (''id'', i), (''result'', result)]"

definition rpc_err :: "json \<Rightarrow> int \<Rightarrow> string \<Rightarrow> json" where
  "rpc_err i code message = JObject [(''jsonrpc'', JString ''2.0''), (''id'', i),
     (''error'', JObject [(''code'', i32_json code), (''message'', JString message)])]"

type_synonym headers = "(string \<times> string) list"

definition check_auth :: "crates \<Rightarrow> headers \<Rightarrow> string \<Rightarrow> bool" where
  "check_auth X headers expected = (case map_of headers ''authorization'' of
      None \<Rightarrow> False
    | Some h \<Rightarrow> (case header_to_str X h of
        None \<Rightarrow> False
      | Some s \<Rightarrow> (case strip_prefix ''Bearer '' s of Some t \<Rightarrow> t = expected | None \<Rightarrow> False)))"

definition tool_list_entry :: "ToolSpec \<Rightarrow> json" where
  "tool_list_entry t = JObject
     [(''name'', JString (tool_name t)), (''description'', JString (tool_description t)),
      (''inputSchema'', tool_input_schema t)]"

definition initialize_result :: "ServerInfo \<Rightarrow> json" where
  "initialize_result info = JObject
     [(''protocolVersion'', JString ''2025-06-18''),
      (''capabilities'', JObject [(''tools'', JObject [(''listChanged'', JBool False)])]),
      (''serverInfo'', JObject [(''name'', JString (si_name info)), (''version'', JString (si_version info))])]"

definition tool_result :: "crates \<Rightarrow> json \<Rightarrow> json" where
  "tool_result X v = JObject
     [(''content'', JArray [JObject [(''type'', JString ''text''), (''text'', JString (json_to_string X v))]]),
      (''structuredContent'', v), (''isError'', JBool False)]"

text \<open>The branch \<open>tools/call\<close>.\<close>

definition tools_call ::
  "crates \<Rightarrow> ('o, 'z) DispatchContext_ext approval_wait \<Rightarrow> ApprovalId \<Rightarrow> datetime \<Rightarrow> JsonRpcReq \<Rightarrow>
   (('o, 'z) DispatchContext_scheme, json) io" where
  "tools_call X wait i now req s =
     (let name = str_or_empty ''name'' (rpc_params req);
          args = unwrap_or JNull (json_get ''arguments'' (rpc_params req))
      in if name = ''list_accounts'' then
           (case on_storage (account_list X) s of
              (Ok accs, s') \<Rightarrow> (Ok (rpc_ok (rpc_id req) (tool_result X (JArray (map (account_json X) accs)))), s')
            | (Err e, s') \<Rightarrow> (Ok (rpc_ok (rpc_id req) (tool_result X JNull)), s')
            | (Panic m, s') \<Rightarrow> (Panic m, s'))
         else (case find_tool name of
              Some tool \<Rightarrow> (case dispatch X wait i now tool args s of
                  (Ok v, s') \<Rightarrow> (Ok (rpc_ok (rpc_id req) (tool_result X v)), s')
                | (Err e, s') \<Rightarrow> (Ok (rpc_err (rpc_id req) (-32000) (error_to_string e)), s')
                | (Panic m, s') \<Rightarrow> (Panic m, s'))
            | None \<Rightarrow> (Ok (rpc_err (rpc_id req) (-32601) (''unknown tool: '' @ name)), s)))"

definition handle_post ::
  "crates \<Rightarrow> McpState \<Rightarrow> ('o, 'z) DispatchContext_ext approval_wait \<Rightarrow> ApprovalId \<Rightarrow> datetime \<Rightarrow> headers \<Rightarrow> JsonRpcReq \<Rightarrow>
   (('o, 'z) DispatchContext_scheme, nat \<times> json) io" where
  "handle_post X st wait i now headers req =
     (if \<not> check_auth X headers (mcp_bearer_token st) then
        io_ret (401, rpc_err (rpc_id req) (-32001) ''missing or invalid bearer token'')
      else io_bind
        (if rpc_method req = ''initialize'' then
           io_ret (rpc_ok (rpc_id req) (initialize_result (mcp_server_info st)))
         else if rpc_method req = ''ping'' then
           io_ret (rpc_ok (rpc_id req) (JObject []))
         else if rpc_method req = ''tools/list'' then
           io_ret (rpc_ok (rpc_id req) (JObject [(''tools'', JArray (map tool_list_entry tools))]))
         else if rpc_method req = ''tools/call'' then
           tools_call X wait i now req
         else
           io_ret (rpc_err (rpc_id req) (-32601) (''method not found: '' @ rpc_method req)))
        (\<lambda>resp. io_ret (200, resp)))"

definition handle_sse :: "crates \<Rightarrow> McpState \<Rightarrow> headers \<Rightarrow> nat \<times> string option" where
  "handle_sse X st headers =
     (if \<not> check_auth X headers (mcp_bearer_token st) then (401, Some ''unauthorized'')
      else (200, None))"

definition handle_health :: "nat \<times> string" where
  "handle_health = (200, ''ok'')"

section \<open>Behaviour\<close>

lemma check_auth_iff:
  "check_auth X hs tok \<longleftrightarrow>
     (\<exists>h. map_of hs ''authorization'' = Some h \<and> header_to_str X h = Some (''Bearer '' @ tok))"
  by (auto simp: check_auth_def strip_prefix_def prefix_def split: option.splits if_splits)

lemma account_list_panic_free: "panic_free (account_list X)"
proof -
  have "\<not> is_panic (into_account X r)" for r
    by (simp add: into_account_def json_from_text_def strings_from_text_def)
  then show ?thesis
    unfolding account_list_def
    by (intro panic_free_bind panic_free_res collect_res_no_panic)
      (auto simp: sql_select_accounts_def intro: sql_panic_free)
qed

lemma tools_call_no_panic:
  assumes "\<And>f. panic_free (wait f)"
    and "\<And>a p. ctx_providers s a = Some p \<Longrightarrow> mail_provider p I True"
  shows "\<not> is_panic (fst (tools_call X wait i now req s))"
proof (cases "str_or_empty ''name'' (rpc_params req) = ''list_accounts''")
  case True
  have "\<not> is_panic (fst (on_storage (account_list X) s))"
    using account_list_panic_free [of X] by (simp add: panic_free_def on_storage_def case_prod_unfold)
  with True show ?thesis by (auto simp: tools_call_def split: prod.splits res.splits)
next
  case False
  show ?thesis
  proof (cases "find_tool (str_or_empty ''name'' (rpc_params req))")
    case None
    with False show ?thesis by (simp add: tools_call_def Let_def)
  next
    case (Some tool)
    then have "tool_name tool \<noteq> ''list_accounts''" using find_tool_name False by metis
    from dispatch_no_panic [where wait = wait, OF assms this]
    have "\<not> is_panic (fst (dispatch X wait i now tool args s))" for args by simp
    with False Some show ?thesis
      by (auto simp: tools_call_def Let_def split: prod.splits res.splits) (metis fst_conv is_panic.simps(3))
  qed
qed

lemma handle_post_responds:
  assumes "\<And>f. panic_free (wait f)"
    and "\<And>a p. ctx_providers s a = Some p \<Longrightarrow> mail_provider p I True"
  shows "\<exists>status body. fst (handle_post X st wait i now headers req s) = Ok (status, body)"
proof -
  have "\<not> is_panic (fst (tools_call X wait i now req s))"
    by (rule tools_call_no_panic [where wait = wait, OF assms])
  moreover have "\<forall>e s'. tools_call X wait i now req s \<noteq> (Err e, s')"
    by (auto simp: tools_call_def Let_def split: prod.splits res.splits option.splits if_splits)
  ultimately have "\<exists>v s'. tools_call X wait i now req s = (Ok v, s')"
    by (metis fst_conv is_panic.simps(3) prod.exhaust res.exhaust)
  then show ?thesis by (auto simp: handle_post_def)
qed

section \<open>Properties\<close>

text \<open>
  C15: Without the exact bearer token nothing happens: the answer has status 401 and carries no
  data, and the state of the daemon is untouched; the token is accepted only when the header is
  literally \<open>Bearer\<close>, one space, and the token.
\<close>

theorem unauthenticated_post_is_inert:
  assumes "\<nexists>h. map_of headers ''authorization'' = Some h \<and>
    header_to_str X h = Some (''Bearer '' @ mcp_bearer_token st)"
  shows "handle_post X st wait i now headers req s =
      (Ok (401, rpc_err (rpc_id req) (-32001) ''missing or invalid bearer token''), s) \<and>
    handle_sse X st headers = (401, Some ''unauthorized'')"
  using assms by (simp add: handle_post_def handle_sse_def check_auth_iff)

definition demo_mcp :: McpState where
  "demo_mcp = \<lparr>mcp_bearer_token = ''tok'', mcp_server_info = \<lparr>si_name = ''mail-mcp'', si_version = ''0.1.0''\<rparr>\<rparr>"

definition demo_rpc :: "string \<Rightarrow> json \<Rightarrow> JsonRpcReq" where
  "demo_rpc m p = \<lparr>rpc_id = JNumber (PosInt 1), rpc_method = m, rpc_params = p\<rparr>"

theorem unauthenticated_post_is_inert_witness:
  "handle_post (sample_crates []) demo_mcp (\<lambda>f. io_ret Approved) (ApprovalId 7) 0 [(''authorization'', ''bearer tok'')]
     (demo_rpc ''ping'' JNull) (demo_ctx []) =
   (Ok (401, rpc_err (JNumber (PosInt 1)) (-32001) ''missing or invalid bearer token''), demo_ctx [])"
  using unauthenticated_post_is_inert [of "[(''authorization'', ''bearer tok'')]" "sample_crates []" demo_mcp
      "\<lambda>f. io_ret Approved" "ApprovalId 7" 0 "demo_rpc ''ping'' JNull" "demo_ctx []"]
  by (simp add: sample_crates_def demo_mcp_def demo_rpc_def)



text \<open>
  \<open>list_accounts\<close> is outside the pause switch and outside the policies: an authenticated
  client gets the account list whatever the state of the switch, the registry and the stored
  policies, and only the database is read.
\<close>

lemma list_accounts_bypasses_pause:
  assumes "check_auth X headers (mcp_bearer_token st)" and "rpc_method req = ''tools/call''"
    and "get_str ''name'' (rpc_params req) = Some ''list_accounts''"
    and "account_list X (ctx_storage s) = (Ok accs, d)"
  shows "handle_post X st wait i now headers req (s\<lparr>ctx_mcp_paused := b\<rparr>) =
    (Ok (200, rpc_ok (rpc_id req) (tool_result X (JArray (map (account_json X) accs)))),
     s\<lparr>ctx_mcp_paused := b, ctx_storage := d\<rparr>)"
  using assms by (simp add: handle_post_def tools_call_def str_or_empty_def on_storage_def)

lemma list_accounts_bypasses_pause_example:
  "\<exists>body. handle_post (sample_crates []) demo_mcp (\<lambda>f. io_ret Approved) (ApprovalId 7) 0
      [(''authorization'', ''Bearer tok'')]
      (demo_rpc ''tools/call'' (JObject [(''name'', JString ''list_accounts'')]))
      (demo_ctx []\<lparr>ctx_storage := empty_db, ctx_mcp_paused := True\<rparr>) =
    (Ok (200, body), demo_ctx []\<lparr>ctx_storage := empty_db, ctx_mcp_paused := True\<rparr>)"
proof -
  let ?s = "demo_ctx []\<lparr>ctx_storage := empty_db\<rparr>"
  have 1: "check_auth (sample_crates []) [(''authorization'', ''Bearer tok'')] (mcp_bearer_token demo_mcp)"
    by (simp add: check_auth_iff sample_crates_def demo_mcp_def)
  have 4: "account_list (sample_crates []) (ctx_storage ?s) = (Ok [], empty_db)"
    by (simp add: account_list_def sql_select_accounts_def sql_def io_bind_def empty_db_def)
  show ?thesis
    using list_accounts_bypasses_pause [OF 1 _ _ 4, of "demo_rpc ''tools/call'' (JObject [(''name'', JString ''list_accounts'')])"
        "\<lambda>f. io_ret Approved" "ApprovalId 7" 0 True]
    by (simp add: demo_rpc_def json_simps)
qed

end
