(* ===== verification/Ipc.thy ===== *)
theory Ipc
  imports Mcp_Server
begin

text \<open>
  The IPC protocol between the daemon and its local clients (\<^verbatim>\<open>ipc/messages.rs\<close>, \<^verbatim>\<open>ipc/server.rs\<close>):
  the messages with their JSON, error codes, and one connection as a state machine over the lines
  it reads, the notifications that arrive meanwhile and the failures of either direction. The handler
  behind the server is the parameter of the connection, as the trait object is in the code. A
  request is served without a notification in the middle of it (the handler does not look at the
  subscription, so a notification that arrives while it runs is one that arrives just before the request).
\<close>

section \<open>Messages\<close>

datatype AccountStatus = StatusOk | NeedsReauth | NetworkError

primrec account_status_as_str :: "AccountStatus \<Rightarrow> string" where
  "account_status_as_str StatusOk = ''ok''"
| "account_status_as_str NeedsReauth = ''needs_reauth''"
| "account_status_as_str NetworkError = ''network_error''"

record AccountListItem =
  ali_id :: AccountId
  ali_label :: string
  ali_provider :: string
  ali_email :: string
  ali_status :: AccountStatus

definition account_list_item_json :: "crates \<Rightarrow> AccountListItem \<Rightarrow> json" where
  "account_list_item_json X a = JObject
     [(''id'', JString (account_id_to_string X (ali_id a))), (''label'', JString (ali_label a)),
      (''provider'', JString (ali_provider a)), (''email'', JString (ali_email a)),
      (''status'', JString (account_status_as_str (ali_status a)))]"

record PermissionMap =
  pm_read :: Policy
  pm_modify :: Policy
  pm_trash :: Policy
  pm_draft :: Policy
  pm_send :: Policy

definition permission_map_json :: "PermissionMap \<Rightarrow> json" where
  "permission_map_json m = JObject
     [(''read'', JString (policy_as_str (pm_read m))), (''modify'', JString (policy_as_str (pm_modify m))),
      (''trash'', JString (policy_as_str (pm_trash m))), (''draft'', JString (policy_as_str (pm_draft m))),
      (''send'', JString (policy_as_str (pm_send m)))]"

record McpEndpointInfo =
  me_url :: string
  me_bearer_token :: string
  me_stdio_shim_path :: "string option"

definition endpoint_json :: "McpEndpointInfo \<Rightarrow> json" where
  "endpoint_json e = JObject
     [(''url'', JString (me_url e)), (''bearer_token'', JString (me_bearer_token e)),
      (''stdio_shim_path'', opt_json JString (me_stdio_shim_path e))]"

record Status =
  st_version :: string
  st_uptime_secs :: "64 word"
  st_account_count :: "32 word"
  st_mcp_paused :: bool
  st_onboarding_complete :: bool

definition status_json :: "Status \<Rightarrow> json" where
  "status_json s = JObject
     [(''version'', JString (st_version s)), (''uptime_secs'', JNumber (PosInt (st_uptime_secs s))),
      (''account_count'', u32_json (st_account_count s)), (''mcp_paused'', JBool (st_mcp_paused s)),
      (''onboarding_complete'', JBool (st_onboarding_complete s))]"

definition approval_request_json :: "crates \<Rightarrow> ApprovalRequest \<Rightarrow> json" where
  "approval_request_json X r = JObject
     [(''account'', JString (account_id_to_string X (ar_account r))),
      (''category'', JString (category_as_str (ar_category r))),
      (''summary'', JString (ar_summary r)), (''details'', ar_details r)]"

definition pending_approval_json :: "crates \<Rightarrow> PendingApproval \<Rightarrow> json" where
  "pending_approval_json X p = JObject
     [(''id'', JString (approval_id_to_string X (pa_id p))),
      (''request'', approval_request_json X (pa_request p)),
      (''created_at'', JString (dt_to_rfc3339 X (pa_created_at p)))]"

datatype Notification =
    ApprovalRequested PendingApproval
  | ApprovalResolved string string
  | AccountAdded Account
  | AccountRemoved AccountId
  | AccountNeedsReauth AccountId
  | McpPausedChanged bool

primrec notification_method :: "Notification \<Rightarrow> string" where
  "notification_method (ApprovalRequested p) = ''approval.requested''"
| "notification_method (ApprovalResolved i d) = ''approval.resolved''"
| "notification_method (AccountAdded a) = ''account.added''"
| "notification_method (AccountRemoved i) = ''account.removed''"
| "notification_method (AccountNeedsReauth i) = ''account.needs_reauth''"
| "notification_method (McpPausedChanged b) = ''mcp.paused_changed''"

primrec notification_params :: "crates \<Rightarrow> Notification \<Rightarrow> json" where
  "notification_params X (ApprovalRequested p) = pending_approval_json X p"
| "notification_params X (ApprovalResolved i d) = JObject [(''id'', JString i), (''decision'', JString d)]"
| "notification_params X (AccountAdded a) = account_json X a"
| "notification_params X (AccountRemoved i) = JObject [(''account_id'', JString (account_id_to_string X i))]"
| "notification_params X (AccountNeedsReauth i) = JObject [(''account_id'', JString (account_id_to_string X i))]"
| "notification_params X (McpPausedChanged b) = JObject [(''paused'', JBool b)]"

definition notification_json :: "crates \<Rightarrow> Notification \<Rightarrow> json" where
  "notification_json X n = JObject [(''method'', JString (notification_method n)), (''params'', notification_params X n)]"

definition notification_to_method_and_params :: "crates \<Rightarrow> Notification \<Rightarrow> string \<times> json" where
  "notification_to_method_and_params X n =
     (notification_method n, unwrap_or JNull (json_get ''params'' (notification_json X n)))"

text \<open>The forwarding of approval events to IPC clients in the daemon's main function.\<close>

primrec forward_event :: "crates \<Rightarrow> ApprovalEvent \<Rightarrow> Notification" where
  "forward_event X (Requested p) = ApprovalRequested p"
| "forward_event X (Resolved i d) = ApprovalResolved (approval_id_to_string X i)
     (case d of Approve \<Rightarrow> ''approve'' | Reject \<Rightarrow> ''reject'')"

section \<open>JSON-RPC\<close>

primrec error_code :: "Error \<Rightarrow> int" where
  "error_code (Config s) = -32000"
| "error_code (NotFound s) = -32601"
| "error_code (PermissionDenied s) = -32002"
| "error_code (Provider s) = -32000"
| "error_code (OAuth s) = -32000"
| "error_code (Storage s) = -32000"
| "error_code (Keychain s) = -32000"
| "error_code (Io s) = -32000"
| "error_code (Http s) = -32000"
| "error_code (Json s) = -32000"
| "error_code ApprovalTimeout = -32004"
| "error_code ApprovalRejected = -32003"
| "error_code (Internal s) = -32000"

record IpcRequest =
  ir_id :: json
  ir_method :: string
  ir_params :: "json option"

definition de_ipc_request :: "json \<Rightarrow> IpcRequest option" where
  "de_ipc_request = de_struct 3 [''jsonrpc'', ''id'', ''method'', ''params''] (\<lambda>v.
     Option.bind (de_required as_str ''jsonrpc'' v) (\<lambda>_.
     Option.bind (de_default JNull Some ''id'' v) (\<lambda>i.
     Option.bind (de_required as_str ''method'' v) (\<lambda>m.
     Option.bind (de_option Some ''params'' v) (\<lambda>p.
     Some \<lparr>ir_id = i, ir_method = m, ir_params = p\<rparr>)))))"

definition parse_ipc_request :: "crates \<Rightarrow> string \<Rightarrow> string + IpcRequest" where
  "parse_ipc_request X line = (case json_from_str X line of
      Inl e \<Rightarrow> Inl e
    | Inr v \<Rightarrow> (case de_ipc_request v of
        None \<Rightarrow> Inl (serde_error X ''JsonRpcRequest'' v)
      | Some r \<Rightarrow> Inr r))"

definition ipc_response :: "json \<Rightarrow> json res \<Rightarrow> json" where
  "ipc_response i r = (case r of
      Ok v \<Rightarrow> rpc_ok i v
    | Err e \<Rightarrow> rpc_err i (error_code e) (error_to_string e)
    | Panic m \<Rightarrow> JNull)"

definition notification_frame :: "crates \<Rightarrow> Notification \<Rightarrow> json" where
  "notification_frame X n = (case notification_to_method_and_params X n of (m, p) \<Rightarrow>
     JObject [(''jsonrpc'', JString ''2.0''), (''method'', JString m), (''params'', p)])"

section \<open>A connection\<close>

text \<open>
  \<open>cn_fanout\<close> is the flag \<^verbatim>\<open>fanout_started\<close>, \<open>cn_task\<close> says whether the task it started still runs.
  \<open>cn_open\<close> turns false at the end of the input, on a line that is not UTF-8, when the handler
  panics, and when a response cannot be written; \<open>cn_broken\<close> turns true when the client no longer takes
  what is written; \<open>cn_out\<close> lists the frames that were.
\<close>

record conn =
  cn_subscribed :: "string list"
  cn_fanout :: bool
  cn_task :: bool
  cn_open :: bool
  cn_broken :: bool
  cn_out :: "json list"

definition conn_new :: conn where
  "conn_new = \<lparr>cn_subscribed = [], cn_fanout = False, cn_task = False, cn_open = True, cn_broken = False, cn_out = []\<rparr>"

definition write_frame :: "json \<Rightarrow> conn \<Rightarrow> conn" where
  "write_frame f c = (if cn_broken c then c else c\<lparr>cn_out := cn_out c @ [f]\<rparr>)"

text \<open>A response that cannot be written ends the connection; the answer to a malformed line is dropped.\<close>

definition write_response :: "json \<Rightarrow> conn \<Rightarrow> conn" where
  "write_response f c = (if cn_broken c then c\<lparr>cn_open := False\<rparr> else write_frame f c)"

definition subscribe_events :: "json option \<Rightarrow> string list" where
  "subscribe_events params = unwrap_or [] (Option.bind params (\<lambda>p.
     Option.bind (json_get ''events'' p) de_vec_string))"

text \<open>
  The first \<open>subscribe\<close> starts the task that forwards notifications; later ones replace the filter.
\<close>

definition conn_subscribe :: "string list \<Rightarrow> conn \<Rightarrow> conn" where
  "conn_subscribe events c = (let c' = c\<lparr>cn_subscribed := events\<rparr> in
     if cn_fanout c then c' else c'\<lparr>cn_fanout := True, cn_task := True\<rparr>)"

text \<open>One iteration of the read loop; \<open>None\<close> when the handler never returns.\<close>

definition serve_line ::
  "crates \<Rightarrow> (string \<Rightarrow> json \<Rightarrow> 's \<Rightarrow> (json res \<times> 's) option) \<Rightarrow> string \<Rightarrow> conn \<times> 's \<Rightarrow> (conn \<times> 's) option" where
  "serve_line X handler line = (\<lambda>(c, s).
     if \<not> cn_open c then Some (c, s)
     else if line = [] \<or> \<not> valid_utf8 line then Some (c\<lparr>cn_open := False\<rparr>, s)
     else (case parse_ipc_request X (trim line) of
         Inl e \<Rightarrow> Some (write_frame (rpc_err JNull (-32700) (''parse: '' @ e)) c, s)
       | Inr req \<Rightarrow>
           if ir_method req = ''subscribe'' then
             (let events = subscribe_events (ir_params req)
              in Some (write_response (rpc_ok (ir_id req)
                   (JObject [(''subscribed'', JArray (map JString events))])) (conn_subscribe events c), s))
           else (case handler (ir_method req) (unwrap_or JNull (ir_params req)) s of
               None \<Rightarrow> None
             | Some (Panic m, s') \<Rightarrow> Some (c\<lparr>cn_open := False\<rparr>, s')
             | Some (r, s') \<Rightarrow> Some (write_response (ipc_response (ir_id req) r) c, s'))))"

text \<open>
  What the forwarding task does with one notification received from the channel. It outlives the
  read loop and ends when it cannot write.
\<close>

definition fan_out :: "crates \<Rightarrow> Notification \<Rightarrow> conn \<Rightarrow> conn" where
  "fan_out X n c = (if cn_task c \<and> notification_method n \<in> set (cn_subscribed c)
     then if cn_broken c then c\<lparr>cn_task := False\<rparr> else write_frame (notification_frame X n) c
     else c)"

text \<open>
  A connection over what happens to it: a line is read, the forwarding task receives a notification
  or an error (it fell too far behind, or the channel is closed), and the client stops reading.
  An error ends the task for good.
\<close>

datatype conn_event = Line string | Event Notification | RecvError | PeerGone

primrec conn_step ::
  "crates \<Rightarrow> (string \<Rightarrow> json \<Rightarrow> 's \<Rightarrow> (json res \<times> 's) option) \<Rightarrow> conn_event \<Rightarrow> conn \<times> 's \<Rightarrow> (conn \<times> 's) option" where
  "conn_step X h (Line l) cs = serve_line X h l cs"
| "conn_step X h (Event n) cs = Some (fan_out X n (fst cs), snd cs)"
| "conn_step X h RecvError cs = Some ((fst cs)\<lparr>cn_task := False\<rparr>, snd cs)"
| "conn_step X h PeerGone cs = Some ((fst cs)\<lparr>cn_broken := True\<rparr>, snd cs)"

fun serve_conn ::
  "crates \<Rightarrow> (string \<Rightarrow> json \<Rightarrow> 's \<Rightarrow> (json res \<times> 's) option) \<Rightarrow> conn_event list \<Rightarrow> conn \<times> 's \<Rightarrow> (conn \<times> 's) option" where
  "serve_conn X h [] cs = Some cs"
| "serve_conn X h (e # es) cs = Option.bind (conn_step X h e cs) (serve_conn X h es)"

section \<open>Facts\<close>

lemma notification_frame_alt:
  "notification_frame X n = JObject [(''jsonrpc'', JString ''2.0''),
     (''method'', JString (notification_method n)), (''params'', notification_params X n)]"
  by (simp add: notification_frame_def notification_to_method_and_params_def notification_json_def)

lemma write_frame_simps [simp]:
  "cn_subscribed (write_frame f c) = cn_subscribed c" "cn_fanout (write_frame f c) = cn_fanout c"
  "cn_task (write_frame f c) = cn_task c" "cn_broken (write_frame f c) = cn_broken c"
  "cn_open (write_frame f c) = cn_open c"
  "cn_out (write_frame f c) = cn_out c @ (if cn_broken c then [] else [f])"
  by (simp_all add: write_frame_def)

text \<open>A connection in use: lines are still read, and the client takes what is written.\<close>

definition conn_up :: "conn \<Rightarrow> bool" where
  "conn_up c \<longleftrightarrow> cn_open c \<and> \<not> cn_broken c"

lemma conn_upD: "conn_up c \<Longrightarrow> cn_open c" "conn_up c \<Longrightarrow> \<not> cn_broken c"
  by (simp_all add: conn_up_def)

lemma conn_up_new [simp]: "conn_up conn_new" "cn_out conn_new = []" "\<not> cn_fanout conn_new" "\<not> cn_task conn_new"
  by (simp_all add: conn_up_def conn_new_def)

lemma write_response_up [simp]: "conn_up c \<Longrightarrow> write_response f c = write_frame f c"
  by (simp add: write_response_def conn_up_def)

lemma conn_up_simps [simp]:
  "conn_up (write_frame f c) = conn_up c" "conn_up (conn_subscribe evs c) = conn_up c"
  "conn_up (c\<lparr>cn_task := b\<rparr>) = conn_up c" "conn_up (fan_out X n c) = conn_up c"
  by (simp_all add: conn_up_def conn_subscribe_def fan_out_def Let_def)

lemma conn_subscribe_simps [simp]:
  "cn_out (conn_subscribe evs c) = cn_out c" "cn_broken (conn_subscribe evs c) = cn_broken c"
  "cn_subscribed (conn_subscribe evs c) = evs" "cn_fanout (conn_subscribe evs c)"
  "cn_task (conn_subscribe evs c) \<longleftrightarrow> (cn_fanout c \<longrightarrow> cn_task c)"
  by (simp_all add: conn_subscribe_def Let_def)

lemma fan_out_frame [simp]:
  "cn_subscribed (fan_out X n c) = cn_subscribed c" "cn_open (fan_out X n c) = cn_open c"
  "cn_fanout (fan_out X n c) = cn_fanout c" "cn_broken (fan_out X n c) = cn_broken c"
  "\<not> cn_broken c \<Longrightarrow> cn_task (fan_out X n c) = cn_task c"
  by (simp_all add: fan_out_def)

text \<open>The notifications that a connection passes on.\<close>

definition fan_frames :: "conn \<Rightarrow> Notification list \<Rightarrow> Notification list" where
  "fan_frames c ns = (if cn_task c then filter (\<lambda>n. notification_method n \<in> set (cn_subscribed c)) ns else [])"

lemma fan_out_fold [simp]:
  "\<not> cn_broken c \<Longrightarrow> cn_out (fold (fan_out X) ns c) = cn_out c @ map (notification_frame X) (fan_frames c ns)"
  "conn_up (fold (fan_out X) ns c) = conn_up c" "cn_open (fold (fan_out X) ns c) = cn_open c" "cn_fanout (fold (fan_out X) ns c) = cn_fanout c"
  "cn_subscribed (fold (fan_out X) ns c) = cn_subscribed c" "cn_broken (fold (fan_out X) ns c) = cn_broken c"
  "\<not> cn_broken c \<Longrightarrow> cn_task (fold (fan_out X) ns c) = cn_task c"
proof -
  show "\<not> cn_broken c \<Longrightarrow> cn_out (fold (fan_out X) ns c) = cn_out c @ map (notification_frame X) (fan_frames c ns)"
    by (induction ns arbitrary: c) (simp_all add: fan_frames_def, simp add: fan_out_def)
  show "conn_up (fold (fan_out X) ns c) = conn_up c" "cn_open (fold (fan_out X) ns c) = cn_open c" "cn_fanout (fold (fan_out X) ns c) = cn_fanout c"
    "cn_subscribed (fold (fan_out X) ns c) = cn_subscribed c" "cn_broken (fold (fan_out X) ns c) = cn_broken c"
    by (induction ns arbitrary: c) simp_all
  show "\<not> cn_broken c \<Longrightarrow> cn_task (fold (fan_out X) ns c) = cn_task c"
    by (induction ns arbitrary: c) simp_all
qed

lemma serve_conn_events:
  "serve_conn X h (map Event ns @ es) (c, s) = serve_conn X h es (fold (fan_out X) ns c, s)"
  by (induction ns arbitrary: c) simp_all

lemma serve_conn_append:
  "serve_conn X h (es @ fs) cs = Option.bind (serve_conn X h es cs) (serve_conn X h fs)"
  by (induction es arbitrary: cs) (simp_all, metis (no_types, lifting) bind_assoc)

text \<open>The identifier that a response carries, and the one a line asks for.\<close>

fun response_id :: "json \<Rightarrow> json option" where
  "response_id (JObject [(a, v), (b, i), (c, r)]) = (if b = ''id'' then Some i else None)"
| "response_id _ = None"

definition line_id :: "crates \<Rightarrow> string \<Rightarrow> json" where
  "line_id X line = (case parse_ipc_request X (trim line) of Inl e \<Rightarrow> JNull | Inr req \<Rightarrow> ir_id req)"

fun event_ids :: "crates \<Rightarrow> conn_event list \<Rightarrow> json list" where
  "event_ids X [] = []"
| "event_ids X (Line l # es) = line_id X l # event_ids X es"
| "event_ids X (_ # es) = event_ids X es"

definition response_ids :: "json list \<Rightarrow> json list" where
  "response_ids fs = List.map_filter response_id fs"

lemma response_ids_simps [simp]:
  "response_ids [] = []" "response_ids (fs @ gs) = response_ids fs @ response_ids gs"
  "response_ids [notification_frame X n] = []" "response_ids [rpc_ok i v] = [i]"
  "response_ids [rpc_err i c m] = [i]" "\<not> is_panic r \<Longrightarrow> response_ids [ipc_response i r] = [i]"
  by (simp_all add: response_ids_def map_filter_def notification_frame_alt rpc_ok_def rpc_err_def)
    (cases r; simp add: ipc_response_def rpc_ok_def rpc_err_def)

lemma fan_out_responses [simp]: "response_ids (cn_out (fan_out X n c)) = response_ids (cn_out c)"
  by (simp add: fan_out_def)

lemma event_ids_append [simp]: "event_ids X (es @ fs) = event_ids X es @ event_ids X fs"
  by (induction es rule: event_ids.induct) simp_all

text \<open>A client that stays and sends whole lines of UTF-8, and which methods its lines call.\<close>

definition lines_ok :: "conn_event list \<Rightarrow> bool" where
  "lines_ok es \<longleftrightarrow> PeerGone \<notin> set es \<and> (\<forall>l. Line l \<in> set es \<longrightarrow> l \<noteq> [] \<and> valid_utf8 l)"

definition calls_method :: "crates \<Rightarrow> conn_event list \<Rightarrow> string \<Rightarrow> bool" where
  "calls_method X es m \<longleftrightarrow> (\<exists>l req. Line l \<in> set es \<and> parse_ipc_request X (trim l) = Inr req \<and> ir_method req = m)"

section \<open>The contract of a handler\<close>

text \<open>
  What the server relies on of the handler it is given: an invariant that every call keeps, calls
  that do not panic, and calls that return, except for the methods that may wait for ever.
\<close>

locale ipc_handler =
  fixes handler :: "string \<Rightarrow> json \<Rightarrow> 's \<Rightarrow> (json res \<times> 's) option"
    and inv :: "'s \<Rightarrow> bool"
    and may_wait :: "string \<Rightarrow> bool"
  assumes call_safe: "inv s \<Longrightarrow> handler m p s = Some (r, s') \<Longrightarrow> inv s' \<and> \<not> is_panic r"
    and call_returns: "inv s \<Longrightarrow> \<not> may_wait m \<Longrightarrow> handler m p s \<noteq> None"
begin

lemma serve_line_answers:
  assumes "conn_up c" "line \<noteq> []" "valid_utf8 line" "inv s" "serve_line X handler line (c, s) = Some (c', s')"
  shows "conn_up c' \<and> inv s' \<and> response_ids (cn_out c') = response_ids (cn_out c) @ [line_id X line]"
proof -
  note op = conn_upD [OF assms(1)]
  show ?thesis
  proof (cases "parse_ipc_request X (trim line)")
    case (Inr req)
    show ?thesis
    proof (cases "ir_method req = ''subscribe''")
      case True
      then show ?thesis using assms op Inr by (auto simp: serve_line_def line_id_def Let_def)
    next
      case False
      then obtain r where r: "handler (ir_method req) (unwrap_or JNull (ir_params req)) s = Some (r, s')"
        using assms op Inr by (auto simp: serve_line_def split: option.splits res.splits)
      from call_safe [OF assms(4) r] have np: "inv s'" "\<not> is_panic r" by simp_all
      then have "c' = write_frame (ipc_response (ir_id req) r) c"
        using assms op Inr False r by (cases r) (simp_all add: serve_line_def)
      then show ?thesis using assms(1) op np Inr by (simp add: line_id_def)
    qed
  qed (use assms op in \<open>auto simp: serve_line_def line_id_def\<close>)
qed

lemma serve_line_inv:
  assumes "inv s" "serve_line X handler line (c, s) = Some (c', s')"
  shows "inv s'"
  using assms call_safe
  by (auto simp: serve_line_def Let_def split: if_splits sum.splits option.splits prod.splits res.splits)

lemma serve_line_returns:
  assumes "inv s" and "\<And>req. parse_ipc_request X (trim line) = Inr req \<Longrightarrow> \<not> may_wait (ir_method req)"
  shows "serve_line X handler line (c, s) \<noteq> None"
proof (cases "parse_ipc_request X (trim line)")
  case (Inr req)
  have "handler (ir_method req) (unwrap_or JNull (ir_params req)) s \<noteq> None"
    by (rule call_returns [OF assms]) (rule Inr)
  then show ?thesis using Inr by (auto simp: serve_line_def Let_def split: res.split)
qed (simp add: serve_line_def)

lemma conn_step_answers:
  assumes "conn_step X handler e (c, s) = Some (c', s')" "lines_ok [e]" "conn_up c" "inv s"
  shows "conn_up c' \<and> inv s' \<and> response_ids (cn_out c') = response_ids (cn_out c) @ event_ids X [e]"
  using assms serve_line_answers [of c _ s X c' s'] by (cases e) (auto simp: lines_ok_def)

lemma conn_step_inv: "conn_step X handler e (c, s) = Some (c', s') \<Longrightarrow> inv s \<Longrightarrow> inv s'"
  by (cases e) (auto intro: serve_line_inv)

lemma conn_step_returns:
  assumes "inv s" "\<And>m. may_wait m \<Longrightarrow> \<not> calls_method X [e] m"
  shows "conn_step X handler e (c, s) \<noteq> None"
proof (cases e)
  case (Line l)
  then have "\<not> may_wait (ir_method req)" if "parse_ipc_request X (trim l) = Inr req" for req
    using assms(2) [of "ir_method req"] that by (auto simp: calls_method_def)
  from serve_line_returns [OF assms(1) this] Line show ?thesis by simp
qed simp_all

end

section \<open>Properties\<close>


definition demo_subscribe :: json where
  "demo_subscribe = JObject [(''jsonrpc'', JString ''2.0''), (''id'', JNull), (''method'', JString ''subscribe''),
     (''params'', JObject [(''events'', JArray [JString ''mcp.paused_changed''])])]"


end
