(* ===== verification/Ipc_Server.thy ===== *)
theory Ipc_Server
  imports Ipc
begin

text \<open>
  The IPC server with all its connections (\<^verbatim>\<open>Server::bind_and_serve\<close> in \<^verbatim>\<open>ipc/server.rs\<close>): the accept
  loop, one task per connection, one handler shared by them. Requests of different connections are
  served one after the other, in the order in which the handler is called.
\<close>

section \<open>The server\<close>

text \<open>
  \<open>sv_accepting\<close> turns false when accepting fails, which ends the loop; the connections that were
  accepted before have tasks of their own and go on.
\<close>

record 'h server =
  sv_accepting :: bool
  sv_conns :: "conn list"
  sv_handler :: 'h

datatype server_event = Accept | AcceptFails | On nat conn_event

definition server_new :: "'h \<Rightarrow> 'h server" where
  "server_new s = \<lparr>sv_accepting = True, sv_conns = [], sv_handler = s\<rparr>"

primrec server_step ::
  "crates \<Rightarrow> (string \<Rightarrow> json \<Rightarrow> 's \<Rightarrow> (json res \<times> 's) option) \<Rightarrow> server_event \<Rightarrow> 's server \<Rightarrow> 's server option" where
  "server_step X h Accept v = Some (if sv_accepting v then v\<lparr>sv_conns := sv_conns v @ [conn_new]\<rparr> else v)"
| "server_step X h AcceptFails v = Some (v\<lparr>sv_accepting := False\<rparr>)"
| "server_step X h (On i e) v =
     (if i < length (sv_conns v) then
        map_option (\<lambda>(c, s). v\<lparr>sv_conns := (sv_conns v)[i := c], sv_handler := s\<rparr>)
          (conn_step X h e (sv_conns v ! i, sv_handler v))
      else Some v)"

fun bind_and_serve ::
  "crates \<Rightarrow> (string \<Rightarrow> json \<Rightarrow> 's \<Rightarrow> (json res \<times> 's) option) \<Rightarrow> server_event list \<Rightarrow> 's server \<Rightarrow> 's server option" where
  "bind_and_serve X h [] v = Some v"
| "bind_and_serve X h (e # es) v = Option.bind (server_step X h e v) (bind_and_serve X h es)"

section \<open>Facts\<close>

text \<open>What happens to one of the connections.\<close>

definition events_of :: "nat \<Rightarrow> server_event list \<Rightarrow> conn_event list" where
  "events_of i es = List.map_filter (\<lambda>e. case e of On j c \<Rightarrow> if j = i then Some c else None | _ \<Rightarrow> None) es"

lemma events_of_simps [simp]:
  "events_of i [] = []" "events_of i (Accept # es) = events_of i es" "events_of i (AcceptFails # es) = events_of i es"
  "events_of i (On j c # es) = (if j = i then c # events_of i es else events_of i es)"
  by (simp_all add: events_of_def map_filter_def)

definition server_calls :: "crates \<Rightarrow> server_event list \<Rightarrow> string \<Rightarrow> bool" where
  "server_calls X es m \<longleftrightarrow> (\<exists>i. calls_method X (events_of i es) m)"

lemma server_step_conns:
  assumes "server_step X h e v = Some v'" "i < length (sv_conns v)" "\<nexists>c. e = On i c"
  shows "i < length (sv_conns v') \<and> sv_conns v' ! i = sv_conns v ! i"
  using assms by (cases e) (auto simp: nth_append nth_list_update split: if_splits)

lemma server_step_On:
  assumes "server_step X h (On i c) v = Some v'" "i < length (sv_conns v)"
  shows "i < length (sv_conns v') \<and> conn_step X h c (sv_conns v ! i, sv_handler v) = Some (sv_conns v' ! i, sv_handler v')"
  using assms by auto

text \<open>Once accepting has failed, no connection is added.\<close>

lemma no_more_connections:
  "bind_and_serve X h es v = Some v' \<Longrightarrow> \<not> sv_accepting v \<Longrightarrow>
     \<not> sv_accepting v' \<and> length (sv_conns v') = length (sv_conns v)"
proof (induction es arbitrary: v)
  case (Cons e es)
  from Cons.prems obtain v1 where v1: "server_step X h e v = Some v1" "bind_and_serve X h es v1 = Some v'"
    by (auto simp: bind_eq_Some_conv)
  then have "\<not> sv_accepting v1 \<and> length (sv_conns v1) = length (sv_conns v)"
    using Cons.prems(2) by (cases e) (auto split: if_splits)
  with Cons.IH [OF v1(2)] show ?case by simp
qed simp

section \<open>Connections do not disturb each other\<close>

context ipc_handler
begin

lemma server_step_inv:
  assumes "server_step X handler e v = Some v'" "inv (sv_handler v)"
  shows "inv (sv_handler v')"
  using assms by (cases e) (auto split: if_splits dest: conn_step_inv)

lemma server_answers:
  assumes "bind_and_serve X handler es v = Some v'" "inv (sv_handler v)"
    and "i < length (sv_conns v)" "conn_up (sv_conns v ! i)" "lines_ok (events_of i es)"
  shows "i < length (sv_conns v') \<and> conn_up (sv_conns v' ! i) \<and> inv (sv_handler v') \<and>
    response_ids (cn_out (sv_conns v' ! i)) = response_ids (cn_out (sv_conns v ! i)) @ event_ids X (events_of i es)"
  using assms
proof (induction es arbitrary: v)
  case (Cons e es)
  from Cons.prems(1) obtain v1 where v1: "server_step X handler e v = Some v1" "bind_and_serve X handler es v1 = Some v'"
    by (auto simp: bind_eq_Some_conv)
  note inv1 = server_step_inv [OF v1(1) Cons.prems(2)]
  show ?case
  proof (cases "\<exists>c. e = On i c")
    case True
    then obtain c where e: "e = On i c" by blast
    from server_step_On [of X handler i c v v1] v1(1) Cons.prems(3) have
      s: "i < length (sv_conns v1)" "conn_step X handler c (sv_conns v ! i, sv_handler v) = Some (sv_conns v1 ! i, sv_handler v1)"
      by (simp_all add: e)
    have l: "lines_ok [c]" "lines_ok (events_of i es)"
      using Cons.prems(5) unfolding e by (auto simp: lines_ok_def)
    from conn_step_answers [OF s(2) l(1) Cons.prems(4,2)] Cons.IH [OF v1(2) inv1 s(1) _ l(2)] show ?thesis
      using event_ids_append [of X "[c]" "events_of i es"] by (simp add: e del: event_ids_append)
  next
    case False
    then have n: "i < length (sv_conns v1)" "sv_conns v1 ! i = sv_conns v ! i" "events_of i (e # es) = events_of i es"
      using server_step_conns [OF v1(1) Cons.prems(3) False] by simp_all (cases e; simp)
    from Cons.IH [OF v1(2) inv1 n(1)] Cons.prems(4,5) n(2) show ?thesis unfolding n(3) by simp
  qed
qed simp

lemma server_returns:
  assumes "inv (sv_handler v)" "\<And>m. may_wait m \<Longrightarrow> \<not> server_calls X es m"
  shows "bind_and_serve X handler es v \<noteq> None"
  using assms
proof (induction es arbitrary: v)
  case (Cons e es)
  have es: "\<And>m. may_wait m \<Longrightarrow> \<not> server_calls X es m"
    using Cons.prems(2) by (cases e) (fastforce simp: server_calls_def calls_method_def split: if_splits)+
  have "server_step X handler e v \<noteq> None"
  proof (cases e)
    case (On i c)
    have "\<not> calls_method X [c] m" if "may_wait m" for m
      using Cons.prems(2) [OF that] by (auto simp: On server_calls_def calls_method_def split: if_splits)
    from conn_step_returns [OF Cons.prems(1) this] On show ?thesis by simp
  qed simp_all
  then obtain v1 where v1: "server_step X handler e v = Some v1" by blast
  from Cons.IH [OF server_step_inv [OF v1 Cons.prems(1)] es] show ?case by (simp add: v1)
qed simp

end

end
