(* ===== verification/Announce.thy ===== *)
theory Announce
  imports Ipc_Server
begin

text \<open>
  How a subscribed client learns of approvals. The queue broadcasts its events; a task of the
  daemon's main function turns each into a notification and broadcasts it again; a task per
  connection filters and writes it. Broadcast channels are \<^verbatim>\<open>tokio\<close>'s and hold 64 values: what a
  receiver gets is a parameter here, a list of results of \<^verbatim>\<open>recv\<close>, with the documented relation to what
  was sent. Both tasks are loops \<^verbatim>\<open>while let Ok(..) = recv().await\<close>.
\<close>

section \<open>Receiving from a broadcast channel\<close>

text \<open>\<open>Lagged n\<close>: the receiver was too slow, and \<open>n\<close> values were dropped before it could read them.\<close>

datatype 'a recv = Received 'a | Lagged nat

text \<open>What a receiver is promised: the values in order, less those reported as dropped.\<close>

fun delivers :: "'a list \<Rightarrow> 'a recv list \<Rightarrow> bool" where
  "delivers sent [] = True"
| "delivers sent (Received a # rs) = (sent \<noteq> [] \<and> hd sent = a \<and> delivers (tl sent) rs)"
| "delivers sent (Lagged n # rs) = (0 < n \<and> n \<le> length sent \<and> delivers (drop n sent) rs)"

definition keeps_up :: "'a list \<Rightarrow> 'a recv list \<Rightarrow> bool" where
  "keeps_up sent rs \<longleftrightarrow> delivers sent rs \<and> length rs = length sent \<and> (\<forall>n. Lagged n \<notin> set rs)"

text \<open>The task that forwards the events of the queue.\<close>

fun forward_approvals :: "crates \<Rightarrow> ApprovalEvent recv list \<Rightarrow> Notification list" where
  "forward_approvals X [] = []"
| "forward_approvals X (Received e # rs) = forward_event X e # forward_approvals X rs"
| "forward_approvals X (Lagged n # rs) = []"

text \<open>What the task of a connection makes of a result.\<close>

primrec recv_event :: "Notification recv \<Rightarrow> conn_event" where
  "recv_event (Received n) = Event n"
| "recv_event (Lagged n) = RecvError"

lemma keeps_up_received: "keeps_up sent rs \<Longrightarrow> rs = map Received sent"
proof -
  have "delivers sent rs \<Longrightarrow> length rs = length sent \<Longrightarrow> \<forall>n. Lagged n \<notin> set rs \<Longrightarrow> rs = map Received sent"
    by (induction sent rs rule: delivers.induct) (auto simp: neq_Nil_conv)
  then show "keeps_up sent rs \<Longrightarrow> rs = map Received sent" by (simp add: keeps_up_def)
qed

lemma keeps_up_map [simp]: "keeps_up sent (map Received sent)"
proof -
  have "delivers sent (map Received sent)" by (induction sent) simp_all
  then show ?thesis by (auto simp: keeps_up_def)
qed

lemma forward_approvals_received [simp]: "forward_approvals X (map Received es) = map (forward_event X) es"
  by (induction es) simp_all

text \<open>After an error the forwarding of approval events has ended.\<close>

lemma forward_approvals_lagged:
  "forward_approvals X (map Received es @ Lagged n # rs) = map (forward_event X) es"
  by (induction es) simp_all

section \<open>The queue and the view of a client\<close>

datatype queue_op = QEnqueue ApprovalId datetime ApprovalRequest | QDecide ApprovalId ApprovalDecision | QTimeout ApprovalFuture

primrec queue_apply :: "crates \<Rightarrow> queue_op \<Rightarrow> ApprovalQueue \<Rightarrow> ApprovalQueue" where
  "queue_apply X (QEnqueue i now req) q = snd (enqueue i now req q)"
| "queue_apply X (QDecide i d) q = snd (decide X i d q)"
| "queue_apply X (QTimeout f) q = (case await_outcome f (fut_timeout f) q of None \<Rightarrow> q | Some (r, q') \<Rightarrow> q')"

definition timed_out :: "queue_op list \<Rightarrow> ApprovalId set" where
  "timed_out ops = {fut_id f | f. QTimeout f \<in> set ops}"

text \<open>The approvals that a client shows: added when requested, removed when resolved.\<close>

fun client_view :: "crates \<Rightarrow> Notification list \<Rightarrow> (ApprovalId \<rightharpoonup> PendingApproval) \<Rightarrow> (ApprovalId \<rightharpoonup> PendingApproval)" where
  "client_view X [] v = v"
| "client_view X (ApprovalRequested p # ns) v = client_view X ns (v(pa_id p \<mapsto> p))"
| "client_view X (ApprovalResolved i d # ns) v = client_view X ns
     (case ulid_from_str X i of Inl e \<Rightarrow> v | Inr u \<Rightarrow> v(ApprovalId u := None))"
| "client_view X (_ # ns) v = client_view X ns v"

definition pending_view :: "ApprovalQueue \<Rightarrow> ApprovalId \<rightharpoonup> PendingApproval" where
  "pending_view q i = map_option fst (map_of (q_pending q) i)"

primrec is_approval :: "Notification \<Rightarrow> bool" where
  "is_approval (ApprovalRequested p) = True"
| "is_approval (ApprovalResolved i d) = True"
| "is_approval (AccountAdded a) = False"
| "is_approval (AccountRemoved i) = False"
| "is_approval (AccountNeedsReauth i) = False"
| "is_approval (McpPausedChanged b) = False"

lemma client_view_filter: "client_view X (filter is_approval ns) v = client_view X ns v"
proof (induction ns arbitrary: v)
  case (Cons n ns)
  then show ?case by (cases n) (simp_all add: fun_upd_def)
qed simp

lemma client_view_append: "client_view X (ns @ ms) v = client_view X ms (client_view X ns v)"
proof (induction ns arbitrary: v)
  case (Cons n ns)
  then show ?case by (cases n) (simp_all add: fun_upd_def)
qed simp

lemma is_approval_method:
  "is_approval n \<longleftrightarrow> notification_method n \<in> {''approval.requested'', ''approval.resolved''}"
  by (cases n) simp_all

abbreviation announced :: "crates \<Rightarrow> ApprovalQueue \<Rightarrow> ApprovalId \<rightharpoonup> PendingApproval" where
  "announced X q \<equiv> client_view X (map (forward_event X) (q_events q)) Map.empty"

lemma queue_apply_wf: "queue_wf q \<Longrightarrow> queue_wf (queue_apply X op q)"
  using keepsD [OF decide_wf]
  by (cases op) (auto simp: enqueue_wf split: option.split dest: await_outcome_wf)

text \<open>The invariant of the view: complete, and exact but for the requests that timed out.\<close>

definition mirrors :: "(ApprovalId \<rightharpoonup> PendingApproval) \<Rightarrow> ApprovalQueue \<Rightarrow> ApprovalId set \<Rightarrow> bool" where
  "mirrors v q L \<longleftrightarrow> (\<forall>i. i \<notin> L \<or> pending_view q i \<noteq> None \<longrightarrow> v i = pending_view q i)"

lemma mirrors_enqueue:
  "mirrors (announced X q) q L \<Longrightarrow> mirrors (announced X (snd (enqueue i now req q))) (snd (enqueue i now req q)) L"
  by (auto simp: mirrors_def enqueue_def Let_def pending_insert_def broadcast_def pending_view_def update_conv'
      client_view_append)

lemma mirrors_decide:
  assumes "ulid_round_trip X" "mirrors (announced X q) q L"
  shows "mirrors (announced X (snd (decide X i d q))) (snd (decide X i d q)) L"
  using assms
  by (cases i) (auto simp: mirrors_def decide_def pending_remove_def oneshot_send_def broadcast_def pending_view_def
      delete_conv' client_view_append split: option.split prod.split)

lemma mirrors_timeout:
  assumes "mirrors (announced X q) q L"
  shows "mirrors (announced X (queue_apply X (QTimeout f) q)) (queue_apply X (QTimeout f) q) (insert (fut_id f) L)"
  using assms
  by (auto simp: mirrors_def await_outcome_def pending_drop_def pending_remove_def pending_view_def delete_conv'
      split: option.split oneshot.split if_splits)

lemma timed_out_snoc [simp]:
  "timed_out (ops @ [op]) = (case op of QTimeout f \<Rightarrow> insert (fut_id f) (timed_out ops) | _ \<Rightarrow> timed_out ops)"
  by (auto simp: timed_out_def split: queue_op.split)

lemma mirrors_run:
  assumes "ulid_round_trip X" "q = fold (queue_apply X) ops (approval_queue_new t)"
  shows "mirrors (announced X q) q (timed_out ops)"
  unfolding assms(2)
proof (induction ops rule: rev_induct)
  case Nil
  then show ?case by (simp add: mirrors_def approval_queue_new_def pending_view_def timed_out_def)
next
  case (snoc op ops)
  then show ?case
    using mirrors_enqueue mirrors_decide [OF assms(1)] mirrors_timeout
    by (cases op) (simp_all del: queue_apply.simps(3))
qed

lemma serve_conn_received:
  "serve_conn X h (map recv_event (map Received ns)) (c, s) = Some (fold (fan_out X) ns c, s)"
  using serve_conn_events [of X h ns "[]" c s] by (simp add: o_def)

text \<open>The frames on a connection that are notifications.\<close>

definition notification_frames :: "json list \<Rightarrow> json list" where
  "notification_frames fs = filter (\<lambda>f. response_id f = None) fs"

lemma notification_frames_simps [simp]:
  "notification_frames [] = []" "notification_frames (fs @ gs) = notification_frames fs @ notification_frames gs"
  "notification_frames [rpc_ok i v] = []" "notification_frames [rpc_err i c m] = []"
  "notification_frames [notification_frame X n] = [notification_frame X n]"
  by (simp_all add: notification_frames_def rpc_ok_def rpc_err_def notification_frame_alt)

lemma notification_frames_response: "\<not> is_panic r \<Longrightarrow> notification_frames [ipc_response i r] = []"
  by (cases r) (simp_all add: ipc_response_def)

text \<open>A connection whose forwarding task was started and has ended.\<close>

definition task_over :: "conn \<Rightarrow> bool" where
  "task_over c \<longleftrightarrow> cn_fanout c \<and> \<not> cn_task c"

lemma task_over_step:
  assumes "conn_step X h e (c, s) = Some (c', s')" "task_over c"
  shows "task_over c' \<and> notification_frames (cn_out c') = notification_frames (cn_out c)"
proof (cases e)
  case (Line l)
  with assms show ?thesis
    by (auto simp: task_over_def serve_line_def write_response_def write_frame_def conn_subscribe_def Let_def notification_frames_response
        split: if_splits sum.splits option.splits prod.splits res.splits)
qed (use assms in \<open>auto simp: task_over_def fan_out_def\<close>)

lemma task_over_run:
  "serve_conn X h es (c, s) = Some (c', s') \<Longrightarrow> task_over c \<Longrightarrow>
     task_over c' \<and> notification_frames (cn_out c') = notification_frames (cn_out c)"
proof (induction es arbitrary: c s)
  case (Cons e es)
  then obtain c1 s1 where "conn_step X h e (c, s) = Some (c1, s1)" "serve_conn X h es (c1, s1) = Some (c', s')"
    by (auto simp: bind_eq_Some_conv)
  with Cons task_over_step show ?case by metis
qed simp

section \<open>Properties\<close>



text \<open>An approval that timed out stays on the screen: nothing is sent when its entry is removed.\<close>

lemma timeout_is_not_announced:
  assumes "ulid_round_trip X" and "q = fold (queue_apply X) ops (approval_queue_new t)"
    and "map_of (q_pending q) i = Some (p, c)" and "queue_wf q" and "fut_id f = i" and "fut_rx f = c"
  shows "pending_view (queue_apply X (QTimeout f) q) i = None \<and> announced X (queue_apply X (QTimeout f) q) i = Some p"
proof -
  have "announced X q i = Some p"
    using mirrors_run [OF assms(1,2)] assms(3) by (auto simp: mirrors_def pending_view_def)
  then show ?thesis
    using queue_wf_lookup [OF assms(4,3)] assms(5,6)
    by (simp add: await_outcome_def pending_drop_def pending_remove_def pending_view_def delete_conv')
qed

text \<open>
  Falling behind once silences a client for good. When the forwarding task of a connection gets
  an error from its channel (it fell more than the capacity behind), no notification is ever
  written on this connection again, whatever happens later, even though requests go on being served
  and a further \<open>subscribe\<close> is answered as if it had succeeded.
\<close>

lemma lagged_subscription_is_silent:
  assumes "cn_fanout c" and "serve_conn X h (recv_event (Lagged n) # es) (c, s) = Some (c', s')"
  shows "notification_frames (cn_out c') = notification_frames (cn_out c) \<and>
    (\<forall>line req. conn_up c' \<and> line \<noteq> [] \<and> valid_utf8 line \<and> parse_ipc_request X (trim line) = Inr req \<and>
       ir_method req = ''subscribe'' \<longrightarrow>
       (\<exists>c''. serve_line X h line (c', s') = Some (c'', s') \<and> \<not> cn_task c'' \<and>
         cn_out c'' = cn_out c' @ [rpc_ok (ir_id req)
           (JObject [(''subscribed'', JArray (map JString (subscribe_events (ir_params req))))])]))"
proof -
  from assms(2) have run: "serve_conn X h es (c\<lparr>cn_task := False\<rparr>, s) = Some (c', s')" by simp
  have over: "task_over (c\<lparr>cn_task := False\<rparr>)" using assms(1) by (simp add: task_over_def)
  from task_over_run [OF run over] have c': "task_over c'" "notification_frames (cn_out c') = notification_frames (cn_out c)" by simp_all
  have "serve_line X h line (c', s') = Some (write_frame (rpc_ok (ir_id req)
      (JObject [(''subscribed'', JArray (map JString (subscribe_events (ir_params req))))]))
      (conn_subscribe (subscribe_events (ir_params req)) c'), s')"
    if "conn_up c'" "line \<noteq> []" "valid_utf8 line" "parse_ipc_request X (trim line) = Inr req" "ir_method req = ''subscribe''" for line req
    using that by (simp add: serve_line_def Let_def conn_upD)
  with c' show ?thesis by (auto simp: task_over_def conn_upD)
qed

lemma lagged_subscription_is_silent_example:
  "\<exists>c'. serve_conn (sample_crates [(''S'', demo_subscribe)]) (\<lambda>m p s. None)
      [Line ''S'', RecvError, Line ''S'', Event (McpPausedChanged True)] (conn_new, ()) = Some (c', ()) \<and>
    length (cn_out c') = 2 \<and> notification_frames (cn_out c') = []"
proof -
  let ?X = "sample_crates [(''S'', demo_subscribe)]"
  let ?h = "\<lambda>m p s. None :: (json res \<times> unit) option"
  let ?f = "rpc_ok JNull (JObject [(''subscribed'', JArray [JString ''mcp.paused_changed''])])"
  let ?c = "write_frame ?f (conn_subscribe [''mcp.paused_changed''] conn_new)"
  have u: "valid_utf8 ''S''" "trim ''S'' = ''S''" by code_simp+
  have l: "serve_line ?X ?h ''S'' (c, ()) = Some (write_frame ?f (conn_subscribe [''mcp.paused_changed''] c), ())" if "conn_up c" for c
    using that u by (simp add: serve_line_def u(2) parse_ipc_request_def sample_crates_def demo_subscribe_def de_ipc_request_def de_defs
        subscribe_events_def Let_def conn_upD del: valid_utf8.simps)
  have run: "\<exists>c'. serve_conn ?X ?h [RecvError, Line ''S'', Event (McpPausedChanged True)] (?c, ()) = Some (c', ()) \<and>
      length (cn_out c') = 2"
    by (simp add: l) (simp add: fan_out_def conn_new_def)
  then obtain c' where c': "serve_conn ?X ?h (recv_event (Lagged 1) # [Line ''S'', Event (McpPausedChanged True)]) (?c, ()) = Some (c', ())"
    "length (cn_out c') = 2" by auto
  have f: "cn_fanout ?c" "notification_frames (cn_out ?c) = []" by (simp_all add: conn_new_def)
  from lagged_subscription_is_silent [OF f(1) c'(1)] f(2) have "notification_frames (cn_out c') = []" by simp
  then show ?thesis using c' l [OF conn_up_new(1)] by (intro exI [of _ c']) simp
qed

end
