(* ===== verification/Gmail_Parse.thy ===== *)
theory Gmail_Parse
  imports Net
begin

text \<open>
  Decoding Gmail messages (\<^verbatim>\<open>providers/gmail/parse.rs\<close>): the JSON the API returns, addresses,
  dates, bodies and attachments of a MIME tree, system labels and flags. Only a date that cannot
  be parsed reads the clock, so decoding is an effect.
\<close>

section \<open>The API's JSON\<close>

record RawHeader =
  rh_name :: string
  rh_value :: string

record RawBody =
  rb_size :: "64 word"
  rb_data :: "string option"
  rb_attachment_id :: "string option"

datatype RawPart = RawPart
  (rp_mime_type: string) (rp_filename: string) (rp_headers: "RawHeader list")
  (rp_body: "RawBody option") (rp_parts: "RawPart list")

record RawMessage =
  rm_id :: string
  rm_thread_id :: string
  rm_label_ids :: "string list"
  rm_snippet :: string
  rm_internal_date :: string
  rm_payload :: "RawPart option"

text \<open>An array of values, each read by \<open>f\<close>; one failure fails the whole.\<close>

fun de_vec :: "(json \<Rightarrow> 'a option) \<Rightarrow> json \<Rightarrow> 'a list option" where
  "de_vec f (JArray vs) = those (map f vs)"
| "de_vec f _ = None"

definition de_raw_header :: "json \<Rightarrow> RawHeader option" where
  "de_raw_header = de_struct 2 [''name'', ''value''] (\<lambda>v.
     Option.bind (de_required as_str ''name'' v) (\<lambda>n.
     Option.bind (de_required as_str ''value'' v) (\<lambda>x.
     Some \<lparr>rh_name = n, rh_value = x\<rparr>)))"

text \<open>The body is read with the literal field name \<open>attachment_id\<close>.\<close>

definition de_raw_body :: "json \<Rightarrow> RawBody option" where
  "de_raw_body = de_struct 0 [''size'', ''data'', ''attachment_id''] (\<lambda>v.
     Option.bind (de_default 0 as_u64 ''size'' v) (\<lambda>s.
     Option.bind (de_option as_str ''data'' v) (\<lambda>d.
     Option.bind (de_option as_str ''attachment_id'' v) (\<lambda>a.
     Some \<lparr>rb_size = s, rb_data = d, rb_attachment_id = a\<rparr>))))"

definition part_fields :: "string list" where
  "part_fields = [''mimeType'', ''filename'', ''headers'', ''body'', ''parts'']"

function de_raw_part :: "json \<Rightarrow> RawPart option" where
  "de_raw_part value = (case struct_view 0 part_fields value of
      JObject kvs \<Rightarrow>
        Option.bind (de_default [] as_str ''mimeType'' (JObject kvs)) (\<lambda>mime.
        Option.bind (de_default [] as_str ''filename'' (JObject kvs)) (\<lambda>file.
        Option.bind (de_default [] (de_vec de_raw_header) ''headers'' (JObject kvs)) (\<lambda>hs.
        Option.bind (de_option de_raw_body ''body'' (JObject kvs)) (\<lambda>b.
        Option.bind (case json_get ''parts'' (struct_view 0 part_fields value) of
            None \<Rightarrow> Some []
          | Some (JArray vs) \<Rightarrow> those (map de_raw_part vs)
          | Some _ \<Rightarrow> None) (\<lambda>ps.
        Some (RawPart mime file hs b ps))))))
    | _ \<Rightarrow> None)"
  by pat_completeness auto
termination
proof (relation "measure size")
  fix val :: json and kvs x vs v
  assume "json_get ''parts'' (struct_view 0 part_fields val) = Some x" "x = JArray vs" "v \<in> set vs"
  then have "size (JArray vs) < size val" "size v < Suc (size_list size vs)"
    using size_struct_get size_list_member by blast+
  then show "(v, val) \<in> measure size" by simp
qed simp

declare de_raw_part.simps [simp del]

definition de_raw_message :: "json \<Rightarrow> RawMessage option" where
  "de_raw_message = de_struct 2 [''id'', ''threadId'', ''labelIds'', ''snippet'', ''internalDate'', ''payload''] (\<lambda>v.
     Option.bind (de_required as_str ''id'' v) (\<lambda>i.
     Option.bind (de_required as_str ''threadId'' v) (\<lambda>t.
     Option.bind (de_default [] de_vec_string ''labelIds'' v) (\<lambda>ls.
     Option.bind (de_default [] as_str ''snippet'' v) (\<lambda>s.
     Option.bind (de_default [] as_str ''internalDate'' v) (\<lambda>d.
     Option.bind (de_option de_raw_part ''payload'' v) (\<lambda>p.
     Some \<lparr>rm_id = i, rm_thread_id = t, rm_label_ids = ls, rm_snippet = s, rm_internal_date = d,
           rm_payload = p\<rparr>)))))))"

section \<open>Addresses and dates\<close>

definition parse_address :: "string \<Rightarrow> EmailAddress" where
  "parse_address raw = (case str_rfind CHR ''<'' raw of
      Some opn \<Rightarrow> (case str_find CHR ''>'' (drop opn raw) of
          Some cls \<Rightarrow>
            (let email = trim (take (cls - 1) (drop (opn + 1) raw));
                 name = trim (trim_matches CHR 0x22 (trim (take opn raw)))
             in \<lparr>ea_email = email, ea_name = (if name = [] then None else Some name)\<rparr>)
        | None \<Rightarrow> \<lparr>ea_email = trim raw, ea_name = None\<rparr>)
    | None \<Rightarrow> \<lparr>ea_email = trim raw, ea_name = None\<rparr>)"

definition parse_address_list :: "string \<Rightarrow> EmailAddress list" where
  "parse_address_list raw = map parse_address (split_char CHR '','' raw)"

definition header_date :: "crates \<Rightarrow> string option \<Rightarrow> datetime option" where
  "header_date X h = Option.bind h (parse_rfc2822 X)"

definition millis_date :: "crates \<Rightarrow> string \<Rightarrow> datetime option" where
  "millis_date X ms = Option.bind (parse_i64 ms) (from_timestamp_millis X)"

definition parse_date :: "crates \<Rightarrow> env \<Rightarrow> string option \<Rightarrow> string \<Rightarrow> (net, datetime) io" where
  "parse_date X E header internal_ms = (case header_date X header of
      Some d \<Rightarrow> io_ret d
    | None \<Rightarrow> (case millis_date X internal_ms of
        Some d \<Rightarrow> io_ret d
      | None \<Rightarrow> clock_now E))"

section \<open>Labels\<close>

definition system_labels :: "string list" where
  "system_labels = [''INBOX'', ''SENT'', ''TRASH'', ''DRAFT'', ''SPAM'', ''STARRED'', ''UNREAD'', ''IMPORTANT'',
     ''CHAT'', ''CATEGORY_PERSONAL'', ''CATEGORY_SOCIAL'', ''CATEGORY_PROMOTIONS'', ''CATEGORY_UPDATES'',
     ''CATEGORY_FORUMS'']"

definition is_system_label :: "string \<Rightarrow> bool" where
  "is_system_label i \<longleftrightarrow> i \<in> set system_labels"

definition primary_folder :: "string list \<Rightarrow> FolderId option" where
  "primary_folder label_ids = map_option FolderId
     (find (\<lambda>s. s \<in> set label_ids) [''INBOX'', ''SENT'', ''TRASH'', ''DRAFT'', ''SPAM''])"

section \<open>Bodies and attachments\<close>

definition decode_body :: "crates \<Rightarrow> RawBody \<Rightarrow> string option" where
  "decode_body X b = Option.bind (rb_data b) (\<lambda>data.
     Option.bind (b64url_decode X data) (\<lambda>bytes. if valid_utf8 bytes then Some bytes else None))"

record walk =
  wk_text :: "string option"
  wk_html :: "string option"
  wk_attachments :: "AttachmentMeta list"

definition visit_part :: "crates \<Rightarrow> RawPart \<Rightarrow> walk \<Rightarrow> walk" where
  "visit_part X part w =
     (let mime = map ascii_lower (rp_mime_type part) in
      if mime = ''text/plain'' \<and> wk_text w = None then
        w\<lparr>wk_text := Option.bind (rp_body part) (decode_body X)\<rparr>
      else if mime = ''text/html'' \<and> wk_html w = None then
        w\<lparr>wk_html := Option.bind (rp_body part) (decode_body X)\<rparr>
      else if rp_filename part \<noteq> [] then
        (case rp_body part of
           Some body \<Rightarrow> w\<lparr>wk_attachments := wk_attachments w @
             [\<lparr>am_id = unwrap_or [] (rb_attachment_id body), am_filename = rp_filename part,
               am_mime_type = rp_mime_type part, am_size_bytes = rb_size body\<rparr>]\<rparr>
         | None \<Rightarrow> w)
      else w)"

function walk_parts :: "crates \<Rightarrow> RawPart \<Rightarrow> walk \<Rightarrow> walk" where
  "walk_parts X part w = fold (\<lambda>sub acc. walk_parts X sub acc) (rp_parts part) (visit_part X part w)"
  by pat_completeness auto
termination
proof (relation "measure (\<lambda>(X, part, w). size part)")
  fix X part w sub acc
  assume "sub \<in> set (rp_parts part)"
  then show "((X, sub, acc), X, part, w) \<in> measure (\<lambda>(X, part, w). size part)"
    by (cases part) (auto dest: size_list_member [where 'a = RawPart])
qed simp

declare walk_parts.simps [simp del]

section \<open>Messages\<close>

definition header_map :: "RawHeader list \<Rightarrow> string \<rightharpoonup> string" where
  "header_map hs = map_of (rev (map (\<lambda>h. (map ascii_lower (rh_name h), rh_value h)) hs))"

definition decode :: "crates \<Rightarrow> env \<Rightarrow> RawMessage \<Rightarrow> (net, Message) io" where
  "decode X E raw =
     io_bind (io_res (ok_or (Provider ''message missing payload'') (rm_payload raw))) (\<lambda>payload.
     let headers = header_map (rp_headers payload);
         addresses = (\<lambda>k. case headers k of Some s \<Rightarrow> parse_address_list s | None \<Rightarrow> []);
         ids = rm_label_ids raw;
         wk = walk_parts X payload \<lparr>wk_text = None, wk_html = None, wk_attachments = []\<rparr>
     in io_bind (parse_date X E (headers ''date'') (rm_internal_date raw)) (\<lambda>date.
     io_ret \<lparr>m_id = MessageId (rm_id raw), m_thread_id = ThreadId (rm_thread_id raw),
       m_from = map_option parse_address (headers ''from''),
       m_to = addresses ''to'', m_cc = addresses ''cc'', m_bcc = addresses ''bcc'',
       m_subject = unwrap_or [] (headers ''subject''), m_date = date,
       m_body_text = wk_text wk, m_body_html = wk_html wk,
       m_labels = map LabelId (filter (\<lambda>i. \<not> is_system_label i) ids),
       m_folder = primary_folder ids,
       m_flags = \<lparr>mf_read = (''UNREAD'' \<notin> set ids), mf_starred = (''STARRED'' \<in> set ids),
                  mf_draft = (''DRAFT'' \<in> set ids)\<rparr>,
       m_attachments = wk_attachments wk, m_snippet = rm_snippet raw\<rparr>))"

section \<open>Facts\<close>

lemma parse_date_safe: "safe b (extends w0) (parse_date X E h ms)"
  unfolding parse_date_def by (auto intro: clock_now_safe split: option.split)

lemma decode_safe: "safe b (extends w0) (decode X E raw)"
  unfolding decode_def Let_def by (intro safe_bind safe_res safe_ret parse_date_safe) simp

lemma parse_address_named:
  assumes "tidy name" "tidy email" "CHR ''<'' \<notin> set email" "CHR ''>'' \<notin> set email"
  shows "parse_address (name @ '' <'' @ email @ ''>'') = \<lparr>ea_email = email, ea_name = Some name\<rparr>"
proof -
  have "str_rfind CHR ''<'' (name @ '' <'' @ email @ ''>'') = Some (length name + 1)"
    using str_rfind_last [of "CHR ''<''" "email @ ''>''" "name @ '' ''"] assms(3) by simp
  moreover have "drop (length name + 1) (name @ '' <'' @ email @ ''>'') = ''<'' @ email @ ''>''" by simp
  moreover have "str_find CHR ''>'' (''<'' @ email @ ''>'') = Some (length email + 1)"
    using str_find_first [of "CHR ''>''" "''<'' @ email" "[]"] assms(4) by simp
  moreover have "name \<noteq> []" using assms(1) by (simp add: tidy_def)
  ultimately show ?thesis
    using trim_tidy_space [OF assms(1)] trim_tidy [OF assms(1)] trim_tidy [OF assms(2)]
      trim_matches_quote [OF assms(1)]
    by (simp add: parse_address_def Let_def)
qed

lemma parse_address_bare:
  assumes "tidy email" "CHR ''<'' \<notin> set email"
  shows "parse_address email = \<lparr>ea_email = email, ea_name = None\<rparr>"
  using assms trim_tidy [OF assms(1)] by (simp add: parse_address_def str_rfind_def)

section \<open>Properties\<close>

text \<open>
  Address headers in the form Gmail sends them are read back: a list of bare addresses,
  joined by commas, parses to exactly those addresses, and "Name <email>" parses to the name and
  the address.
\<close>

lemma addresses_parse_back:
  assumes "emails \<noteq> []" and "\<And>e. e \<in> set emails \<Longrightarrow> tidy e \<and> CHR ''<'' \<notin> set e \<and> CHR ''>'' \<notin> set e \<and> CHR '','' \<notin> set e"
    and "tidy name" and "e \<in> set emails"
  shows "parse_address_list (join '','' emails) = map (\<lambda>e. \<lparr>ea_email = e, ea_name = None\<rparr>) emails \<and>
    parse_address (name @ '' <'' @ e @ ''>'') = \<lparr>ea_email = e, ea_name = Some name\<rparr>"
proof
  show "parse_address (name @ '' <'' @ e @ ''>'') = \<lparr>ea_email = e, ea_name = Some name\<rparr>"
    using assms(2) [OF assms(4)] parse_address_named [OF assms(3)] by blast
  have "split_char CHR '','' (join '','' emails) = emails"
    using split_char_join [OF assms(1)] assms(2) by simp
  then show "parse_address_list (join '','' emails) = map (\<lambda>e. \<lparr>ea_email = e, ea_name = None\<rparr>) emails"
    using assms(2) parse_address_bare by (simp add: parse_address_list_def)
qed

lemma addresses_parse_back_example:
  "parse_address_list (join '','' [''a@x.org'', ''b@y.org'']) =
     [\<lparr>ea_email = ''a@x.org'', ea_name = None\<rparr>, \<lparr>ea_email = ''b@y.org'', ea_name = None\<rparr>]"
proof -
  have ok: "tidy e \<and> CHR ''<'' \<notin> set e \<and> CHR ''>'' \<notin> set e \<and> CHR '','' \<notin> set e"
    if "e \<in> set [''a@x.org'', ''b@y.org'']" for e
    using that by (auto simp: tidy_def alnum_def)
  have "tidy ''Al''" by (simp add: tidy_def alnum_def)
  from addresses_parse_back [where e = "''a@x.org''" and emails = "[''a@x.org'', ''b@y.org'']", OF _ ok this] show ?thesis by simp
qed

text \<open>
  A comma inside a quoted display name is taken for a separator: one mailbox is returned as
  two, the first of which is not an address.
\<close>

lemma quoted_comma_splits_mailbox:
  "map ea_email (parse_address_list ([CHR 0x22] @ ''Doe, Jane'' @ [CHR 0x22] @ '' <jane@example.com>'')) =
     [[CHR 0x22] @ ''Doe'', ''jane@example.com'']"
  by code_simp

text \<open>
  Attachment identifiers are lost: the API sends \<open>attachmentId\<close>, the field is read as
  \<open>attachment_id\<close>, so an attachment part with a file name yields an entry with an empty identifier.
\<close>

lemma attachment_id_is_lost:
  assumes "de_raw_body (JObject [(''attachmentId'', JString a), (''size'', JNumber (PosInt n))]) = Some body"
    and "rp_body part = Some body" and "rp_filename part \<noteq> []"
    and "map ascii_lower (rp_mime_type part) \<notin> {''text/plain'', ''text/html''}"
  shows "wk_attachments (visit_part X part w) = wk_attachments w @
    [\<lparr>am_id = [], am_filename = rp_filename part, am_mime_type = rp_mime_type part, am_size_bytes = n\<rparr>]"
  using assms by (auto simp: de_raw_body_def de_defs visit_part_def Let_def)

lemma attachment_id_is_lost_example:
  "\<exists>body. de_raw_body (JObject [(''attachmentId'', JString ''ANGjdJ''), (''size'', JNumber (PosInt 5))]) = Some body \<and>
     wk_attachments (visit_part (sample_crates []) (RawPart ''image/png'' ''a.png'' [] (Some body) [])
       \<lparr>wk_text = None, wk_html = None, wk_attachments = []\<rparr>) =
     [\<lparr>am_id = [], am_filename = ''a.png'', am_mime_type = ''image/png'', am_size_bytes = 5\<rparr>]"
proof -
  obtain body where b: "de_raw_body (JObject [(''attachmentId'', JString ''ANGjdJ''), (''size'', JNumber (PosInt 5))]) = Some body"
    by (simp add: de_raw_body_def de_defs)
  have "map ascii_lower ''image/png'' \<notin> {''text/plain'', ''text/html''}" by (simp add: ascii_lower_def)
  with attachment_id_is_lost [OF b, of "RawPart ''image/png'' ''a.png'' [] (Some body) []"] b show ?thesis by simp
qed

text \<open>
  Flags and placement come from the label identifiers alone: a decoded message is unread
  exactly with \<open>UNREAD\<close>, starred with \<open>STARRED\<close>, a draft with \<open>DRAFT\<close>; its labels are the
  identifiers that are not system labels, in order; and its folder is the first of inbox, sent,
  trash, draft, spam that is present.
\<close>

lemma decode_reads_labels:
  assumes "decode X E raw w = (Ok m, w')"
  shows "(mf_read (m_flags m) \<longleftrightarrow> ''UNREAD'' \<notin> set (rm_label_ids raw)) \<and>
    (mf_starred (m_flags m) \<longleftrightarrow> ''STARRED'' \<in> set (rm_label_ids raw)) \<and>
    (mf_draft (m_flags m) \<longleftrightarrow> ''DRAFT'' \<in> set (rm_label_ids raw)) \<and>
    set (m_labels m) = LabelId ` (set (rm_label_ids raw) - set system_labels) \<and>
    (m_folder m = None \<longleftrightarrow> set (rm_label_ids raw) \<inter> {''INBOX'', ''SENT'', ''TRASH'', ''DRAFT'', ''SPAM''} = {}) \<and>
    (\<forall>f. m_folder m = Some f \<longrightarrow> folder_id_str f \<in> set (rm_label_ids raw) \<and>
      (''INBOX'' \<in> set (rm_label_ids raw) \<longrightarrow> f = FolderId ''INBOX''))"
proof -
  have "m_flags m = \<lparr>mf_read = (''UNREAD'' \<notin> set (rm_label_ids raw)), mf_starred = (''STARRED'' \<in> set (rm_label_ids raw)),
       mf_draft = (''DRAFT'' \<in> set (rm_label_ids raw))\<rparr>"
    and labels: "m_labels m = map LabelId (filter (\<lambda>i. \<not> is_system_label i) (rm_label_ids raw))"
    and "m_folder m = primary_folder (rm_label_ids raw)"
    using assms by (auto simp: decode_def Let_def io_bind_Ok_iff)
  moreover have "set (m_labels m) = LabelId ` (set (rm_label_ids raw) - set system_labels)"
    by (auto simp: labels is_system_label_def)
  ultimately show ?thesis
    by (auto simp: primary_folder_def split: if_splits)
qed

lemma decode_reads_labels_example:
  "\<exists>m w'. decode (sample_crates []) quiet_env \<lparr>rm_id = ''m1'', rm_thread_id = ''t1'', rm_label_ids = [''UNREAD'', ''INBOX'', ''Label_7''],
      rm_snippet = [], rm_internal_date = ''0'', rm_payload = Some (RawPart [] [] [] None [])\<rparr> empty_net = (Ok m, w') \<and>
     \<not> mf_read (m_flags m) \<and> m_folder m = Some (FolderId ''INBOX'') \<and> set (m_labels m) = {LabelId ''Label_7''}"
proof -
  let ?raw = "\<lparr>rm_id = ''m1'', rm_thread_id = ''t1'', rm_label_ids = [''UNREAD'', ''INBOX'', ''Label_7''],
      rm_snippet = [], rm_internal_date = ''0'', rm_payload = Some (RawPart [] [] [] None [])\<rparr>"
  have "is_ok (fst (decode (sample_crates []) quiet_env ?raw empty_net))"
    by (simp add: decode_def Let_def io_bind_def parse_date_def clock_now_def split: option.split)
  then obtain m w' where d: "decode (sample_crates []) quiet_env ?raw empty_net = (Ok m, w')"
    by (cases "decode (sample_crates []) quiet_env ?raw empty_net"; cases "fst (decode (sample_crates []) quiet_env ?raw empty_net)") auto
  have "\<exists>f. m_folder m = Some f" using decode_reads_labels [OF d] by auto
  with decode_reads_labels [OF d] d show ?thesis by (auto simp: system_labels_def)
qed

end
