(* ===== verification/Gmail.thy ===== *)
theory Gmail
  imports Gmail_Parse Auth_Client Dispatch
begin

text \<open>
  The Gmail provider (\<^verbatim>\<open>providers/gmail\<close>: messages, labels, triage, trash, compose, provider).
  Every operation is a sequence of authenticated requests to URLs built by concatenation; the
  provider record of these operations meets the contract of dispatch.
\<close>

section \<open>Requests\<close>

text \<open>\<open>client.get(url).await?.error_for_status()?.json().await?\<close> and its relatives.\<close>

definition checked_json :: "crates \<Rightarrow> string \<Rightarrow> (json \<Rightarrow> 'a option) \<Rightarrow> (net, http_response) io \<Rightarrow> (net, 'a) io" where
  "checked_json X what de m = io_bind m (\<lambda>r. io_bind (io_res (error_for_status r))
     (\<lambda>r. io_res (resp_json X what de r)))"

definition checked :: "(net, http_response) io \<Rightarrow> (net, unit) io" where
  "checked m = io_bind m (\<lambda>r. io_bind (io_res (error_for_status r)) (\<lambda>_. io_ret ()))"

lemma checked_json_safe: "safe b P m \<Longrightarrow> safe b P (checked_json X what de m)"
  unfolding checked_json_def by (intro safe_bind safe_res) simp_all

lemma checked_safe: "safe b P m \<Longrightarrow> safe b P (checked m)"
  unfolding checked_def by (intro safe_bind safe_res safe_ret) simp_all

section \<open>Messages\<close>

record ThreadsList =
  tl_threads :: "string list"
  tl_next_page_token :: "string option"

definition de_thread_stub :: "json \<Rightarrow> string option" where
  "de_thread_stub = de_struct 1 [''id''] (de_required as_str ''id'')"

definition de_threads_list :: "json \<Rightarrow> ThreadsList option" where
  "de_threads_list = de_struct 0 [''threads'', ''nextPageToken''] (\<lambda>v.
     Option.bind (de_default [] (de_vec de_thread_stub) ''threads'' v) (\<lambda>ts.
     Option.bind (de_option as_str ''nextPageToken'' v) (\<lambda>n.
     Some \<lparr>tl_threads = ts, tl_next_page_token = n\<rparr>)))"

definition de_thread_full :: "json \<Rightarrow> RawMessage list option" where
  "de_thread_full = de_struct 2 [''id'', ''messages''] (\<lambda>v.
     Option.bind (de_required as_str ''id'' v) (\<lambda>_. de_required (de_vec de_raw_message) ''messages'' v))"

text \<open>The parameters of a search: a separator, then name and value, only the text encoded.\<close>

definition search_params :: "crates \<Rightarrow> SearchQuery \<Rightarrow> string list" where
  "search_params X q =
     (case q_text q of None \<Rightarrow> [] | Some t \<Rightarrow> [''q='' @ pct_encode X t]) @
     (case q_label q of None \<Rightarrow> [] | Some l \<Rightarrow> [''labelIds='' @ label_id_str l]) @
     (case q_folder q of None \<Rightarrow> [] | Some f \<Rightarrow> [''labelIds='' @ folder_id_str f]) @
     (case q_limit q of None \<Rightarrow> [] | Some n \<Rightarrow> [''maxResults='' @ show_nat (unat n)]) @
     (case q_cursor q of None \<Rightarrow> [] | Some c \<Rightarrow> [''pageToken='' @ c])"

definition search_url :: "crates \<Rightarrow> string \<Rightarrow> SearchQuery \<Rightarrow> string" where
  "search_url X base q =
     (let ps = search_params X q in
      base @ ''/users/me/threads'' @ (if ps = [] then [] else ''?'' @ join ''&'' ps))"

definition get_thread_full :: "crates \<Rightarrow> env \<Rightarrow> AuthClient \<Rightarrow> string \<Rightarrow> ThreadId \<Rightarrow> (net, Thread) io" where
  "get_thread_full X E c base i =
     io_bind (checked_json X ''ThreadFull'' de_thread_full
       (client_get X E c (base @ ''/users/me/threads/'' @ thread_id_str i))) (\<lambda>raws.
     io_bind (io_map (decode X E) raws) (\<lambda>ms.
     io_ret \<lparr>t_id = i, t_subject = (case ms of [] \<Rightarrow> [] | m # _ \<Rightarrow> m_subject m), t_messages = ms\<rparr>))"

definition thread_summary :: "Thread \<Rightarrow> ThreadSummary res" where
  "thread_summary t = (case t_messages t of
      [] \<Rightarrow> Err (Provider ''thread has no messages'')
    | _ # _ \<Rightarrow> (let lst = last (t_messages t) in Ok
        \<lparr>ts_id = t_id t, ts_last_message_id = m_id lst, ts_subject = t_subject t,
         ts_snippet = m_snippet lst, ts_from = m_from lst, ts_date = m_date lst,
         ts_message_count = of_nat (length (t_messages t)), ts_unread = (\<not> mf_read (m_flags lst)),
         ts_starred = mf_starred (m_flags lst), ts_labels = m_labels lst, ts_folder = m_folder lst\<rparr>))"

definition gmail_search :: "crates \<Rightarrow> env \<Rightarrow> AuthClient \<Rightarrow> string \<Rightarrow> SearchQuery \<Rightarrow> (net, SearchResults) io" where
  "gmail_search X E c base q =
     io_bind (checked_json X ''ThreadsList'' de_threads_list (client_get X E c (search_url X base q))) (\<lambda>list.
     io_bind (io_map (\<lambda>stub. io_bind (get_thread_full X E c base (ThreadId stub))
         (\<lambda>t. io_res (thread_summary t))) (tl_threads list)) (\<lambda>summaries.
     io_ret \<lparr>sr_threads = summaries, sr_next_cursor = tl_next_page_token list\<rparr>))"

definition gmail_get_message :: "crates \<Rightarrow> env \<Rightarrow> AuthClient \<Rightarrow> string \<Rightarrow> MessageId \<Rightarrow> (net, Message) io" where
  "gmail_get_message X E c base i =
     io_bind (checked_json X ''RawMessage'' de_raw_message
       (client_get X E c (base @ ''/users/me/messages/'' @ message_id_str i @ ''?format=full'')))
     (decode X E)"

section \<open>Labels\<close>

record RawLabel =
  rl_id :: string
  rl_name :: string
  rl_kind :: string

definition de_raw_label :: "json \<Rightarrow> RawLabel option" where
  "de_raw_label = de_struct 3 [''id'', ''name'', ''type''] (\<lambda>v.
     Option.bind (de_required as_str ''id'' v) (\<lambda>i.
     Option.bind (de_required as_str ''name'' v) (\<lambda>n.
     Option.bind (de_required as_str ''type'' v) (\<lambda>k.
     Some \<lparr>rl_id = i, rl_name = n, rl_kind = k\<rparr>))))"

definition de_labels_response :: "json \<Rightarrow> RawLabel list option" where
  "de_labels_response = de_struct 1 [''labels''] (de_required (de_vec de_raw_label) ''labels'')"

definition gmail_list_labels :: "crates \<Rightarrow> env \<Rightarrow> AuthClient \<Rightarrow> string \<Rightarrow> (net, Label list) io" where
  "gmail_list_labels X E c base =
     io_bind (checked_json X ''LabelsResponse'' de_labels_response (client_get X E c (base @ ''/users/me/labels''))) (\<lambda>ls.
     io_ret (map (\<lambda>l. \<lparr>l_id = LabelId (rl_id l), l_name = rl_name l, l_system = False\<rparr>)
       (filter (\<lambda>l. rl_kind l = ''user'') ls)))"

definition gmail_list_folders :: "crates \<Rightarrow> env \<Rightarrow> AuthClient \<Rightarrow> string \<Rightarrow> (net, Folder list) io" where
  "gmail_list_folders X E c base =
     io_bind (checked_json X ''LabelsResponse'' de_labels_response (client_get X E c (base @ ''/users/me/labels''))) (\<lambda>ls.
     io_ret (map (\<lambda>l. \<lparr>f_id = FolderId (rl_id l), f_name = rl_name l, f_system = True\<rparr>)
       (filter (\<lambda>l. rl_kind l = ''system'') ls)))"

section \<open>Triage and trash\<close>

record ModifyRequest =
  mr_add :: "string list"
  mr_remove :: "string list"

definition modify_json :: "ModifyRequest \<Rightarrow> json" where
  "modify_json r = JObject
     ((if mr_add r = [] then [] else [(''addLabelIds'', JArray (map JString (mr_add r)))]) @
      (if mr_remove r = [] then [] else [(''removeLabelIds'', JArray (map JString (mr_remove r)))]))"

definition modify_url :: "string \<Rightarrow> MessageId \<Rightarrow> string" where
  "modify_url base i = base @ ''/users/me/messages/'' @ message_id_str i @ ''/modify''"

definition modify_one :: "crates \<Rightarrow> env \<Rightarrow> AuthClient \<Rightarrow> string \<Rightarrow> ModifyRequest \<Rightarrow> MessageId \<Rightarrow> (net, unit) io" where
  "modify_one X E c base req i = checked (post_json X E c (modify_url base i) (modify_json req))"

definition modify_all :: "crates \<Rightarrow> env \<Rightarrow> AuthClient \<Rightarrow> string \<Rightarrow> MessageId list \<Rightarrow> ModifyRequest \<Rightarrow> (net, unit) io" where
  "modify_all X E c base ids req = io_for (modify_one X E c base req) ids"

definition mark_read_request :: "bool \<Rightarrow> ModifyRequest" where
  "mark_read_request read = (if read then \<lparr>mr_add = [], mr_remove = [''UNREAD'']\<rparr>
     else \<lparr>mr_add = [''UNREAD''], mr_remove = []\<rparr>)"

definition star_request :: "bool \<Rightarrow> ModifyRequest" where
  "star_request starred = (if starred then \<lparr>mr_add = [''STARRED''], mr_remove = []\<rparr>
     else \<lparr>mr_add = [], mr_remove = [''STARRED'']\<rparr>)"

definition label_request :: "LabelId \<Rightarrow> bool \<Rightarrow> ModifyRequest" where
  "label_request l on = (if on then \<lparr>mr_add = [label_id_str l], mr_remove = []\<rparr>
     else \<lparr>mr_add = [], mr_remove = [label_id_str l]\<rparr>)"

definition move_request :: "FolderId \<Rightarrow> ModifyRequest" where
  "move_request f = \<lparr>mr_add = [folder_id_str f],
     mr_remove = filter (\<lambda>s. folder_id_str f \<noteq> s) [''INBOX'', ''SPAM'', ''TRASH'']\<rparr>"

definition archive_request :: ModifyRequest where
  "archive_request = \<lparr>mr_add = [], mr_remove = [''INBOX'']\<rparr>"

definition trash_url :: "string \<Rightarrow> MessageId \<Rightarrow> string" where
  "trash_url base i = base @ ''/users/me/messages/'' @ message_id_str i @ ''/trash''"

definition gmail_trash :: "crates \<Rightarrow> env \<Rightarrow> AuthClient \<Rightarrow> string \<Rightarrow> MessageId list \<Rightarrow> (net, unit) io" where
  "gmail_trash X E c base ids =
     io_for (\<lambda>i. checked (post_json X E c (trash_url base i) (JObject []))) ids"

definition gmail_untrash :: "crates \<Rightarrow> env \<Rightarrow> AuthClient \<Rightarrow> string \<Rightarrow> MessageId list \<Rightarrow> (net, unit) io" where
  "gmail_untrash X E c base ids =
     io_for (\<lambda>i. checked (post_json X E c
       (base @ ''/users/me/messages/'' @ message_id_str i @ ''/untrash'') (JObject []))) ids"

section \<open>Compose\<close>

definition build_mime :: "crates \<Rightarrow> DraftInput \<Rightarrow> string option \<Rightarrow> string res" where
  "build_mime X d from = map_err (\<lambda>e. Provider (''mime build failed: '' @ e)) (mime_write X
     \<lparr>mb_from = from, mb_to = map ea_email (di_to d),
      mb_cc = (if di_cc d = [] then None else Some (map ea_email (di_cc d))),
      mb_bcc = (if di_bcc d = [] then None else Some (map ea_email (di_bcc d))),
      mb_subject = di_subject d, mb_text_body = di_body_text d, mb_html_body = di_body_html d,
      mb_in_reply_to = map_option message_id_str (di_in_reply_to d)\<rparr>)"

definition draft_payload :: "crates \<Rightarrow> string \<Rightarrow> ThreadId option \<Rightarrow> json" where
  "draft_payload X mime thread = JObject [(''message'', JObject
     ([(''raw'', JString (b64url_encode X mime))] @
      skip_none ''threadId'' (\<lambda>t. JString (thread_id_str t)) thread))]"

definition de_id :: "json \<Rightarrow> string option" where
  "de_id = de_struct 1 [''id''] (de_required as_str ''id'')"

definition gmail_create_draft :: "crates \<Rightarrow> env \<Rightarrow> AuthClient \<Rightarrow> string \<Rightarrow> string option \<Rightarrow> DraftInput \<Rightarrow> (net, DraftId) io" where
  "gmail_create_draft X E c base from d =
     io_bind (io_res (build_mime X d from)) (\<lambda>mime.
     io_bind (checked_json X ''DraftCreateResp'' de_id
       (post_json X E c (base @ ''/users/me/drafts'') (draft_payload X mime (di_thread_id d)))) (\<lambda>i.
     io_ret (DraftId i)))"

definition gmail_update_draft :: "crates \<Rightarrow> env \<Rightarrow> AuthClient \<Rightarrow> string \<Rightarrow> string option \<Rightarrow> DraftId \<Rightarrow> DraftInput \<Rightarrow> (net, unit) io" where
  "gmail_update_draft X E c base from i d =
     io_bind (io_res (build_mime X d from)) (\<lambda>mime.
     checked (put_json X E c (base @ ''/users/me/drafts/'' @ draft_id_str i) (draft_payload X mime (di_thread_id d))))"

record DraftDetail =
  dd_id :: string
  dd_msg_id :: string
  dd_snippet :: string
  dd_internal_date :: string
  dd_headers :: "RawHeader list"

definition de_draft_list :: "json \<Rightarrow> string list option" where
  "de_draft_list = de_struct 0 [''drafts''] (de_default [] (de_vec de_id) ''drafts'')"

definition de_draft_payload :: "json \<Rightarrow> RawHeader list option" where
  "de_draft_payload = de_struct 0 [''headers''] (de_default [] (de_vec de_raw_header) ''headers'')"

definition de_draft_msg :: "string \<Rightarrow> json \<Rightarrow> DraftDetail option" where
  "de_draft_msg i = de_struct 1 [''id'', ''snippet'', ''internalDate'', ''payload''] (\<lambda>v.
     Option.bind (de_required as_str ''id'' v) (\<lambda>m.
     Option.bind (de_default [] as_str ''snippet'' v) (\<lambda>s.
     Option.bind (de_default [] as_str ''internalDate'' v) (\<lambda>d.
     Option.bind (de_option de_draft_payload ''payload'' v) (\<lambda>p.
     Some \<lparr>dd_id = i, dd_msg_id = m, dd_snippet = s, dd_internal_date = d, dd_headers = unwrap_or [] p\<rparr>)))))"

definition de_draft_detail :: "json \<Rightarrow> DraftDetail option" where
  "de_draft_detail = de_struct 2 [''id'', ''message''] (\<lambda>v.
     Option.bind (de_required as_str ''id'' v) (\<lambda>i. de_required (de_draft_msg i) ''message'' v))"

definition draft_summary :: "crates \<Rightarrow> env \<Rightarrow> DraftDetail \<Rightarrow> (net, DraftSummary) io" where
  "draft_summary X E d =
     io_bind (case millis_date X (dd_internal_date d) of Some t \<Rightarrow> io_ret t | None \<Rightarrow> clock_now E) (\<lambda>date.
     io_ret \<lparr>ds_id = DraftId (dd_id d), ds_message_id = MessageId (dd_msg_id d),
       ds_subject = (case find (\<lambda>h. eq_ignore_ascii_case (rh_name h) ''Subject'') (dd_headers d) of
         Some h \<Rightarrow> rh_value h | None \<Rightarrow> []),
       ds_snippet = dd_snippet d, ds_date = date\<rparr>)"

definition gmail_list_drafts :: "crates \<Rightarrow> env \<Rightarrow> AuthClient \<Rightarrow> string \<Rightarrow> (net, DraftSummary list) io" where
  "gmail_list_drafts X E c base =
     io_bind (checked_json X ''DraftListResp'' de_draft_list (client_get X E c (base @ ''/users/me/drafts''))) (\<lambda>ids.
     io_map (\<lambda>i. io_bind (checked_json X ''DraftDetail'' de_draft_detail (client_get X E c
         (base @ ''/users/me/drafts/'' @ i @ ''?format=metadata&metadataHeaders=Subject'')))
       (draft_summary X E)) ids)"

definition gmail_send_draft :: "crates \<Rightarrow> env \<Rightarrow> AuthClient \<Rightarrow> string \<Rightarrow> DraftId \<Rightarrow> (net, MessageId) io" where
  "gmail_send_draft X E c base i =
     io_bind (checked_json X ''SendResp'' de_id (post_json X E c (base @ ''/users/me/drafts/send'')
       (JObject [(''id'', JString (draft_id_str i))]))) (\<lambda>m. io_ret (MessageId m))"

definition draft_of_outgoing :: "OutgoingMessage \<Rightarrow> DraftInput" where
  "draft_of_outgoing m = \<lparr>di_to = om_to m, di_cc = om_cc m, di_bcc = om_bcc m, di_subject = om_subject m,
     di_body_text = om_body_text m, di_body_html = om_body_html m, di_in_reply_to = om_in_reply_to m,
     di_thread_id = om_thread_id m\<rparr>"

definition gmail_send_message :: "crates \<Rightarrow> env \<Rightarrow> AuthClient \<Rightarrow> string \<Rightarrow> string option \<Rightarrow> OutgoingMessage \<Rightarrow> (net, MessageId) io" where
  "gmail_send_message X E c base from m =
     io_bind (io_res (build_mime X (draft_of_outgoing m) from)) (\<lambda>mime.
     io_bind (checked_json X ''SendResp'' de_id (post_json X E c (base @ ''/users/me/messages/send'')
       (JObject [(''raw'', JString (b64url_encode X mime)),
         (''threadId'', opt_json (\<lambda>t. JString (thread_id_str t)) (om_thread_id m))]))) (\<lambda>i.
     io_ret (MessageId i)))"

section \<open>The provider\<close>

definition PROD_BASE :: string where
  "PROD_BASE = ''https://gmail.googleapis.com/gmail/v1''"

definition gmail_provider :: "crates \<Rightarrow> env \<Rightarrow> AuthClient \<Rightarrow> string \<Rightarrow> string \<Rightarrow> net MailProvider" where
  "gmail_provider X E c base user_email = \<lparr>
     p_search = gmail_search X E c base,
     p_get_thread = get_thread_full X E c base,
     p_get_message = gmail_get_message X E c base,
     p_list_folders = gmail_list_folders X E c base,
     p_list_labels = gmail_list_labels X E c base,
     p_list_drafts = gmail_list_drafts X E c base,
     p_mark_read = (\<lambda>ids b. modify_all X E c base ids (mark_read_request b)),
     p_star = (\<lambda>ids b. modify_all X E c base ids (star_request b)),
     p_label = (\<lambda>ids l b. modify_all X E c base ids (label_request l b)),
     p_move_to = (\<lambda>ids f. modify_all X E c base ids (move_request f)),
     p_archive = (\<lambda>ids. modify_all X E c base ids archive_request),
     p_trash = gmail_trash X E c base,
     p_untrash = gmail_untrash X E c base,
     p_create_draft = gmail_create_draft X E c base (Some user_email),
     p_update_draft = gmail_update_draft X E c base (Some user_email),
     p_send_message = gmail_send_message X E c base (Some user_email),
     p_send_draft = gmail_send_draft X E c base\<rparr>"

definition gmail_provider_new :: "crates \<Rightarrow> env \<Rightarrow> AuthClient \<Rightarrow> string \<Rightarrow> net MailProvider" where
  "gmail_provider_new X E c user_email = gmail_provider X E c PROD_BASE user_email"

section \<open>The contract\<close>

text \<open>
  Every operation of a client built by the daemon only appends to the history of the world, and
  panics only if a token endpoint announces an impossible lifetime.
\<close>

lemmas daemon_client_safe = client_ops_safe [OF daemon_callback_extends]

lemma build_mime_no_panic [simp]: "\<not> is_panic (build_mime X d from)"
  by (simp add: build_mime_def)

lemma thread_summary_no_panic [simp]: "\<not> is_panic (thread_summary t)"
  by (simp add: thread_summary_def Let_def split: list.split)

lemma draft_summary_safe: "safe b (extends w0) (draft_summary X E d)"
  unfolding draft_summary_def
  by (intro safe_bind safe_ret) (split option.split, intro conjI allI impI clock_now_safe safe_ret)

lemma get_thread_full_safe:
  "safe (calm X E) (extends w0) (get_thread_full X E (daemon_client X E cfg cell i) base t)"
  unfolding get_thread_full_def
  by (intro safe_bind safe_map safe_ret checked_json_safe decode_safe daemon_client_safe)

lemma modify_all_safe:
  "safe (calm X E) (extends w0) (modify_all X E (daemon_client X E cfg cell i) base ids req)"
  unfolding modify_all_def modify_one_def by (intro safe_for checked_safe daemon_client_safe)

interpretation gmail: mail_provider "gmail_provider X E (daemon_client X E cfg cell i) base email"
    "extends w0" "calm X E"
  by unfold_locales
    (simp_all add: gmail_provider_def gmail_search_def gmail_get_message_def gmail_list_labels_def
      gmail_list_folders_def gmail_list_drafts_def gmail_trash_def gmail_untrash_def gmail_create_draft_def
      gmail_update_draft_def gmail_send_message_def gmail_send_draft_def get_thread_full_safe modify_all_safe,
      (intro safe_bind safe_map safe_for safe_ret safe_res checked_json_safe checked_safe decode_safe
        draft_summary_safe get_thread_full_safe daemon_client_safe; simp)+)

section \<open>Properties\<close>

text \<open>The part of a URL before the query.\<close>

definition url_path :: "string \<Rightarrow> string" where
  "url_path u = takeWhile (\<lambda>c. c \<noteq> CHR ''?'') u"

lemma takeWhile_until: "(\<And>x. x \<in> set a \<Longrightarrow> P x) \<Longrightarrow> \<not> P c \<Longrightarrow> takeWhile P (a @ c # b) = a"
  by (induction a) auto

text \<open>
  Message identifiers go into the URL as they come. A call of a modify tool (\<open>mark_read\<close>,
  \<open>star\<close>, \<open>label\<close>, \<open>move_to\<close>, \<open>archive\<close>) with the identifier \<open>m/trash?\<close> posts to the path of the
  trash endpoint of \<open>m\<close>: a tool of the modify category, allowed by default, reaches an operation
  of the trash category, which is to be confirmed by default.
\<close>

lemma modify_tool_reaches_trash_endpoint:
  assumes "CHR ''?'' \<notin> set base" and "CHR ''?'' \<notin> set m"
  shows "url_path (modify_url base (MessageId (m @ ''/trash?''))) = trash_url base (MessageId m) \<and>
    tool_category tool_mark_read = Modify \<and> default_policy Modify = Allow \<and>
    tool_category tool_trash = Trash \<and> default_policy Trash = Confirm"
proof -
  have "url_path ((base @ ''/users/me/messages/'' @ m @ ''/trash'') @ CHR ''?'' # ''/modify'') =
      base @ ''/users/me/messages/'' @ m @ ''/trash''"
    unfolding url_path_def using assms by (intro takeWhile_until) auto
  then show ?thesis by (simp add: modify_url_def trash_url_def)
qed

lemma modify_tool_reaches_trash_endpoint_example:
  "url_path (modify_url PROD_BASE (MessageId ''m1/trash?'')) = trash_url PROD_BASE (MessageId ''m1'')"
  using modify_tool_reaches_trash_endpoint [of PROD_BASE "''m1''"] by (simp add: PROD_BASE_def)

text \<open>
  The Gmail provider meets the contract of dispatch: for every operation, every environment and
  every argument, the history of the world only grows, and no operation panics as long as token
  endpoints announce lifetimes in the range of the time library.
\<close>

lemma gmail_provider_meets_contract:
  "mail_provider (gmail_provider_new X E (daemon_client X E cfg cell i) email) (extends w0) (calm X E)"
  unfolding gmail_provider_new_def by (rule gmail.mail_provider_axioms)

text \<open>
  The search summary describes the thread: it is refused for an empty thread, and otherwise
  shows the newest message, the subject of the oldest, and the number of messages modulo \<open>2^32\<close>.
\<close>

lemma thread_summary_shows_last_message:
  assumes "get_thread_full X E c base i w = (Ok t, w')"
  shows "(t_messages t = [] \<longrightarrow> thread_summary t = Err (Provider ''thread has no messages'')) \<and>
    (t_messages t \<noteq> [] \<longrightarrow> (\<exists>s. thread_summary t = Ok s \<and> ts_id s = i \<and>
       ts_last_message_id s = m_id (last (t_messages t)) \<and> ts_subject s = m_subject (hd (t_messages t)) \<and>
       ts_unread s = (\<not> mf_read (m_flags (last (t_messages t)))) \<and>
       unat (ts_message_count s) = length (t_messages t) mod 2 ^ 32))"
proof -
  have "t_id t = i" "t_subject t = (case t_messages t of [] \<Rightarrow> [] | m # _ \<Rightarrow> m_subject m)"
    using assms by (auto simp: get_thread_full_def io_bind_Ok_iff)
  moreover have "unat (of_nat (length (t_messages t)) :: 32 word) = length (t_messages t) mod 2 ^ 32"
    by (simp add: unsigned_of_nat take_bit_eq_mod)
  ultimately show ?thesis
    by (cases "t_messages t") (simp_all add: thread_summary_def Let_def del: of_nat_Suc)
qed

definition demo_thread :: json where
  "demo_thread = JObject [(''id'', JString ''t1''), (''messages'', JArray [])]"

definition thread_env :: env where
  "thread_env = \<lparr>env_http = (\<lambda>h rq. Inr \<lparr>rs_status = 200, rs_body = ''T''\<rparr>),
     env_now = (\<lambda>h. 0), env_keychain = (\<lambda>h. None)\<rparr>"

lemma thread_summary_shows_last_message_example:
  "\<exists>t w'. get_thread_full (sample_crates [(''T'', demo_thread)]) thread_env
      (daemon_client (sample_crates [(''T'', demo_thread)]) thread_env demo_cfg 0 (AccountId 1)) PROD_BASE (ThreadId ''t1'') demo_net = (Ok t, w') \<and>
    thread_summary t = Err (Provider ''thread has no messages'')"
proof -
  let ?X = "sample_crates [(''T'', demo_thread)]"
  let ?m = "get_thread_full ?X thread_env (daemon_client ?X thread_env demo_cfg 0 (AccountId 1)) PROD_BASE (ThreadId ''t1'') demo_net"
  have ok: "fst ?m = Ok \<lparr>t_id = ThreadId ''t1'', t_subject = [], t_messages = []\<rparr>"
    by (simp add: get_thread_full_def checked_json_def client_get_def auth_send_def ensure_fresh_def
        send_once_def clock_now_def access_token_def http_send_def io_bind_def thread_env_def demo_net_def
        tokens_of_def error_for_status_def status_error_def resp_json_def sample_crates_def demo_thread_def
        de_thread_full_def de_defs)
  then obtain w' where m: "?m = (Ok \<lparr>t_id = ThreadId ''t1'', t_subject = [], t_messages = []\<rparr>, w')"
    by (metis prod.collapse)
  with thread_summary_shows_last_message [OF m] show ?thesis by auto
qed

end
