(* ===== verification/Daemon.thy ===== *)
theory Daemon
  imports Ipc_Server Gmail Account_Props
begin

text \<open>
  The daemon's IPC handler (\<^verbatim>\<open>ipc_handler.rs\<close>): every method of the handler on the state that it
  shares with the MCP server, the sign-in of new accounts, and the registration of providers at
  start-up. The state extends the context of dispatch, with the world of \<^typ>\<open>net\<close> behind the
  providers.
\<close>

section \<open>State and inputs\<close>

text \<open>
  A sign-in runs in a task of its own that nothing else looks at until it is joined: the pending
  entry is the task's effect, run when it is joined; \<open>None\<close> if it never ends.
\<close>

type_synonym oauth_join = "net \<Rightarrow> ((OAuthTokens \<times> string) res \<times> net) option"

text \<open>\<open>dm_notifs\<close>: the notifications sent so far; \<open>dm_cells\<close>: the number of clients built so far.\<close>

record daemon = "net DispatchContext" +
  dm_notifs :: "Notification list"
  dm_pending_oauth :: "string \<rightharpoonup> oauth_join"
  dm_cells :: nat

record daemon_cfg =
  dc_version :: string
  dc_mcp_endpoint :: McpEndpointInfo
  dc_oauth_cfg :: ProviderConfig

text \<open>
  What a call draws from outside: the randomness of a sign-in, the port that was bound or the
  error, the connections the listener will see, a fresh identifier, the clock in seconds and the
  time since the start.
\<close>

record draw =
  dr_verifier :: string
  dr_state :: string
  dr_bound :: "string + nat"
  dr_conns :: "(nat \<times> connection) list"
  dr_ulid :: ulid
  dr_now :: int
  dr_uptime :: "64 word"

definition on_queue :: "(ApprovalQueue, 'a) io \<Rightarrow> (daemon, 'a) io" where
  "on_queue m s = (case m (ctx_approvals s) of (r, q) \<Rightarrow> (r, s\<lparr>ctx_approvals := q\<rparr>))"

definition notify :: "Notification \<Rightarrow> (daemon, unit) io" where
  "notify n s = (Ok (), s\<lparr>dm_notifs := dm_notifs s @ [n]\<rparr>)"

text \<open>\<open>AuthClient::with_rotation_callback\<close>, \<open>GmailProvider::new\<close> and \<open>registry.insert\<close>.\<close>

definition add_provider ::
  "crates \<Rightarrow> env \<Rightarrow> ProviderConfig \<Rightarrow> OAuthTokens \<Rightarrow> AccountId \<Rightarrow> string \<Rightarrow> (daemon, unit) io" where
  "add_provider X E cfg tokens i email s =
     (Ok (), registry_insert i (gmail_provider_new X E (daemon_client X E cfg (dm_cells s) i) email)
       (s\<lparr>dm_cells := Suc (dm_cells s),
         ctx_net := (ctx_net s)\<lparr>net_tokens := (net_tokens (ctx_net s))(dm_cells s := tokens)\<rparr>\<rparr>))"

section \<open>Accounts\<close>

definition ipc_account_id :: "crates \<Rightarrow> json \<Rightarrow> AccountId res" where
  "ipc_account_id X params =
     res_bind (ok_or (Provider ''missing account_id'') (get_str ''account_id'' params)) (\<lambda>s.
     map_err (\<lambda>e. Provider (''bad id: '' @ e)) (account_id_from_str X s))"

definition oauth_task ::
  "crates \<Rightarrow> env \<Rightarrow> ProviderConfig \<Rightarrow> AuthChallenge \<Rightarrow> (nat \<times> connection) list \<Rightarrow> oauth_join" where
  "oauth_task X E cfg ch conns w = (case complete_authorization X E cfg ch 300 conns w of
      None \<Rightarrow> None
    | Some (r, w') \<Rightarrow> Some (io_bind (io_res r) (\<lambda>tokens.
        io_bind (http_send E \<lparr>rq_method = GET, rq_url = ''https://openidconnect.googleapis.com/v1/userinfo'',
          rq_bearer = Some (tk_access_token tokens), rq_body = NoBody\<rparr>) (\<lambda>resp.
        io_bind (io_res (error_for_status resp)) (\<lambda>resp.
        io_bind (io_res (resp_json X ''Value'' Some resp)) (\<lambda>v.
        io_ret (tokens, unwrap_or ''unknown'' (get_str ''email'' v)))))) w'))"

definition add_oauth :: "crates \<Rightarrow> env \<Rightarrow> daemon_cfg \<Rightarrow> draw \<Rightarrow> json \<Rightarrow> (daemon, json) io" where
  "add_oauth X E C dr params =
     io_bind (io_res (ok_or (Provider ''missing provider'') (get_str ''provider'' params))) (\<lambda>provider.
     if provider \<noteq> ''gmail'' then io_res (Err (Provider (''provider not supported in v0.1a: '' @ provider)))
     else io_bind (io_res (begin_authorization X (dc_oauth_cfg C) None (dr_verifier dr) (dr_state dr) (dr_bound dr))) (\<lambda>ch.
       let cid = ulid_to_string X (dr_ulid dr) in
       io_bind (\<lambda>s. (Ok (), s\<lparr>dm_pending_oauth := (dm_pending_oauth s)(cid \<mapsto>
         oauth_task X E (dc_oauth_cfg C) ch (dr_conns dr))\<rparr>)) (\<lambda>_.
       io_ret (JObject [(''challenge_id'', JString cid), (''auth_url'', JString (ch_auth_url ch))]))))"

definition no_refresh_token :: Error where
  "no_refresh_token = OAuth (''Google did not return a refresh_token; '' @
     ''ensure prompt=consent + access_type=offline'')"

definition token_scopes :: "OAuthTokens \<Rightarrow> string list" where
  "token_scopes tokens = (case tk_scope tokens of None \<Rightarrow> [] | Some s \<Rightarrow> split_char CHR '' '' s)"

definition finish_oauth ::
  "crates \<Rightarrow> env \<Rightarrow> daemon_cfg \<Rightarrow> draw \<Rightarrow> string \<Rightarrow> OAuthTokens \<Rightarrow> string \<Rightarrow> (daemon, json) io" where
  "finish_oauth X E C dr label tokens email =
     io_bind (on_storage (account_create X (AccountId (dr_ulid dr)) (dr_now dr)
       \<lparr>na_label = (if label = [] then email else label), na_provider = ProviderKind.Gmail, na_email = email,
        na_config = JObject [],
        na_scopes = token_scopes tokens\<rparr>)) (\<lambda>i.
     io_bind (on_storage (install_defaults X i)) (\<lambda>_.
     case tk_refresh_token tokens of
       None \<Rightarrow> io_res (Err no_refresh_token)
     | Some rt \<Rightarrow>
         io_bind (on_net (secret_set X E i RefreshToken rt)) (\<lambda>_.
         io_bind (add_provider X E (dc_oauth_cfg C) tokens i email) (\<lambda>_.
         io_bind (on_storage (account_get X i)) (\<lambda>acc.
         io_bind (io_res (ok_or (Internal ''account vanished'') acc)) (\<lambda>account.
         io_bind (notify (AccountAdded account)) (\<lambda>_.
         io_ret (account_json X account))))))))"

text \<open>A panic of the joined task is an error of the caller; the text of the join error is the panic's message.\<close>

definition join_result :: "'a res \<Rightarrow> 'a res" where
  "join_result r = (case r of Panic m \<Rightarrow> Err (Internal (''oauth task panicked: '' @ m)) | _ \<Rightarrow> r)"

definition complete_oauth ::
  "crates \<Rightarrow> env \<Rightarrow> daemon_cfg \<Rightarrow> draw \<Rightarrow> json \<Rightarrow> daemon \<Rightarrow> (json res \<times> daemon) option" where
  "complete_oauth X E C dr params s = (case get_str ''challenge_id'' params of
      None \<Rightarrow> Some (Err (Provider ''missing challenge_id''), s)
    | Some cid \<Rightarrow> (case dm_pending_oauth s cid of
        None \<Rightarrow> Some (Err (NotFound (''challenge '' @ cid)), s)
      | Some task \<Rightarrow> (case task (ctx_net s) of
          None \<Rightarrow> None
        | Some (r, w) \<Rightarrow> Some (io_bind (io_res (join_result r))
            (\<lambda>(tokens, email). finish_oauth X E C dr (str_or_empty ''label'' params) tokens email)
            (s\<lparr>dm_pending_oauth := (dm_pending_oauth s)(cid := None), ctx_net := w\<rparr>)))))"

definition cancel_oauth :: "json \<Rightarrow> (daemon, json) io" where
  "cancel_oauth params =
     io_bind (io_res (ok_or (Provider ''missing challenge_id'') (get_str ''challenge_id'' params))) (\<lambda>cid.
     io_bind (\<lambda>s. (Ok (), s\<lparr>dm_pending_oauth := (dm_pending_oauth s)(cid := None)\<rparr>)) (\<lambda>_.
     io_ret (JObject [])))"

definition remove_account :: "crates \<Rightarrow> env \<Rightarrow> json \<Rightarrow> (daemon, json) io" where
  "remove_account X E params =
     io_bind (io_res (ipc_account_id X params)) (\<lambda>i.
     io_bind (on_storage (account_delete X i)) (\<lambda>_.
     io_bind (io_ignore (on_net (secret_purge X E i))) (\<lambda>_.
     io_bind (\<lambda>s. (Ok (), registry_remove i s)) (\<lambda>_.
     io_bind (notify (AccountRemoved i)) (\<lambda>_.
     io_ret (JObject []))))))"

section \<open>Permissions and approvals\<close>

definition ipc_permissions_get :: "crates \<Rightarrow> json \<Rightarrow> (daemon, json) io" where
  "ipc_permissions_get X params =
     io_bind (io_res (ipc_account_id X params)) (\<lambda>i.
     io_bind (on_storage (for_account X i)) (\<lambda>perms.
     io_ret (permission_map_json \<lparr>pm_read = policy_for perms Read, pm_modify = policy_for perms Modify,
       pm_trash = policy_for perms Trash, pm_draft = policy_for perms Draft, pm_send = policy_for perms Send\<rparr>)))"

definition ipc_permissions_set :: "crates \<Rightarrow> json \<Rightarrow> (daemon, json) io" where
  "ipc_permissions_set X params =
     io_bind (io_res (ipc_account_id X params)) (\<lambda>i.
     io_bind (io_res (ok_or (Provider ''missing category'') (get_str ''category'' params))) (\<lambda>cat_str.
     io_bind (io_res (ok_or (Provider ''missing policy'') (get_str ''policy'' params))) (\<lambda>pol_str.
     io_bind (io_res (map_err Provider (category_from_str cat_str))) (\<lambda>cat.
     io_bind (io_res (map_err Provider (policy_from_str pol_str))) (\<lambda>pol.
     io_bind (on_storage (permissions_set X i cat pol)) (\<lambda>_.
     io_ret (JObject [])))))))"

definition approvals_decide :: "crates \<Rightarrow> json \<Rightarrow> (daemon, json) io" where
  "approvals_decide X params =
     io_bind (io_res (ok_or (Provider ''missing id'') (get_str ''id'' params))) (\<lambda>id_str.
     io_bind (io_res (map_err (\<lambda>e. Provider (''bad id: '' @ e)) (ulid_from_str X id_str))) (\<lambda>u.
     let dec_str = str_or_empty ''decision'' params in
     io_bind (io_res (if dec_str = ''approve'' then Ok Approve
         else if dec_str = ''reject'' then Ok Reject
         else Err (Provider (''bad decision: '' @ dec_str)))) (\<lambda>d.
     io_bind (on_queue (decide X (ApprovalId u) d)) (\<lambda>_.
     io_ret (JObject [])))))"

section \<open>The handler\<close>

definition daemon_status :: "crates \<Rightarrow> daemon_cfg \<Rightarrow> draw \<Rightarrow> (daemon, json) io" where
  "daemon_status X C dr =
     io_bind (on_storage (account_list X)) (\<lambda>accs.
     io_bind (\<lambda>s. (Ok (ctx_mcp_paused s), s)) (\<lambda>paused.
     io_bind (on_storage (get_app_state ''onboarding_complete'')) (\<lambda>onboarding.
     io_ret (status_json \<lparr>st_version = dc_version C, st_uptime_secs = dr_uptime dr,
       st_account_count = of_nat (length accs), st_mcp_paused = paused,
       st_onboarding_complete = (onboarding = Some ''true'')\<rparr>))))"

definition accounts_list :: "crates \<Rightarrow> (daemon, json) io" where
  "accounts_list X =
     io_bind (on_storage (account_list X)) (\<lambda>accs.
     io_ret (JArray (map (\<lambda>a. account_list_item_json X
       \<lparr>ali_id = acc_id a, ali_label = acc_label a, ali_provider = provider_kind_as_str (acc_provider a),
        ali_email = acc_email a, ali_status = StatusOk\<rparr>) accs)))"

definition set_onboarding_complete :: "json \<Rightarrow> (daemon, json) io" where
  "set_onboarding_complete params =
     io_bind (on_storage (set_app_state ''onboarding_complete''
       (if unwrap_or False (get_bool ''complete'' params) then ''true'' else ''false''))) (\<lambda>_.
     io_ret (JObject []))"

definition mcp_pause :: "json \<Rightarrow> (daemon, json) io" where
  "mcp_pause params =
     (let paused = unwrap_or False (get_bool ''paused'' params) in
      io_bind (\<lambda>s. (Ok (), s\<lparr>ctx_mcp_paused := paused\<rparr>)) (\<lambda>_.
      io_bind (notify (McpPausedChanged paused)) (\<lambda>_.
      io_ret (JObject []))))"

definition handle ::
  "crates \<Rightarrow> env \<Rightarrow> daemon_cfg \<Rightarrow> draw \<Rightarrow> string \<Rightarrow> json \<Rightarrow> daemon \<Rightarrow> (json res \<times> daemon) option" where
  "handle X E C dr method params s =
     (if method = ''accounts.complete_oauth'' then complete_oauth X E C dr params s
      else Some ((
        if method = ''status'' then daemon_status X C dr
        else if method = ''accounts.list'' then accounts_list X
        else if method = ''accounts.add_oauth'' then add_oauth X E C dr params
        else if method = ''accounts.cancel_oauth'' then cancel_oauth params
        else if method = ''accounts.remove'' then remove_account X E params
        else if method = ''permissions.get'' then ipc_permissions_get X params
        else if method = ''permissions.set'' then ipc_permissions_set X params
        else if method = ''approvals.list'' then
          (\<lambda>s. (Ok (JArray (map (pending_approval_json X) (approvals_list (ctx_approvals s)))), s))
        else if method = ''approvals.decide'' then approvals_decide X params
        else if method = ''settings.set_autostart'' then io_ret (JObject [])
        else if method = ''settings.set_onboarding_complete'' then set_onboarding_complete params
        else if method = ''mcp.endpoint'' then io_ret (endpoint_json (dc_mcp_endpoint C))
        else if method = ''mcp.pause'' then mcp_pause params
        else io_res (Err (NotFound method))) s))"

text \<open>The handler as the server calls it: every call draws afresh.\<close>

definition daemon_handler ::
  "crates \<Rightarrow> env \<Rightarrow> daemon_cfg \<Rightarrow> string \<Rightarrow> json \<Rightarrow> daemon \<times> (nat \<Rightarrow> draw) \<Rightarrow> (json res \<times> (daemon \<times> (nat \<Rightarrow> draw))) option" where
  "daemon_handler X E C method params = (\<lambda>(s, draws).
     map_option (\<lambda>(r, s'). (r, (s', \<lambda>n. draws (Suc n)))) (handle X E C (draws 0) method params s))"

section \<open>Start-up\<close>

text \<open>One iteration: an account without a stored refresh token is left without a provider.\<close>

definition hydrate_one :: "crates \<Rightarrow> env \<Rightarrow> ProviderConfig \<Rightarrow> Account \<Rightarrow> (daemon, unit) io" where
  "hydrate_one X E cfg acc =
     io_bind (on_net (secret_get X E (acc_id acc) RefreshToken)) (\<lambda>stored.
     case stored of
       None \<Rightarrow> io_ret ()
     | Some rt \<Rightarrow> io_bind (on_net (clock_now E)) (\<lambda>now.
         add_provider X E cfg \<lparr>tk_access_token = [], tk_refresh_token = Some rt,
           tk_expires_at = now - 1000000000, tk_scope = None\<rparr> (acc_id acc) (acc_email acc)))"

definition hydrate_providers :: "crates \<Rightarrow> env \<Rightarrow> ProviderConfig \<Rightarrow> (daemon, unit) io" where
  "hydrate_providers X E cfg = io_bind (on_storage (account_list X)) (io_for (hydrate_one X E cfg))"

section \<open>The invariant of the daemon\<close>

text \<open>
  The database is well-formed, and every registered provider is a Gmail provider on a client that
  was built for exactly this account.
\<close>

definition daemon_inv :: "crates \<Rightarrow> env \<Rightarrow> daemon \<Rightarrow> bool" where
  "daemon_inv X E s \<longleftrightarrow> db_wf (ctx_storage s) \<and>
     (\<forall>a p. ctx_providers s a = Some p \<longrightarrow> (\<exists>cfg cell email. cell < dm_cells s \<and>
        p = gmail_provider_new X E (daemon_client X E cfg cell a) email))"

lemma on_storage_safe: "safe b db_wf m \<Longrightarrow> safe b (daemon_inv X E) (on_storage m)"
  by (auto simp: safe_def keeps_def panic_free_def on_storage_def daemon_inv_def case_prod_unfold)

lemma on_net_safe: "safe b (\<lambda>_. True) m \<Longrightarrow> safe b (daemon_inv X E) (on_net m)"
  by (auto simp: safe_def keeps_def panic_free_def on_net_def daemon_inv_def case_prod_unfold)

lemma on_queue_safe: "safe b (\<lambda>_. True) m \<Longrightarrow> safe b (daemon_inv X E) (on_queue m)"
  by (auto simp: safe_def keeps_def panic_free_def on_queue_def daemon_inv_def case_prod_unfold)

lemma safe_ignore: "safe b P m \<Longrightarrow> safe c P (io_ignore m)"
  by (auto simp: safe_def keeps_def panic_free_def)

lemma notify_safe: "safe b (daemon_inv X E) (notify n)"
  by (rule safeI) (simp_all add: notify_def daemon_inv_def)

lemma add_provider_safe: "safe b (daemon_inv X E) (add_provider X E cfg tokens i email)"
proof (rule safeI)
  fix s assume "daemon_inv X E s"
  then show "daemon_inv X E (snd (add_provider X E cfg tokens i email s))"
    by (auto simp: add_provider_def daemon_inv_def registry_insert_def intro: less_SucI lessI) (metis less_SucI)
qed (simp add: add_provider_def)

text \<open>Database operations keep the schema and never panic.\<close>

lemma sql_ops_panic_free:
  "panic_free (sql_insert_account r)" "panic_free sql_select_accounts" "panic_free (sql_select_account k)"
  "panic_free (sql_delete_account k)" "panic_free (sql_upsert_permission k c p)"
  "panic_free (sql_select_permissions k)" "panic_free (set_app_state k v)" "panic_free (get_app_state k)"
  unfolding sql_defs by (rule sql_panic_free; simp)+

lemma sql_ops_safe:
  "safe b db_wf (sql_insert_account r)" "safe b db_wf sql_select_accounts" "safe b db_wf (sql_select_account k)"
  "safe b db_wf (sql_delete_account k)" "safe b db_wf (sql_upsert_permission k c p)"
  "safe b db_wf (sql_select_permissions k)" "safe b db_wf (set_app_state k v)" "safe b db_wf (get_app_state k)"
  by (simp_all add: safe_def sql_ops_panic_free sql_wf)

lemma into_account_no_panic [simp]: "\<not> is_panic (into_account X r)"
  by (simp add: into_account_def json_from_text_def strings_from_text_def)

lemma store_ops_safe:
  "safe b db_wf (account_create X i now new)" "safe b db_wf (account_list X)" "safe b db_wf (account_get X i)"
  "safe b db_wf (account_delete X i)" "safe b db_wf (permissions_set X i c p)" "safe b db_wf (install_defaults X i)"
proof -
  show p: "safe b db_wf (permissions_set X i c p)" for c p
    unfolding permissions_set_def by (intro sql_ops_safe)
  show "safe b db_wf (account_create X i now new)"
    unfolding account_create_def by (intro safe_bind safe_ret sql_ops_safe)
  show "safe b db_wf (account_list X)"
    unfolding account_list_def by (intro safe_bind safe_res sql_ops_safe) (simp add: collect_res_no_panic)
  show "safe b db_wf (account_get X i)"
    unfolding account_get_def by (intro safe_bind safe_res sql_ops_safe) (simp split: option.split)
  show "safe b db_wf (account_delete X i)"
    unfolding account_delete_def by (intro safe_bind safe_res sql_ops_safe) simp
  show "safe b db_wf (install_defaults X i)"
    unfolding install_defaults_def by (intro safe_for p)
qed

lemma for_account_safe: "safe b db_wf (for_account X i)"
  by (simp add: safe_def for_account_panic_free permissions_ops_wf)

lemma keychain_no_panic: "safe b (\<lambda>_. True) (keychain E e act)"
  by (rule safeI) (simp_all add: keychain_def split: option.split prod.split)

lemma secret_ops_no_panic:
  "safe b (\<lambda>_. True) (secret_set X E i k v)" "safe b (\<lambda>_. True) (secret_get X E i k)"
  "safe b (\<lambda>_. True) (secret_purge X E i)"
  unfolding secret_set_def secret_get_def secret_purge_def secret_delete_def
  by (intro safe_bind safe_ret safe_ignore keychain_no_panic)+

lemma decide_no_panic: "safe b (\<lambda>_. True) (decide X i d)"
  by (rule safeI) (simp_all add: decide_def split: option.split)

lemma inv_updates:
  "safe b (daemon_inv X E) (\<lambda>s. (Ok a, s\<lparr>dm_pending_oauth := f s\<rparr>))"
  "safe b (daemon_inv X E) (\<lambda>s. (Ok a, s\<lparr>ctx_mcp_paused := q\<rparr>))"
  "safe b (daemon_inv X E) (\<lambda>s. (Ok a, registry_remove i s))"
  "safe b (daemon_inv X E) (\<lambda>s. (Ok (g s), s))"
  by (rule safeI; simp add: daemon_inv_def registry_remove_def)+

lemma ipc_account_id_no_panic [simp]: "\<not> is_panic (ipc_account_id X params)"
  by (simp add: ipc_account_id_def)

lemma begin_authorization_no_panic [simp]: "\<not> is_panic (begin_authorization X cfg sc v st bound)"
  by (simp add: begin_authorization_def Let_def)

lemmas daemon_safe_rules = safe_bind safe_if safe_ret safe_res safe_ignore on_storage_safe on_net_safe on_queue_safe
  notify_safe add_provider_safe store_ops_safe sql_ops_safe for_account_safe secret_ops_no_panic decide_no_panic inv_updates

lemma finish_oauth_safe: "safe b (daemon_inv X E) (finish_oauth X E C dr label tokens email)"
  unfolding finish_oauth_def
  by (cases "tk_refresh_token tokens"; simp only: option.case; intro daemon_safe_rules; simp)

lemma handler_methods_safe:
  "safe b (daemon_inv X E) (add_oauth X E C dr params)" "safe b (daemon_inv X E) (cancel_oauth params)"
  "safe b (daemon_inv X E) (remove_account X E params)" "safe b (daemon_inv X E) (ipc_permissions_get X params)"
  "safe b (daemon_inv X E) (ipc_permissions_set X params)" "safe b (daemon_inv X E) (approvals_decide X params)"
  "safe b (daemon_inv X E) (daemon_status X C dr)" "safe b (daemon_inv X E) (accounts_list X)"
  "safe b (daemon_inv X E) (set_onboarding_complete params)" "safe b (daemon_inv X E) (mcp_pause params)"
  unfolding add_oauth_def cancel_oauth_def remove_account_def ipc_permissions_get_def ipc_permissions_set_def
    approvals_decide_def daemon_status_def accounts_list_def set_onboarding_complete_def mcp_pause_def Let_def
  by (intro daemon_safe_rules; simp)+

lemma complete_oauth_cases [consumes 1]:
  assumes "complete_oauth X E C dr params s = Some (r, s')"
  obtains (refused) e where "r = Err e" "s' = s"
  | (joined) cid r0 w where "io_bind (io_res (join_result r0))
        (\<lambda>(tokens, email). finish_oauth X E C dr (str_or_empty ''label'' params) tokens email)
        (s\<lparr>dm_pending_oauth := (dm_pending_oauth s)(cid := None), ctx_net := w\<rparr>) = (r, s')"
  using assms by (auto simp: complete_oauth_def split: option.splits)

lemma complete_oauth_safe:
  assumes "daemon_inv X E s" and "complete_oauth X E C dr params s = Some (r, s')"
  shows "daemon_inv X E s' \<and> \<not> is_panic r"
  using assms(2)
proof (cases rule: complete_oauth_cases)
  case (joined cid r0 w)
  let ?m = "io_bind (io_res (join_result r0))
      (\<lambda>(tokens, email). finish_oauth X E C dr (str_or_empty ''label'' params) tokens email)"
  have "\<not> is_panic (join_result r0)" by (simp add: join_result_def split: res.split)
  then have "safe True (daemon_inv X E) ?m"
    unfolding split_beta by (intro safe_bind safe_res finish_oauth_safe)
  moreover have "daemon_inv X E (s\<lparr>dm_pending_oauth := (dm_pending_oauth s)(cid := None), ctx_net := w\<rparr>)"
    using assms(1) by (simp add: daemon_inv_def)
  ultimately show ?thesis
    using safeD [of True "daemon_inv X E" ?m "s\<lparr>dm_pending_oauth := (dm_pending_oauth s)(cid := None), ctx_net := w\<rparr>"]
    by (simp add: joined)
qed (use assms(1) in simp)

lemma handle_safe:
  assumes "daemon_inv X E s" and "handle X E C dr method params s = Some (r, s')"
  shows "daemon_inv X E s' \<and> \<not> is_panic r"
proof (cases "method = ''accounts.complete_oauth''")
  case True
  with assms(2) show ?thesis by (intro complete_oauth_safe [OF assms(1)]) (simp add: handle_def)
next
  case False
  have step: "daemon_inv X E s' \<and> \<not> is_panic r" if "m s = (r, s')" "safe True (daemon_inv X E) m" for m
    using safeD [OF that(2), of s] assms(1) that(1) by simp
  from assms(2) False show ?thesis
    unfolding handle_def by (simp only: if_False option.inject) (erule step, intro daemon_safe_rules handler_methods_safe; simp)
qed

text \<open>
  The daemon keeps the contract of the IPC server; only the method that waits for a sign-in may not
  return.
\<close>

interpretation daemon_ipc: ipc_handler "daemon_handler X E C" "\<lambda>(s, _). daemon_inv X E s" "\<lambda>m. m = ''accounts.complete_oauth''"
  for X E C
  by unfold_locales (auto simp: daemon_handler_def dest: handle_safe, simp add: handle_def)

lemma hydrate_providers_safe: "safe b (daemon_inv X E) (hydrate_providers X E cfg)"
proof -
  have "safe b (daemon_inv X E) (hydrate_one X E cfg acc)" for acc
    unfolding hydrate_one_def
    by (intro daemon_safe_rules)
      (split option.split, intro conjI allI impI daemon_safe_rules safeI; simp add: clock_now_def)
  then show ?thesis unfolding hydrate_providers_def by (intro daemon_safe_rules safe_for)
qed

text \<open>The MCP server keeps the invariant as well, whatever else runs during a wait.\<close>

lemma dispatch_keeps_inv:
  fixes wait :: "(net, unit daemon_ext) DispatchContext_ext approval_wait"
  assumes "\<And>f. keeps (daemon_inv X E) (wait f)"
  shows "keeps (daemon_inv X E) (dispatch X wait i now tool args)"
proof -
  have enf: "keeps (daemon_inv X E) (enforce wait i now perms c req)" for perms c req
    by (rule enforce_keeps [OF _ _ assms]) (simp_all add: daemon_inv_def)
  have fin: "keeps (daemon_inv X E) (finish_call X p tool args o')" for p o'
    by (cases o') (auto simp: finish_call_def keeps_def on_net_def daemon_inv_def case_prod_unfold)
  have st: "keeps (daemon_inv X E) (on_storage (for_account X a))" for a
    using on_storage_safe [OF for_account_safe] by (simp add: safe_def)
  have "keeps (daemon_inv X E) (io_bind (io_res (parse_account_id X args)) (\<lambda>account.
        io_bind (\<lambda>s. (ok_or (NotFound (''account '' @ account_id_to_string X account)) (registry_get account s), s)) (\<lambda>provider.
        io_bind (on_storage (for_account X account)) (\<lambda>perms.
        io_bind (enforce wait i now perms (tool_category tool) (tool_request tool account args))
          (finish_call X provider tool args)))))"
    by (intro keeps_bind keeps_res enf fin st) (simp add: keeps_def)
  then show ?thesis by (simp add: dispatch_def keeps_def)
qed

lemma handle_post_keeps_inv:
  fixes wait :: "(net, unit daemon_ext) DispatchContext_ext approval_wait"
  assumes "\<And>f. keeps (daemon_inv X E) (wait f)"
  shows "keeps (daemon_inv X E) (handle_post X st wait i now headers req)"
proof -
  have l: "daemon_inv X E s'" if "on_storage (account_list X) s = (r, s')" "daemon_inv X E s" for s s' r
    using safeD(1) [OF on_storage_safe [OF store_ops_safe(2)] that(2), of X] that(1) by simp
  have d: "daemon_inv X E s'" if "dispatch X wait i now tool args s = (r, s')" "daemon_inv X E s" for s s' r tool args
    using keepsD [OF dispatch_keeps_inv [where wait = wait and i = i and now = now and tool = tool and args = args, OF assms] that(2)] that(1) by simp
  have "keeps (daemon_inv X E) (tools_call X wait i now req)"
    unfolding keeps_def tools_call_def Let_def
    by (auto intro: l d split: prod.split res.split option.split)
  then show ?thesis
    unfolding handle_post_def by (intro keeps_if keeps_bind keeps_ret)
qed

end
