(* ===== verification/Daemon_Props.thy ===== *)
theory Daemon_Props
  imports Daemon
begin

text \<open>
  Properties of the daemon as a whole: the invariant shared by its two servers, what removing an
  account and setting a policy over IPC do to later tool calls, sign-in and start-up.
\<close>

section \<open>Lemmas for the properties\<close>

definition account_param :: "crates \<Rightarrow> AccountId \<Rightarrow> string \<times> json" where
  "account_param X i = (''account_id'', JString (account_id_to_string X i))"

lemma ipc_account_id_param [simp]:
  "ulid_round_trip X \<Longrightarrow> ipc_account_id X (JObject (account_param X i # kvs)) = Ok i"
  by (simp add: ipc_account_id_def account_param_def get_str_def)

lemma on_storage_step: "m (ctx_storage s) = (r, d) \<Longrightarrow> on_storage m s = (r, s\<lparr>ctx_storage := d\<rparr>)"
  by (simp add: on_storage_def)

lemma on_net_step: "m (ctx_net s) = (r, w) \<Longrightarrow> on_net m s = (r, s\<lparr>ctx_net := w\<rparr>)"
  by (simp add: on_net_def)

lemma remove_account_run:
  assumes "ulid_round_trip X" "account_delete X i (ctx_storage s) = (Ok (), d)"
  shows "remove_account X E (JObject [account_param X i]) s = (Ok (JObject []),
    s\<lparr>ctx_storage := d, ctx_net := snd (secret_purge X E i (ctx_net s)),
      ctx_providers := (ctx_providers s)(i := None), dm_notifs := dm_notifs s @ [AccountRemoved i]\<rparr>)"
  using assms on_storage_step [where m = "account_delete X i" and s = s]
  by (simp add: remove_account_def io_bind_def on_net_def notify_def registry_remove_def case_prod_unfold)

lemma blocked_dispatch:
  assumes "\<not> ctx_mcp_paused s" "parse_account_id X args = Ok a" "ctx_providers s a = Some p"
    "db_wf (ctx_storage s)" "db_faults (ctx_storage s) = []"
    "policy_table X (ctx_storage s) a (tool_category tool) = Block"
  shows "dispatch X wait i now tool args s =
    (Err (PermissionDenied (tool_name tool @ '': blocked by user policy'')), s)"
proof -
  obtain perms where "policy_for perms = policy_table X (ctx_storage s) a"
    "dispatch X wait i now tool args s =
      io_bind (enforce wait i now perms (tool_category tool) (tool_request tool a args))
        (finish_call X p tool args) s"
    by (rule dispatch_unfold [OF assms(1-5), where wait = wait and i = i and now = now and tool = tool])
  then show ?thesis using assms(6) by (simp add: enforce_def finish_call_def)
qed

lemma secret_set_run:
  "env_keychain E (net_history w) = None \<Longrightarrow> \<exists>w'. secret_set X E i k v w = (Ok (), w') \<and>
     net_keychain w' (service_name X i, key_kind_as_str k) = Some v \<and> net_tokens w' = net_tokens w"
  by (simp add: secret_set_def keychain_def)

text \<open>A client that is ready for its next refresh: the keychain holds the token in its cell.\<close>

definition ready :: "crates \<Rightarrow> env \<Rightarrow> ProviderConfig \<Rightarrow> daemon \<Rightarrow> AccountId \<Rightarrow> net MailProvider \<Rightarrow> bool" where
  "ready X E cfg s a p \<longleftrightarrow> (\<exists>cell email. cell < dm_cells s \<and> persisted X a cell (ctx_net s) \<and>
     p = gmail_provider_new X E (daemon_client X E cfg cell a) email)"

lemma hydrate_one_run:
  assumes "\<And>h. env_keychain E h = None"
  shows "\<exists>s'. hydrate_one X E cfg acc s = (Ok (), s') \<and> net_keychain (ctx_net s') = net_keychain (ctx_net s) \<and>
    dom (ctx_providers s') = dom (ctx_providers s) \<union>
      (if secret_lookup X (ctx_net s) (acc_id acc, RefreshToken) = None then {} else {acc_id acc}) \<and>
    ((\<forall>a p. ctx_providers s a = Some p \<longrightarrow> ready X E cfg s a p) \<longrightarrow>
     (\<forall>a p. ctx_providers s' a = Some p \<longrightarrow> ready X E cfg s' a p))"
proof (cases "secret_lookup X (ctx_net s) (acc_id acc, RefreshToken)")
  case None
  then show ?thesis
    by (auto simp: hydrate_one_def io_bind_def on_net_def secret_get_def keychain_def assms secret_lookup_def
        ready_def persisted_def)
next
  case (Some rt)
  then show ?thesis
    by (auto simp: hydrate_one_def io_bind_def on_net_def secret_get_def keychain_def assms secret_lookup_def
        clock_now_def add_provider_def registry_insert_def ready_def persisted_def less_Suc_eq split: if_splits)
      (metis nat_neq_iff)+
qed

lemma hydrate_loop:
  assumes "\<And>h. env_keychain E h = None" and "\<forall>a p. ctx_providers s a = Some p \<longrightarrow> ready X E cfg s a p"
  shows "\<exists>s'. io_for (hydrate_one X E cfg) accs s = (Ok (), s') \<and>
    (\<forall>a p. ctx_providers s' a = Some p \<longrightarrow> ready X E cfg s' a p) \<and>
    dom (ctx_providers s') = dom (ctx_providers s) \<union>
      {a \<in> acc_id ` set accs. secret_lookup X (ctx_net s) (a, RefreshToken) \<noteq> None}"
  using assms(2)
proof (induction accs arbitrary: s)
  case Nil
  then show ?case by simp
next
  case (Cons acc accs)
  obtain s1 where s1: "hydrate_one X E cfg acc s = (Ok (), s1)" "net_keychain (ctx_net s1) = net_keychain (ctx_net s)"
    "dom (ctx_providers s1) = dom (ctx_providers s) \<union>
      (if secret_lookup X (ctx_net s) (acc_id acc, RefreshToken) = None then {} else {acc_id acc})"
    "\<forall>a p. ctx_providers s1 a = Some p \<longrightarrow> ready X E cfg s1 a p"
    using hydrate_one_run [OF assms(1), of X cfg acc s] Cons.prems by blast
  have l: "secret_lookup X (ctx_net s1) = secret_lookup X (ctx_net s)"
    by (simp add: secret_lookup_def s1(2))
  from Cons.IH [OF s1(4)] obtain s' where "io_for (hydrate_one X E cfg) accs s1 = (Ok (), s')"
    "\<forall>a p. ctx_providers s' a = Some p \<longrightarrow> ready X E cfg s' a p"
    "dom (ctx_providers s') = dom (ctx_providers s1) \<union>
      {a \<in> acc_id ` set accs. secret_lookup X (ctx_net s1) (a, RefreshToken) \<noteq> None}" by blast
  with s1 l show ?case by (intro exI [of _ s']) auto
qed

text \<open>The MCP server answers every request in a state of the daemon.\<close>

lemma daemon_answers:
  fixes wait :: "(net, unit daemon_ext) DispatchContext_ext approval_wait"
  assumes "daemon_inv X E s" and "\<And>f. panic_free (wait f)" and "calm X E"
  shows "\<exists>status body. fst (handle_post X st wait i now headers req s) = Ok (status, body)"
proof -
  have "mail_provider p (extends (ctx_net s)) True" if "ctx_providers s a = Some p" for a p
  proof -
    obtain cfg cell email where "p = gmail_provider_new X E (daemon_client X E cfg cell a) email"
      using assms(1) \<open>ctx_providers s a = Some p\<close> unfolding daemon_inv_def by blast
    with assms(3) show ?thesis
      using gmail.mail_provider_axioms [of X E cfg cell a PROD_BASE email "ctx_net s"]
      by (simp add: gmail_provider_new_def)
  qed
  with assms(2) show ?thesis by (rule handle_post_responds)
qed

section \<open>Properties\<close>

text \<open>
  C9: The daemon as a whole is safe. Its invariant (well-formed database, every registered provider
  bound to a client of exactly its account) is kept by every IPC method, by start-up and by the
  MCP server; no IPC method panics; and in such a state the MCP server answers every request,
  as long as token endpoints announce lifetimes in the range of the time library.
\<close>

theorem daemon_invariant:
  fixes wait :: "(net, unit daemon_ext) DispatchContext_ext approval_wait"
  assumes "daemon_inv X E s" and "\<And>f. keeps (daemon_inv X E) (wait f)" and "\<And>f. panic_free (wait f)"
  shows "(\<forall>r s'. handle X E C dr method params s = Some (r, s') \<longrightarrow> daemon_inv X E s' \<and> \<not> is_panic r) \<and>
    daemon_inv X E (snd (hydrate_providers X E cfg s)) \<and>
    daemon_inv X E (snd (handle_post X st wait i now headers req s)) \<and>
    (calm X E \<longrightarrow> (\<exists>status body. fst (handle_post X st wait i now headers req s) = Ok (status, body)))"
proof (intro conjI allI impI)
  show "daemon_inv X E s'" "\<not> is_panic r" if "handle X E C dr method params s = Some (r, s')" for r s'
    using handle_safe [OF assms(1) that] by simp_all
  show "daemon_inv X E (snd (hydrate_providers X E cfg s))"
    using safeD(1) [OF hydrate_providers_safe assms(1)] .
  show "daemon_inv X E (snd (handle_post X st wait i now headers req s))"
    using keepsD [OF handle_post_keeps_inv [OF assms(2)] assms(1)] .
  assume "calm X E"
  with assms(1,3) show "\<exists>status body. fst (handle_post X st wait i now headers req s) = Ok (status, body)"
    by (intro daemon_answers)
qed

definition demo_daemon :: daemon where
  "demo_daemon = \<lparr>ctx_approvals = approval_queue_new 300, ctx_trust = Map.empty, ctx_storage = demo_store,
     ctx_providers = [AccountId 1 \<mapsto> gmail_provider_new (sample_crates []) quiet_env
       (daemon_client (sample_crates []) quiet_env demo_cfg 0 (AccountId 1)) ''x@x''],
     ctx_mcp_paused = False, ctx_net = demo_net, dm_notifs = [], dm_pending_oauth = Map.empty, dm_cells = 1\<rparr>"

lemma demo_daemon_inv: "daemon_inv (sample_crates []) quiet_env demo_daemon"
  by (auto simp: daemon_inv_def demo_daemon_def demo_store_facts split: if_splits)

theorem daemon_invariant_witness:
  "daemon_inv (sample_crates []) quiet_env (snd (handle_post (sample_crates []) demo_mcp (\<lambda>f. io_ret Approved) (ApprovalId 7) 0
      [(''authorization'', ''Bearer tok'')] (demo_rpc ''tools/call'' JNull) demo_daemon)) \<and>
   (\<exists>status body. fst (handle_post (sample_crates []) demo_mcp (\<lambda>f. io_ret Approved) (ApprovalId 7) 0
      [(''authorization'', ''Bearer tok'')] (demo_rpc ''tools/call'' JNull) demo_daemon) = Ok (status, body))"
proof -
  let ?w = "\<lambda>f :: ApprovalFuture. io_ret Approved :: (daemon, ApprovalOutcome) io"
  have "calm (sample_crates []) quiet_env" by (simp add: calm_def quiet_env_def)
  with daemon_invariant [where wait = ?w and s = demo_daemon and X = "sample_crates []" and E = quiet_env
      and st = demo_mcp and i = "ApprovalId 7" and now = 0 and headers = "[(''authorization'', ''Bearer tok'')]"
      and req = "demo_rpc ''tools/call'' JNull", OF demo_daemon_inv keeps_ret panic_free_ret]
  show ?thesis by blast
qed


definition demo_draw :: draw where
  "demo_draw = \<lparr>dr_verifier = ''v'', dr_state = ''xyz'', dr_bound = Inr 8080, dr_conns = [], dr_ulid = 0,
     dr_now = 5, dr_uptime = 0\<rparr>"

definition demo_daemon_cfg :: daemon_cfg where
  "demo_daemon_cfg = \<lparr>dc_version = ''0.1.0'', dc_mcp_endpoint = \<lparr>me_url = ''http://127.0.0.1:1'', me_bearer_token = ''tok'',
     me_stdio_shim_path = None\<rparr>, dc_oauth_cfg = demo_cfg\<rparr>"

lemma demo_daemon_simps [simp]:
  "ctx_storage demo_daemon = demo_store" "ctx_mcp_paused demo_daemon = False"
  "ctx_net demo_daemon = demo_net" "dm_cells demo_daemon = 1" "ctx_providers demo_daemon (AccountId 1) \<noteq> None"
  by (simp_all add: demo_daemon_def)

lemma quiet_keychain: "env_keychain quiet_env h = None"
  by (simp add: quiet_env_def)


text \<open>
  C11: The policy that the user sets over IPC governs the next tool call: after \<open>permissions.set\<close> with
  \<open>block\<close>, every call of a tool of that category for that account is refused before the provider is
  touched and without changing any state, whatever its arguments, and no other category or account
  is affected.
\<close>

theorem blocked_over_ipc_is_refused:
  assumes "ulid_round_trip X" and "db_wf (ctx_storage s)" and "db_faults (ctx_storage s) = []"
    and "has_account X (ctx_storage s) a" and "\<not> ctx_mcp_paused s" and "ctx_providers s a = Some p"
  shows "\<exists>s'. handle X E C dr ''permissions.set'' (JObject [account_param X a,
        (''category'', JString (category_as_str c)), (''policy'', JString ''block'')]) s = Some (Ok (JObject []), s') \<and>
    policy_table X (ctx_storage s') = (\<lambda>j e. if j = a \<and> e = c then Block else policy_table X (ctx_storage s) j e) \<and>
    (\<forall>wait i now tool args. tool_category tool = c \<and> parse_account_id X args = Ok a \<longrightarrow>
      dispatch X wait i now tool args s' =
        (Err (PermissionDenied (tool_name tool @ '': blocked by user policy'')), s'))"
proof -
  obtain d where d: "permissions_set X a c Block (ctx_storage s) = (Ok (), d)"
    using permissions_set_Ok_iff [OF assms(3), of X a c Block] assms(4) by (metis prod.collapse)
  let ?s = "s\<lparr>ctx_storage := d\<rparr>"
  have tbl: "policy_table X d = (\<lambda>j e. if j = a \<and> e = c then Block else policy_table X (ctx_storage s) j e)"
    by (rule permissions_set_table [OF assms(1) d])
  have wf: "db_wf d" using keepsD [OF permissions_ops_wf(2) assms(2), of X a c Block] d by simp
  have nf: "db_faults d = []"
    using d assms(3) by (auto simp: permissions_set_def sql_upsert_permission_def split: if_splits)
  have names: "category_from_str (category_as_str c) = Inr c" "policy_from_str ''block'' = Inr Block"
    using category_names.of_to [of c] policy_names.of_to [of Block] by simp_all
  have "handle X E C dr ''permissions.set'' (JObject [account_param X a, (''category'', JString (category_as_str c)),
      (''policy'', JString ''block'')]) s = Some (Ok (JObject []), ?s)"
    using d names
    by (simp add: handle_def ipc_permissions_set_def io_bind_def ipc_account_id_param [OF assms(1)] on_storage_def
        get_str_def account_param_def [of X a])
      (simp add: ipc_account_id_def assms(1) get_str_def io_bind_def on_storage_def)
  moreover have "dispatch X wait i now tool args ?s = (Err (PermissionDenied (tool_name tool @ '': blocked by user policy'')), ?s)"
    if "tool_category tool = c" "parse_account_id X args = Ok a" for wait i now tool args
    by (rule blocked_dispatch [where a = a and p = p]) (use that assms(5,6) wf nf tbl in simp_all)
  ultimately show ?thesis using tbl by (intro exI [of _ ?s]) simp
qed

theorem blocked_over_ipc_is_refused_witness:
  "\<exists>s'. handle (sample_crates []) quiet_env demo_daemon_cfg demo_draw ''permissions.set''
      (JObject [account_param (sample_crates []) (AccountId 1), (''category'', JString (category_as_str Trash)),
        (''policy'', JString ''block'')]) demo_daemon = Some (Ok (JObject []), s') \<and>
    dispatch (sample_crates []) (\<lambda>f. io_ret Approved) (ApprovalId 7) 0 tool_trash demo_args s' =
      (Err (PermissionDenied ''trash: blocked by user policy''), s')"
proof -
  obtain p where p: "ctx_providers demo_daemon (AccountId 1) = Some p" using demo_daemon_simps(5) by blast
  from blocked_over_ipc_is_refused [of "sample_crates []" demo_daemon "AccountId 1" p quiet_env demo_daemon_cfg demo_draw Trash]
  obtain s' where s': "handle (sample_crates []) quiet_env demo_daemon_cfg demo_draw ''permissions.set''
      (JObject [account_param (sample_crates []) (AccountId 1), (''category'', JString (category_as_str Trash)),
        (''policy'', JString ''block'')]) demo_daemon = Some (Ok (JObject []), s')"
    "\<forall>wait i now tool args. tool_category tool = Trash \<and> parse_account_id (sample_crates []) args = Ok (AccountId 1) \<longrightarrow>
      dispatch (sample_crates []) wait i now tool args s' =
        (Err (PermissionDenied (tool_name tool @ '': blocked by user policy'')), s')"
    using p by (auto simp: sample_ulid_round_trip demo_store_facts)
  then show ?thesis by (intro exI [of _ s']) (simp add: tool_trash_def)
qed

text \<open>
  C31: After start-up exactly the accounts with a refresh token in the keychain have a provider, and
  each of these is ready: its client holds the stored token, so its first call can refresh.
\<close>

theorem startup_registers_signed_in_accounts:
  assumes "\<And>h. env_keychain E h = None" and "ctx_providers s = Map.empty"
    and "account_list X (ctx_storage s) = (Ok accs, d)"
  shows "\<exists>s'. hydrate_providers X E cfg s = (Ok (), s') \<and>
    dom (ctx_providers s') = {a \<in> acc_id ` set accs. secret_lookup X (ctx_net s) (a, RefreshToken) \<noteq> None} \<and>
    (\<forall>a p. ctx_providers s' a = Some p \<longrightarrow> (\<exists>cell email. persisted X a cell (ctx_net s') \<and>
       p = gmail_provider_new X E (daemon_client X E cfg cell a) email))"
proof -
  have "\<forall>a p. ctx_providers (s\<lparr>ctx_storage := d\<rparr>) a = Some p \<longrightarrow> ready X E cfg (s\<lparr>ctx_storage := d\<rparr>) a p"
    using assms(2) by simp
  from hydrate_loop [OF assms(1) this, of accs] obtain s' where
    "io_for (hydrate_one X E cfg) accs (s\<lparr>ctx_storage := d\<rparr>) = (Ok (), s')"
    "\<forall>a p. ctx_providers s' a = Some p \<longrightarrow> ready X E cfg s' a p"
    "dom (ctx_providers s') = {a \<in> acc_id ` set accs. secret_lookup X (ctx_net s) (a, RefreshToken) \<noteq> None}"
    using assms(2) by auto
  then show ?thesis
    using assms(3) by (intro exI [of _ s']) (fastforce simp: hydrate_providers_def io_bind_def on_storage_def ready_def)
qed

definition store_json :: "(string \<times> json) list" where
  "store_json = [(''{}'', JObject []), (''[]'', JArray [])]"

definition cold_daemon :: daemon where
  "cold_daemon = demo_daemon\<lparr>ctx_providers := Map.empty, dm_cells := 0\<rparr>"

lemma cold_accounts:
  "account_list (sample_crates store_json) demo_store = (Ok [\<lparr>acc_id = AccountId 1, acc_label = ''x'', acc_provider = ProviderKind.Gmail,
     acc_email = ''x@x'', acc_config = JObject [], acc_scopes = [], acc_created_at = 0, acc_last_validated = None\<rparr>], demo_store)"
  by (simp add: account_list_def sql_select_accounts_def io_bind_def demo_store_def empty_db_def into_account_def
      account_id_from_str_def sample_crates_def provider_kind_from_str_def json_from_text_def strings_from_text_def store_json_def)

theorem startup_registers_signed_in_accounts_witness:
  "\<exists>s'. hydrate_providers (sample_crates store_json) quiet_env demo_cfg cold_daemon = (Ok (), s') \<and>
    dom (ctx_providers s') = {AccountId 1}"
proof -
  have k: "secret_lookup (sample_crates store_json) demo_net (AccountId 1, RefreshToken) \<noteq> None"
    by (simp add: secret_lookup_def demo_net_def service_name_def account_id_to_string_def sample_crates_def)
  have c: "ctx_providers cold_daemon = Map.empty" "ctx_storage cold_daemon = demo_store" "ctx_net cold_daemon = demo_net"
    by (simp_all add: cold_daemon_def)
  from startup_registers_signed_in_accounts [OF quiet_keychain c(1), unfolded c, OF cold_accounts, of demo_cfg] k
  show ?thesis by auto
qed

text \<open>The two ends of a sign-in whose account was stored.\<close>

abbreviation signed_in_account :: "AccountId \<Rightarrow> string \<Rightarrow> OAuthTokens \<Rightarrow> string \<Rightarrow> datetime \<Rightarrow> Account" where
  "signed_in_account i label tokens email t \<equiv>
     \<lparr>acc_id = i, acc_label = (if label = [] then email else label), acc_provider = ProviderKind.Gmail, acc_email = email,
      acc_config = JObject [], acc_scopes = token_scopes tokens, acc_created_at = t, acc_last_validated = None\<rparr>"

lemma finish_oauth_stores:
  assumes "ulid_round_trip X" "json_round_trip X (JObject [])"
    "json_round_trip X (JArray (map JString (token_scopes tokens)))" "timestamp_opt X now = Some t"
    "db_wf d" "db_faults d = []" "\<not> has_account X d i"
  obtains d' d'' where "account_create X i now \<lparr>na_label = (if label = [] then email else label), na_provider = ProviderKind.Gmail,
      na_email = email, na_config = JObject [], na_scopes = token_scopes tokens\<rparr> d = (Ok i, d')"
    "install_defaults X i d' = (Ok (), d'')" "has_account X d'' i" "policy_table X d'' i = default_policy"
    "account_get X i d'' = (Ok (Some (signed_in_account i label tokens email t)), d'')"
proof -
  let ?new = "\<lparr>na_label = (if label = [] then email else label), na_provider = ProviderKind.Gmail, na_email = email,
        na_config = JObject [], na_scopes = token_scopes tokens\<rparr>"
  have j: "json_round_trip X (na_config ?new)" "json_round_trip X (JArray (map JString (na_scopes ?new)))"
    using assms(2,3) by simp_all
  obtain d' d'' where d: "account_create X i now ?new d = (Ok i, d')"
    "account_get X i d' = (Ok (Some (signed_in_account i label tokens email t)), d')" "db_faults d' = []" "has_account X d' i"
    "install_defaults X i d' = (Ok (), d'')" "policy_table X d'' i = default_policy"
    using account_create_get [OF assms(1) j assms(4-7)] by auto
  have fr: "accounts d'' = accounts d'" "db_faults d'' = []"
    using install_defaults_frame [OF d(3), of X i] d(5) by simp_all
  have "account_get X i d'' = (Ok (Some (signed_in_account i label tokens email t)), d'')"
    using account_get_frame [OF fr(1) d(3) fr(2), of X i] d(2) by simp
  moreover have "has_account X d'' i" using d(4) fr(1) by (simp add: has_account_def)
  ultimately show thesis using that d(1,5,6) by blast
qed

text \<open>
  C32: What a completed sign-in leaves behind. The account is in the database with the default
  policies and the challenge is used up. With a refresh token the provider is registered on a
  client that holds exactly the tokens obtained, the keychain holds the refresh token, clients are
  told, and the answer is the stored account. Without one the call fails, but the account stays
  behind in the database without a provider and without anybody being told.
\<close>

theorem sign_in_outcome:
  assumes "ulid_round_trip X" and "json_round_trip X (JObject [])"
    and "json_round_trip X (JArray (map JString (token_scopes tokens)))" and "timestamp_opt X (dr_now dr) = Some t"
    and "db_wf (ctx_storage s)" and "db_faults (ctx_storage s) = []" and "\<not> has_account X (ctx_storage s) (AccountId (dr_ulid dr))"
    and "\<And>h. env_keychain E h = None" and "get_str ''challenge_id'' params = Some cid"
    and "dm_pending_oauth s cid = Some task" and "task (ctx_net s) = Some (Ok (tokens, email), w)"
  shows "\<exists>r s'. handle X E C dr ''accounts.complete_oauth'' params s = Some (r, s') \<and>
    has_account X (ctx_storage s') (AccountId (dr_ulid dr)) \<and>
    policy_table X (ctx_storage s') (AccountId (dr_ulid dr)) = default_policy \<and> dm_pending_oauth s' cid = None \<and>
    (case tk_refresh_token tokens of
       None \<Rightarrow> r = Err no_refresh_token \<and> ctx_providers s' = ctx_providers s \<and> dm_notifs s' = dm_notifs s
     | Some rt \<Rightarrow> \<exists>acc. r = Ok (account_json X acc) \<and> acc_id acc = AccountId (dr_ulid dr) \<and> acc_email acc = email \<and>
         dm_notifs s' = dm_notifs s @ [AccountAdded acc] \<and>
         ctx_providers s' = (ctx_providers s)(AccountId (dr_ulid dr) \<mapsto> gmail_provider_new X E
           (daemon_client X E (dc_oauth_cfg C) (dm_cells s) (AccountId (dr_ulid dr))) email) \<and>
         net_tokens (ctx_net s') (dm_cells s) = tokens \<and>
         persisted X (AccountId (dr_ulid dr)) (dm_cells s) (ctx_net s'))"
proof -
  let ?i = "AccountId (dr_ulid dr)" and ?label = "str_or_empty ''label'' params"
  let ?acc = "signed_in_account ?i ?label tokens email t"
  let ?s1 = "s\<lparr>dm_pending_oauth := (dm_pending_oauth s)(cid := None), ctx_net := w\<rparr>"
  obtain d' d'' where d: "account_create X ?i (dr_now dr) \<lparr>na_label = (if ?label = [] then email else ?label), na_provider = ProviderKind.Gmail,
      na_email = email, na_config = JObject [], na_scopes = token_scopes tokens\<rparr> (ctx_storage s) = (Ok ?i, d')"
    "install_defaults X ?i d' = (Ok (), d'')" "has_account X d'' ?i" "policy_table X d'' ?i = default_policy"
    "account_get X ?i d'' = (Ok (Some ?acc), d'')"
    by (rule finish_oauth_stores [OF assms(1-7)])
  have run: "handle X E C dr ''accounts.complete_oauth'' params s = Some (finish_oauth X E C dr ?label tokens email ?s1)"
    using assms(9-11) by (simp add: handle_def complete_oauth_def join_result_def io_bind_def)
  show ?thesis
  proof (cases "tk_refresh_token tokens")
    case None
    then have "finish_oauth X E C dr ?label tokens email ?s1 = (Err no_refresh_token, ?s1\<lparr>ctx_storage := d''\<rparr>)"
      using d(1,2) by (simp add: finish_oauth_def io_bind_def on_storage_def)
    then show ?thesis using run None d(3,4) by simp
  next
    case (Some rt)
    obtain w' where w': "secret_set X E ?i RefreshToken rt w = (Ok (), w')"
      "net_keychain w' (service_name X ?i, key_kind_as_str RefreshToken) = Some rt" "net_tokens w' = net_tokens w"
      using secret_set_run [OF assms(8)] by blast
    let ?s2 = "?s1\<lparr>ctx_storage := d'', ctx_net := w'\<lparr>net_tokens := (net_tokens w')(dm_cells s := tokens)\<rparr>,
        dm_cells := Suc (dm_cells s), ctx_providers := (ctx_providers s)(?i \<mapsto> gmail_provider_new X E
           (daemon_client X E (dc_oauth_cfg C) (dm_cells s) ?i) email), dm_notifs := dm_notifs s @ [AccountAdded ?acc]\<rparr>"
    have "finish_oauth X E C dr ?label tokens email ?s1 = (Ok (account_json X ?acc), ?s2)"
      using Some d(1,2,5) w'(1)
      by (simp add: finish_oauth_def io_bind_def on_storage_def on_net_def add_provider_def registry_insert_def notify_def)
    moreover have "persisted X ?i (dm_cells s) (ctx_net ?s2)"
      using w'(2) Some by (simp add: persisted_def)
    ultimately show ?thesis using run Some d(3,4) by (intro exI [of _ "Ok (account_json X ?acc)"] exI [of _ ?s2]) simp
  qed
qed

definition demo_tokens :: "string option \<Rightarrow> OAuthTokens" where
  "demo_tokens rt = \<lparr>tk_access_token = ''AT'', tk_refresh_token = rt, tk_expires_at = 100, tk_scope = None\<rparr>"

definition signing_in :: "string option \<Rightarrow> daemon" where
  "signing_in rt = demo_daemon\<lparr>dm_pending_oauth := [''uuu'' \<mapsto> (\<lambda>w. Some (Ok (demo_tokens rt, ''y@y''), w))]\<rparr>"

theorem sign_in_outcome_witness:
  "\<exists>s'. handle (sample_crates store_json) quiet_env demo_daemon_cfg demo_draw ''accounts.complete_oauth''
      (JObject [(''challenge_id'', JString ''uuu'')]) (signing_in None) = Some (Err no_refresh_token, s') \<and>
    has_account (sample_crates store_json) (ctx_storage s') (AccountId 0) \<and> ctx_providers s' (AccountId 0) = None"
proof -
  have s: "ctx_storage (signing_in None) = demo_store" "dm_pending_oauth (signing_in None) ''uuu'' = Some (\<lambda>w. Some (Ok (demo_tokens None, ''y@y''), w))"
    "ctx_providers (signing_in None) (AccountId 0) = None"
    by (simp_all add: signing_in_def demo_daemon_def)
  have x: "json_round_trip (sample_crates store_json) (JObject [])" "json_round_trip (sample_crates store_json) (JArray (map JString (token_scopes (demo_tokens None))))"
    "timestamp_opt (sample_crates store_json) (dr_now demo_draw) = Some 5"
    "\<not> has_account (sample_crates store_json) demo_store (AccountId (dr_ulid demo_draw))"
    by (simp_all add: json_round_trip_def sample_crates_def store_json_def token_scopes_def demo_tokens_def demo_draw_def
        has_account_def demo_store_def account_id_to_string_def)
  have g: "get_str ''challenge_id'' (JObject [(''challenge_id'', JString ''uuu'')]) = Some ''uuu''"
    by (simp add: get_str_def)
  have t: "tk_refresh_token (demo_tokens None) = None" "AccountId (dr_ulid demo_draw) = AccountId 0"
    by (simp_all add: demo_tokens_def demo_draw_def)
  from sign_in_outcome [OF sample_ulid_round_trip x(1,2,3), where s = "signing_in None" and E = quiet_env and C = demo_daemon_cfg,
      unfolded s(1), OF demo_store_facts(1,2) x(4) quiet_keychain g s(2) refl] s(3)
  show ?thesis unfolding t by force
qed

text \<open>
  C22: Every request to the daemon is answered exactly once, on its own connection. With any number of
  connections, and whatever the others do (malformed lines, disconnecting, falling behind), on a
  connection whose client stays and sends lines of UTF-8 the responses written are one per line, in
  the order of the lines and with the identifier of each (null for a line that is not a request);
  the connection stays usable and the daemon keeps its invariant. The server goes on unless a request
  waits for a sign-in that never ends.
\<close>

theorem every_request_is_answered_once:
  assumes "daemon_inv X E (fst (sv_handler v))" and "i < length (sv_conns v)" and "conn_up (sv_conns v ! i)"
    and "lines_ok (events_of i es)"
  shows "(\<forall>v'. bind_and_serve X (daemon_handler X E C) es v = Some v' \<longrightarrow>
      i < length (sv_conns v') \<and> conn_up (sv_conns v' ! i) \<and> daemon_inv X E (fst (sv_handler v')) \<and>
      response_ids (cn_out (sv_conns v' ! i)) = response_ids (cn_out (sv_conns v ! i)) @ event_ids X (events_of i es)) \<and>
    (\<not> server_calls X es ''accounts.complete_oauth'' \<longrightarrow> (\<exists>v'. bind_and_serve X (daemon_handler X E C) es v = Some v'))"
proof (intro conjI allI impI)
  have inv: "case sv_handler v of (s, _) \<Rightarrow> daemon_inv X E s" using assms(1) by (simp add: split_beta)
  fix v' assume "bind_and_serve X (daemon_handler X E C) es v = Some v'"
  note a = daemon_ipc.server_answers [OF this inv assms(2-4)]
  then show "i < length (sv_conns v')" "conn_up (sv_conns v' ! i)" "daemon_inv X E (fst (sv_handler v'))"
    "response_ids (cn_out (sv_conns v' ! i)) = response_ids (cn_out (sv_conns v ! i)) @ event_ids X (events_of i es)"
    by (simp_all add: split_beta)
next
  assume "\<not> server_calls X es ''accounts.complete_oauth''"
  then have "bind_and_serve X (daemon_handler X E C) es v \<noteq> None"
    using assms(1) by (intro daemon_ipc.server_returns) (simp_all add: split_beta)
  then show "\<exists>v'. bind_and_serve X (daemon_handler X E C) es v = Some v'" by blast
qed

text \<open>Two connections: the client of the second disconnects in the middle of what the first does.\<close>

theorem every_request_is_answered_once_witness:
  "\<exists>v'. bind_and_serve (sample_crates [(''S'', demo_subscribe)]) (daemon_handler (sample_crates [(''S'', demo_subscribe)]) quiet_env demo_daemon_cfg)
     [On 0 (Line ''S''), On 1 PeerGone, On 1 (Line ''S''), On 0 (Event (McpPausedChanged True)), On 0 (Line ''x'')]
     \<lparr>sv_accepting = True, sv_conns = [conn_new, conn_new], sv_handler = (cold_daemon, \<lambda>_. demo_draw)\<rparr> = Some v' \<and>
     response_ids (cn_out (sv_conns v' ! 0)) = [JNull, JNull]"
proof -
  let ?X = "sample_crates [(''S'', demo_subscribe)]"
  let ?es = "[On 0 (Line ''S''), On 1 PeerGone, On 1 (Line ''S''), On 0 (Event (McpPausedChanged True)), On 0 (Line ''x'')]"
  let ?v = "\<lparr>sv_accepting = True, sv_conns = [conn_new, conn_new], sv_handler = (cold_daemon, \<lambda>_ :: nat. demo_draw)\<rparr>"
  have u: "valid_utf8 ''S''" "valid_utf8 ''x''" and t: "trim ''S'' = ''S''" "trim ''x'' = ''x''" by code_simp+
  have l: "lines_ok (events_of 0 ?es)" using u by (auto simp: lines_ok_def simp del: valid_utf8.simps)
  have p: "parse_ipc_request ?X ''S'' = Inr \<lparr>ir_id = JNull, ir_method = ''subscribe'',
      ir_params = Some (JObject [(''events'', JArray [JString ''mcp.paused_changed''])])\<rparr>" "parse_ipc_request ?X ''x'' = Inl ''expected value''"
    by (simp_all add: parse_ipc_request_def sample_crates_def demo_subscribe_def de_ipc_request_def de_defs)
  have e: "event_ids ?X (events_of 0 ?es) = [JNull, JNull]" and c: "\<not> server_calls ?X ?es ''accounts.complete_oauth''"
    by (auto simp: line_id_def server_calls_def calls_method_def t p split: if_splits)
  have "daemon_inv ?X quiet_env (fst (sv_handler ?v))" by (simp add: daemon_inv_def cold_daemon_def demo_daemon_def demo_store_facts)
  from every_request_is_answered_once [OF this _ _ l, of demo_daemon_cfg] c e show ?thesis by force
qed

end
