(* ===== verification/Daemon_Wait.thy ===== *)
theory Daemon_Wait
  imports Daemon_Props
begin

text \<open>
  A tool call that waits for the user while the daemon goes on working. \<^theory_text>\<open>Enforce\<close> leaves the
  wait open; here it is filled in: between the request for an approval and its answer the daemon
  serves IPC requests (any of \<^const>\<open>handle\<close>, among them \<open>approvals.decide\<close>), and the pieces of
  other tool calls run, each of them a stretch between two points where a call can be suspended.
  The future is polled after each of them, and at the latest when its time is over.
\<close>

section \<open>The daemon during a wait\<close>

datatype daemon_activity =
    IpcCall draw string json
  | OtherAsks ApprovalId datetime ApprovalRequest
  | OtherTimesOut ApprovalFuture
  | OtherIsTrusted AccountId Category
  | OtherFinishes "net MailProvider" ToolSpec json EnforceOutcome

text \<open>
  What a call of \<^const>\<open>complete_oauth\<close> does that never returns: it has taken its entry from the
  map of pending sign-ins.
\<close>

definition take_pending_oauth :: "json \<Rightarrow> daemon \<Rightarrow> daemon" where
  "take_pending_oauth params s = (case get_str ''challenge_id'' params of
      None \<Rightarrow> s
    | Some cid \<Rightarrow> s\<lparr>dm_pending_oauth := (dm_pending_oauth s)(cid := None)\<rparr>)"

definition resume_future :: "ApprovalFuture \<Rightarrow> nat \<Rightarrow> daemon \<Rightarrow> (ApprovalOutcome res \<times> daemon) option" where
  "resume_future f t s = map_option (\<lambda>(r, q). (r, s\<lparr>ctx_approvals := q\<rparr>)) (await_outcome f t (ctx_approvals s))"

primrec daemon_acts :: "crates \<Rightarrow> env \<Rightarrow> daemon_cfg \<Rightarrow> daemon_activity \<Rightarrow> daemon \<Rightarrow> daemon" where
  "daemon_acts X E C (IpcCall dr method params) s = (case handle X E C dr method params s of
      None \<Rightarrow> take_pending_oauth params s
    | Some (r, s') \<Rightarrow> s')"
| "daemon_acts X E C (OtherAsks j now req) s = s\<lparr>ctx_approvals := snd (enqueue j now req (ctx_approvals s))\<rparr>"
| "daemon_acts X E C (OtherTimesOut f) s = (case resume_future f (fut_timeout f) s of
      None \<Rightarrow> s
    | Some (r, s') \<Rightarrow> s')"
| "daemon_acts X E C (OtherIsTrusted a c) s = s\<lparr>ctx_trust := grant a c (ctx_trust s)\<rparr>"
| "daemon_acts X E C (OtherFinishes p tool args v) s = snd (finish_call X p tool args v s)"

text \<open>
  The activities carry the time since the call began to wait. One that comes when the time is over
  finds the call gone.
\<close>

fun daemon_wait ::
  "crates \<Rightarrow> env \<Rightarrow> daemon_cfg \<Rightarrow> (nat \<times> daemon_activity) list \<Rightarrow> ApprovalFuture \<Rightarrow> (daemon, ApprovalOutcome) io" where
  "daemon_wait X E C [] f s = unwrap_or (Err (Internal ''pending''), s) (resume_future f (fut_timeout f) s)"
| "daemon_wait X E C ((t, a) # as) f s =
     (if fut_timeout f \<le> t then unwrap_or (Err (Internal ''pending''), s) (resume_future f (fut_timeout f) s)
      else (case resume_future f t (daemon_acts X E C a s) of
          None \<Rightarrow> daemon_wait X E C as f (daemon_acts X E C a s)
        | Some x \<Rightarrow> x))"

section \<open>The first answer among the activities\<close>

text \<open>The identifier and the decision that the parameters of \<open>approvals.decide\<close> name, if they do.\<close>

definition decision_of :: "string \<Rightarrow> ApprovalDecision option" where
  "decision_of d = (if d = ''approve'' then Some Approve else if d = ''reject'' then Some Reject else None)"

definition named_decision :: "crates \<Rightarrow> json \<Rightarrow> (ApprovalId \<times> ApprovalDecision) option" where
  "named_decision X params = (case get_str ''id'' params of
      None \<Rightarrow> None
    | Some str \<Rightarrow> (case ulid_from_str X str of
        Inl e \<Rightarrow> None
      | Inr u \<Rightarrow> map_option (Pair (ApprovalId u)) (decision_of (str_or_empty ''decision'' params))))"

fun decides :: "crates \<Rightarrow> ApprovalId \<Rightarrow> daemon_activity \<Rightarrow> ApprovalDecision option" where
  "decides X i (IpcCall dr method params) =
     (if method = ''approvals.decide'' then (case named_decision X params of
          None \<Rightarrow> None
        | Some (j, d) \<Rightarrow> if j = i then Some d else None)
      else None)"
| "decides X i _ = None"

text \<open>The activities up to the first answer within the time, and that answer.\<close>

fun until_answer ::
  "crates \<Rightarrow> ApprovalId \<Rightarrow> nat \<Rightarrow> (nat \<times> daemon_activity) list \<Rightarrow> daemon_activity list \<times> ApprovalDecision option" where
  "until_answer X i timeout [] = ([], None)"
| "until_answer X i timeout ((t, a) # as) =
     (if timeout \<le> t then ([], None)
      else if decides X i a \<noteq> None then ([a], decides X i a)
      else apfst ((#) a) (until_answer X i timeout as))"

text \<open>Identifiers of approvals are drawn afresh: no other call has this one.\<close>

primrec other_call :: "ApprovalId \<Rightarrow> daemon_activity \<Rightarrow> bool" where
  "other_call i (IpcCall dr method params) = True"
| "other_call i (OtherAsks j now req) = (j \<noteq> i)"
| "other_call i (OtherTimesOut f) = (fut_id f \<noteq> i)"
| "other_call i (OtherIsTrusted a c) = True"
| "other_call i (OtherFinishes p tool args v) = True"

section \<open>An entry that waits stays until it is answered\<close>

definition awaits :: "ApprovalId \<Rightarrow> nat \<Rightarrow> ApprovalQueue \<Rightarrow> bool" where
  "awaits i c q \<longleftrightarrow> queue_wf q \<and> (\<exists>p. map_of (q_pending q) i = Some (p, c))"

lemma awaits_waiting: "awaits i c q \<Longrightarrow> q_channels q ! c = Waiting \<and> c < length (q_channels q)"
  by (auto simp: awaits_def dest: queue_wf_lookup)

lemma enqueue_awaits: "awaits i c q \<Longrightarrow> j \<noteq> i \<Longrightarrow> awaits i c (snd (enqueue j now req q))"
  using enqueue_wf [of q j now req]
  by (auto simp: awaits_def enqueue_def Let_def broadcast_def pending_insert_def update_conv')

lemma decide_awaits: "awaits i c q \<Longrightarrow> j \<noteq> i \<Longrightarrow> awaits i c (snd (decide X j d q))"
  using keepsD [OF decide_wf, of q X j d]
  by (auto simp: awaits_def decide_def broadcast_def oneshot_send_def pending_remove_def delete_conv' split: option.split prod.split)

lemma await_awaits:
  assumes "awaits i c q" "fut_id f \<noteq> i" "await_outcome f t q = Some (r, q')"
  shows "awaits i c q'"
  using assms await_outcome_wf [OF _ assms(3)]
  by (auto simp: awaits_def await_outcome_def pending_drop_def pending_remove_def delete_conv'
      split: oneshot.splits if_splits)

text \<open>Only \<open>approvals.decide\<close> looks at the queue.\<close>

abbreviation queue_is :: "ApprovalQueue \<Rightarrow> daemon \<Rightarrow> bool" where
  "queue_is q \<equiv> \<lambda>s. ctx_approvals s = q"

lemma queue_is_rules:
  "keeps (queue_is q) (on_storage m)" "keeps (queue_is q) (on_net n)" "keeps (queue_is q) (notify x)"
  "keeps (queue_is q) (add_provider X E cfg tokens a email)" "keeps (queue_is q) (\<lambda>s. (Ok u, registry_remove a s))"
  "keeps (queue_is q) (\<lambda>s. (Ok v, s\<lparr>dm_pending_oauth := f s\<rparr>))" "keeps (queue_is q) (\<lambda>s. (Ok v, s\<lparr>ctx_mcp_paused := b\<rparr>))"
  "keeps (queue_is q) (\<lambda>s. (Ok (g s), s))"
  by (simp_all add: keeps_def on_storage_def on_net_def notify_def add_provider_def registry_insert_def
      registry_remove_def case_prod_unfold)

lemma finish_oauth_queue: "keeps (queue_is q) (finish_oauth X E C dr label tokens email)"
  unfolding finish_oauth_def
  by (cases "tk_refresh_token tokens"; simp only: option.case; intro keeps_bind keeps_ret keeps_res queue_is_rules)

lemma complete_oauth_queue:
  assumes "complete_oauth X E C dr params s = Some (r, s')"
  shows "ctx_approvals s' = ctx_approvals s"
  using assms
proof (cases rule: complete_oauth_cases)
  case (joined cid r0 w)
  have "keeps (queue_is (ctx_approvals s)) (io_bind (io_res (join_result r0))
      (\<lambda>(tokens, email). finish_oauth X E C dr (str_or_empty ''label'' params) tokens email))"
    unfolding split_beta by (intro keeps_bind keeps_res finish_oauth_queue)
  from keepsD [OF this, of "s\<lparr>dm_pending_oauth := (dm_pending_oauth s)(cid := None), ctx_net := w\<rparr>"]
  show ?thesis by (simp add: joined)
qed simp

lemma handle_queue:
  assumes "handle X E C dr method params s = Some (r, s')" "method \<noteq> ''approvals.decide''"
  shows "ctx_approvals s' = ctx_approvals s"
proof (cases "method = ''accounts.complete_oauth''")
  case True
  with assms(1) show ?thesis by (intro complete_oauth_queue) (simp add: handle_def)
next
  case False
  have step: "ctx_approvals s' = ctx_approvals s" if "m s = (r, s')" "keeps (queue_is (ctx_approvals s)) m" for m
    using keepsD [OF that(2), of s] that(1) by simp
  from assms False show ?thesis
    unfolding handle_def add_oauth_def cancel_oauth_def remove_account_def ipc_permissions_get_def ipc_permissions_set_def
      daemon_status_def accounts_list_def set_onboarding_complete_def mcp_pause_def Let_def
    by (simp only: if_False option.inject)
      (erule step, intro keeps_if keeps_bind keeps_ret keeps_res keeps_ignore queue_is_rules)
qed

lemma approvals_decide_named:
  "named_decision X params = Some (j, d) \<Longrightarrow>
     approvals_decide X params = io_bind (on_queue (decide X j d)) (\<lambda>_. io_ret (JObject []))"
  by (auto simp: named_decision_def decision_of_def approvals_decide_def Let_def map_err_def fun_eq_iff io_bind_def
      split: option.splits sum.splits if_splits)

lemma approvals_decide_refused:
  "named_decision X params = None \<Longrightarrow> \<exists>e. approvals_decide X params s = (Err e, s)"
  by (auto simp: named_decision_def decision_of_def approvals_decide_def Let_def map_err_def io_bind_def ok_or_def
      split: option.splits sum.splits if_splits)

lemma approvals_decide_queue:
  "ctx_approvals (snd (approvals_decide X params s)) = (case named_decision X params of
      None \<Rightarrow> ctx_approvals s | Some (j, d) \<Rightarrow> snd (decide X j d (ctx_approvals s)))"
proof (cases "named_decision X params")
  case None
  from approvals_decide_refused [OF this, of s] None show ?thesis by auto
next
  case (Some jd)
  then show ?thesis
    by (cases jd) (auto simp: approvals_decide_named on_queue_def io_bind_def case_prod_unfold split: res.split)
qed

lemma acts_awaits:
  assumes "awaits i c (ctx_approvals s)" "decides X i a = None" "other_call i a"
  shows "awaits i c (ctx_approvals (daemon_acts X E C a s))"
proof (cases a)
  case (IpcCall dr m params)
  show ?thesis
  proof (cases "m = ''approvals.decide''")
    case True
    then show ?thesis
      using assms(1,2) IpcCall
      by (auto simp: handle_def case_prod_unfold approvals_decide_queue decide_awaits split: option.splits if_splits)
  next
    case False
    then have "ctx_approvals (daemon_acts X E C a s) = ctx_approvals s"
      using IpcCall by (auto simp: take_pending_oauth_def dest: handle_queue split: option.split)
    with assms(1) show ?thesis by simp
  qed
next
  case (OtherTimesOut f)
  with assms(1,3) await_awaits [of i c "ctx_approvals s" f "fut_timeout f"] show ?thesis
    by (auto simp: resume_future_def split: option.split)
next
  case (OtherFinishes p tool args v)
  then show ?thesis using assms(1) by (cases v) (auto simp: finish_call_def on_net_def case_prod_unfold)
qed (use assms enqueue_awaits in auto)

text \<open>A decision for the entry is accepted and reaches the waiting call.\<close>

lemma acts_decides:
  assumes "awaits i c (ctx_approvals s)" "decides X i a = Some d" "fut_rx f = c"
  shows "resume_future f t (daemon_acts X E C a s) = Some (Ok (decision_outcome d), daemon_acts X E C a s)"
proof -
  from assms(2) obtain dr params where a: "a = IpcCall dr ''approvals.decide'' params"
    "named_decision X params = Some (i, d)"
    by (cases a) (auto split: if_splits option.splits)
  obtain p where p: "queue_wf (ctx_approvals s)" "map_of (q_pending (ctx_approvals s)) i = Some (p, c)"
    using assms(1) by (auto simp: awaits_def)
  from decide_found [OF p, of X d] obtain q' where
    "decide X i d (ctx_approvals s) = (Ok (), q')" "q_channels q' ! c = Value (decision_outcome d)" by blast
  with a assms(3) show ?thesis
    by (simp add: resume_future_def await_outcome_def handle_def approvals_decide_named io_bind_def on_queue_def)
qed

lemma resume_waiting:
  assumes "awaits i c (ctx_approvals s)" "fut_rx f = c" "fut_id f = i"
  shows "resume_future f t s = (if t < fut_timeout f then None
    else Some (Ok Timeout, s\<lparr>ctx_approvals := pending_drop i (ctx_approvals s)\<rparr>))"
  using awaits_waiting [OF assms(1)] assms(2,3) by (simp add: resume_future_def await_outcome_def)

text \<open>The wait ends with the first answer in time, and with a timeout if there is none.\<close>

definition settled :: "ApprovalId \<Rightarrow> ApprovalDecision option \<Rightarrow> daemon \<Rightarrow> ApprovalOutcome \<times> daemon" where
  "settled i d s = (case d of
      Some d \<Rightarrow> (decision_outcome d, s)
    | None \<Rightarrow> (Timeout, s\<lparr>ctx_approvals := pending_drop i (ctx_approvals s)\<rparr>))"

lemma daemon_wait_settled:
  assumes "awaits i c (ctx_approvals s)" "fut_rx f = c" "fut_id f = i" "\<forall>(t, a) \<in> set as. other_call i a"
    and "until_answer X i (fut_timeout f) as = (bs, d)"
  shows "daemon_wait X E C as f s = apfst Ok (settled i d (fold (daemon_acts X E C) bs s))"
  using assms(1,4,5)
proof (induction as arbitrary: s bs)
  case Nil
  then show ?case using resume_waiting [OF Nil.prems(1) assms(2,3)] by (simp add: settled_def)
next
  case (Cons e as)
  obtain t a where e: "e = (t, a)" by (cases e)
  show ?case
  proof (cases "fut_timeout f \<le> t")
    case True
    then show ?thesis
      using Cons.prems resume_waiting [OF Cons.prems(1) assms(2,3)] by (simp add: e settled_def)
  next
    case False
    show ?thesis
    proof (cases "decides X i a")
      case None
      then have aw: "awaits i c (ctx_approvals (daemon_acts X E C a s))"
        using acts_awaits [OF Cons.prems(1) None] Cons.prems(2) e by simp
      from Cons.prems(3) None False obtain bs' where bs': "until_answer X i (fut_timeout f) as = (bs', d)" "bs = a # bs'"
        by (cases "until_answer X i (fut_timeout f) as") (auto simp: e)
      from Cons.IH [OF aw _ bs'(1)] Cons.prems(2) False resume_waiting [OF aw assms(2,3), of t] show ?thesis
        by (simp add: e bs'(2))
    next
      case (Some d')
      with Cons.prems(3) False have "bs = [a]" "d = Some d'" by (auto simp: e)
      with acts_decides [OF Cons.prems(1) Some assms(2), of t E C] False show ?thesis
        by (simp add: e settled_def)
    qed
  qed
qed

lemma enqueue_awaits_own:
  assumes "queue_wf q" "enqueue i now req q = ((j, f), q')"
  shows "awaits i (fut_rx f) q'" "fut_id f = i" "fut_timeout f = q_timeout q"
  using enqueue_simps [OF assms(2)] enqueue_wf [OF assms(1), of i now req] assms(2)
  by (auto simp: awaits_def)

text \<open>
  A request whose caller is gone stays: only the caller's own timer would remove it. Whatever the
  daemon does, it is pending until somebody decides it.
\<close>

lemma abandoned_request_stays:
  assumes "awaits i c (ctx_approvals s)" "\<forall>a \<in> set as. other_call i a \<and> decides X i a = None"
  shows "awaits i c (ctx_approvals (fold (daemon_acts X E C) as s))"
  using assms by (induction as arbitrary: s) (simp_all add: acts_awaits)

section \<open>Properties\<close>

text \<open>
  C6: The user decides, end to end. A tool call that has to be confirmed waits while the daemon
  serves any IPC requests and other tool calls; it is executed exactly if the first well-formed
  \<open>approvals.decide\<close> request for its identifier that arrives before the timeout says "approve",
  whatever happens before and around it. It then runs on the provider that was registered when the
  call arrived. If that request says "reject", or none comes in time, the call is refused and its
  entry is gone. The effects on the daemon are exactly those of the activities up to that moment.
\<close>

theorem waiting_call_follows_user:
  assumes "\<not> ctx_mcp_paused s" "parse_account_id X args = Ok acc" "ctx_providers s acc = Some p"
    "db_wf (ctx_storage s)" "db_faults (ctx_storage s) = []"
    "needs_user (policy_table X (ctx_storage s) acc (tool_category tool)) (tool_category tool)
       (is_trusted (ctx_trust s) acc (tool_category tool))"
    and "queue_wf (ctx_approvals s)" and "\<forall>(t, a) \<in> set as. other_call i a"
    and "until_answer X i (q_timeout (ctx_approvals s)) as = (bs, d)"
    and "t = fold (daemon_acts X E C) bs
      (s\<lparr>ctx_approvals := snd (enqueue i now (tool_request tool acc args) (ctx_approvals s))\<rparr>)"
  shows "dispatch X (daemon_wait X E C as) i now tool args s = (case d of
      Some Approve \<Rightarrow> on_net (execute X p (tool_name tool) args)
        (if policy_table X (ctx_storage s) acc (tool_category tool) = Session
         then t\<lparr>ctx_trust := grant acc (tool_category tool) (ctx_trust t)\<rparr> else t)
    | Some Reject \<Rightarrow> (Err (PermissionDenied (tool_name tool @ '': blocked by user policy'')), t)
    | None \<Rightarrow> (Err (PermissionDenied (tool_name tool @ '': blocked by user policy'')),
        t\<lparr>ctx_approvals := pending_drop i (ctx_approvals t)\<rparr>))"
proof -
  obtain j f q where q: "enqueue i now (tool_request tool acc args) (ctx_approvals s) = ((j, f), q)"
    by (metis prod.exhaust)
  note own = enqueue_awaits_own [OF assms(7) q]
  obtain v u where u: "settled i d t = (v, u)" by (cases "settled i d t")
  have "daemon_wait X E C as f (s\<lparr>ctx_approvals := q\<rparr>) = (Ok v, u)"
    using daemon_wait_settled [where s = "s\<lparr>ctx_approvals := q\<rparr>", OF _ refl own(2) assms(8), of X bs d E C] own(1,3)
      assms(9,10) u by (simp add: q)
  from dispatch_asks [where wait = "daemon_wait X E C as", OF assms(1-6) q this] u show ?thesis
    by (auto simp: settled_def after_answer_def io_bind_def finish_call_def split: option.splits ApprovalDecision.splits)
qed

text \<open>
  The daemon is paused, and only then the waiting call is approved: it still runs.
\<close>

definition demo_activities :: "(nat \<times> daemon_activity) list" where
  "demo_activities =
     [(5, IpcCall demo_draw ''mcp.pause'' (JObject [(''paused'', JBool True)])),
      (10, IpcCall demo_draw ''approvals.decide'' (JObject [(''id'', JString ''uuuuuuu''), (''decision'', JString ''approve'')]))]"

theorem waiting_call_follows_user_witness:
  "\<exists>p t. ctx_providers demo_daemon (AccountId 1) = Some p \<and> ctx_mcp_paused t \<and>
    dispatch (sample_crates []) (daemon_wait (sample_crates []) quiet_env demo_daemon_cfg demo_activities)
      (ApprovalId 7) 0 tool_trash demo_args demo_daemon =
    on_net (execute (sample_crates []) p ''trash'' demo_args) t"
proof -
  let ?X = "sample_crates []"
  let ?s = "demo_daemon\<lparr>ctx_approvals := snd (enqueue (ApprovalId 7) 0 (tool_request tool_trash (AccountId 1) demo_args) (ctx_approvals demo_daemon))\<rparr>"
  let ?t = "fold (daemon_acts ?X quiet_env demo_daemon_cfg) (map snd demo_activities) ?s"
  obtain p where p: "ctx_providers demo_daemon (AccountId 1) = Some p" using demo_daemon_simps(5) by blast
  have q: "ctx_approvals demo_daemon = approval_queue_new 300" "ctx_trust demo_daemon = Map.empty" by (simp_all add: demo_daemon_def)
  have u: "ulid_from_str ?X ''uuuuuuu'' = Inr 7" by (simp add: sample_crates_def)
  then have a: "until_answer ?X (ApprovalId 7) (q_timeout (ctx_approvals demo_daemon)) demo_activities =
      (map snd demo_activities, Some Approve)"
    by (simp add: demo_activities_def q approval_queue_new_def named_decision_def get_str_def decision_of_def str_or_empty_def)
  have c: "tool_category tool_trash = Trash" "tool_name tool_trash = ''trash''" by (simp_all add: tool_trash_def)
  have pol: "policy_table ?X (ctx_storage demo_daemon) (AccountId 1) Trash = Confirm"
    by (simp add: policy_table_def demo_store_def)
  have "dispatch ?X (daemon_wait ?X quiet_env demo_daemon_cfg demo_activities) (ApprovalId 7) 0 tool_trash demo_args demo_daemon =
      on_net (execute ?X p ''trash'' demo_args) ?t"
    using waiting_call_follows_user [OF _ demo_parse [of "[]"] p, where tool = tool_trash and as = demo_activities
        and i = "ApprovalId 7" and bs = "map snd demo_activities" and d = "Some Approve" and t = ?t and E = quiet_env
        and C = demo_daemon_cfg and now = 0] a pol
    by (simp add: demo_store_facts q needs_user_def c split_beta) (simp add: demo_activities_def)
  moreover have "ctx_mcp_paused ?t"
    by (simp add: demo_activities_def handle_def mcp_pause_def get_bool_def io_bind_def notify_def
        approvals_decide_def get_str_def u on_queue_def str_or_empty_def decide_def q
        split: option.split prod.split)
  ultimately show ?thesis using p by blast
qed

end
