(* ===== verification/M365.thy ===== *)
theory M365
  imports Gmail
begin

text \<open>
  The Microsoft Graph provider (\<^verbatim>\<open>providers/m365\<close>: parse, messages, triage, folders, compose,
  provider). It shares the authenticated client with the Gmail provider and meets the same
  contract of dispatch.
\<close>

section \<open>The API's JSON\<close>

record GraphAddress =
  ga_name :: "string option"
  ga_address :: "string option"

record GraphRecipient =
  gr_email_address :: "GraphAddress option"

record GraphBody =
  gb_content_type :: "string option"
  gb_content :: "string option"

record GraphMessage =
  gm_id :: string
  gm_conversation_id :: string
  gm_subject :: "string option"
  gm_body_preview :: "string option"
  gm_from :: "GraphRecipient option"
  gm_to_recipients :: "GraphRecipient list"
  gm_cc_recipients :: "GraphRecipient list"
  gm_bcc_recipients :: "GraphRecipient list"
  gm_categories :: "string list"
  gm_is_read :: bool
  gm_flag :: "string option option"
  gm_is_draft :: bool
  gm_parent_folder_id :: "string option"
  gm_received_date_time :: "string option"
  gm_body :: "GraphBody option"

definition de_graph_address :: "json \<Rightarrow> GraphAddress option" where
  "de_graph_address = de_struct 0 [''name'', ''address''] (\<lambda>v.
     Option.bind (de_option as_str ''name'' v) (\<lambda>n.
     Option.bind (de_option as_str ''address'' v) (\<lambda>a.
     Some \<lparr>ga_name = n, ga_address = a\<rparr>)))"

definition de_graph_recipient :: "json \<Rightarrow> GraphRecipient option" where
  "de_graph_recipient = de_struct 0 [''emailAddress''] (\<lambda>v.
     Option.bind (de_option de_graph_address ''emailAddress'' v) (\<lambda>a. Some \<lparr>gr_email_address = a\<rparr>))"

text \<open>\<open>RawFlag\<close> has the status as its only field.\<close>

definition de_graph_flag :: "json \<Rightarrow> string option option" where
  "de_graph_flag = de_struct 0 [''flagStatus''] (de_option as_str ''flagStatus'')"

definition de_graph_body :: "json \<Rightarrow> GraphBody option" where
  "de_graph_body = de_struct 0 [''contentType'', ''content''] (\<lambda>v.
     Option.bind (de_option as_str ''contentType'' v) (\<lambda>t.
     Option.bind (de_option as_str ''content'' v) (\<lambda>c.
     Some \<lparr>gb_content_type = t, gb_content = c\<rparr>)))"

definition graph_message_fields :: "string list" where
  "graph_message_fields = [''id'', ''conversationId'', ''subject'', ''bodyPreview'', ''from'', ''toRecipients'',
     ''ccRecipients'', ''bccRecipients'', ''categories'', ''isRead'', ''flag'', ''isDraft'', ''parentFolderId'',
     ''receivedDateTime'', ''body'']"

definition de_graph_message :: "json \<Rightarrow> GraphMessage option" where
  "de_graph_message = de_struct 2 graph_message_fields (\<lambda>v.
     Option.bind (de_required as_str ''id'' v) (\<lambda>i.
     Option.bind (de_required as_str ''conversationId'' v) (\<lambda>conv.
     Option.bind (de_option as_str ''subject'' v) (\<lambda>subj.
     Option.bind (de_option as_str ''bodyPreview'' v) (\<lambda>prev.
     Option.bind (de_option de_graph_recipient ''from'' v) (\<lambda>from.
     Option.bind (de_default [] (de_vec de_graph_recipient) ''toRecipients'' v) (\<lambda>to.
     Option.bind (de_default [] (de_vec de_graph_recipient) ''ccRecipients'' v) (\<lambda>cc.
     Option.bind (de_default [] (de_vec de_graph_recipient) ''bccRecipients'' v) (\<lambda>bcc.
     Option.bind (de_default [] de_vec_string ''categories'' v) (\<lambda>cats.
     Option.bind (de_default False as_bool ''isRead'' v) (\<lambda>read.
     Option.bind (de_option de_graph_flag ''flag'' v) (\<lambda>flag.
     Option.bind (de_default False as_bool ''isDraft'' v) (\<lambda>draft.
     Option.bind (de_option as_str ''parentFolderId'' v) (\<lambda>parent.
     Option.bind (de_option as_str ''receivedDateTime'' v) (\<lambda>received.
     Option.bind (de_option de_graph_body ''body'' v) (\<lambda>body.
     Some \<lparr>gm_id = i, gm_conversation_id = conv, gm_subject = subj, gm_body_preview = prev, gm_from = from,
       gm_to_recipients = to, gm_cc_recipients = cc, gm_bcc_recipients = bcc, gm_categories = cats,
       gm_is_read = read, gm_flag = flag, gm_is_draft = draft, gm_parent_folder_id = parent,
       gm_received_date_time = received, gm_body = body\<rparr>))))))))))))))))"

section \<open>Decoding\<close>

definition to_email_address :: "GraphRecipient \<Rightarrow> EmailAddress option" where
  "to_email_address r =
     Option.bind (gr_email_address r) (\<lambda>addr.
     Option.bind (ga_address addr) (\<lambda>email.
     Some \<lparr>ea_email = email,
       ea_name = Option.bind (ga_name addr) (\<lambda>n. if n = [] then None else Some n)\<rparr>))"

definition graph_bodies :: "GraphBody option \<Rightarrow> string option \<times> string option" where
  "graph_bodies b = (case b of
      Some r \<Rightarrow> (case gb_content r of
          Some c \<Rightarrow> if gb_content_type r \<in> {Some ''html'', Some ''Html'', Some ''HTML''} then (None, Some c)
            else (Some c, None)
        | None \<Rightarrow> (None, None))
    | None \<Rightarrow> (None, None))"

definition graph_decode :: "crates \<Rightarrow> GraphMessage \<Rightarrow> Message res" where
  "graph_decode X raw =
     res_bind (ok_or (Provider ''message missing receivedDateTime'')
       (Option.bind (gm_received_date_time raw) (parse_rfc3339 X))) (\<lambda>date.
     Ok \<lparr>m_id = MessageId (gm_id raw), m_thread_id = ThreadId (gm_conversation_id raw),
       m_from = Option.bind (gm_from raw) to_email_address,
       m_to = List.map_filter to_email_address (gm_to_recipients raw),
       m_cc = List.map_filter to_email_address (gm_cc_recipients raw),
       m_bcc = List.map_filter to_email_address (gm_bcc_recipients raw),
       m_subject = unwrap_or [] (gm_subject raw), m_date = date,
       m_body_text = fst (graph_bodies (gm_body raw)), m_body_html = snd (graph_bodies (gm_body raw)),
       m_labels = map LabelId (gm_categories raw),
       m_folder = map_option FolderId (gm_parent_folder_id raw),
       m_flags = \<lparr>mf_read = gm_is_read raw,
         mf_starred = (Option.bind (gm_flag raw) id \<in> {Some ''flagged'', Some ''complete''}),
         mf_draft = gm_is_draft raw\<rparr>,
       m_attachments = [], m_snippet = unwrap_or [] (gm_body_preview raw)\<rparr>)"

section \<open>Messages\<close>

definition de_list_response :: "(json \<Rightarrow> 'a option) \<Rightarrow> json \<Rightarrow> ('a list \<times> string option) option" where
  "de_list_response f = de_struct 1 [''value'', ''@odata.nextLink''] (\<lambda>v.
     Option.bind (de_required (de_vec f) ''value'' v) (\<lambda>xs.
     Option.bind (de_option as_str ''@odata.nextLink'' v) (\<lambda>n. Some (xs, n))))"

definition qualified_url :: "string \<Rightarrow> bool" where
  "qualified_url s \<longleftrightarrow> prefix ''http://'' s \<or> prefix ''https://'' s"

definition build_search_url :: "crates \<Rightarrow> string \<Rightarrow> SearchQuery \<Rightarrow> string" where
  "build_search_url X base q =
     (let url = base @ ''/me/messages?$top='' @ show_nat (unat (unwrap_or 25 (q_limit q))) @
            ''&$orderby=receivedDateTime desc'' @
            (case q_text q of None \<Rightarrow> []
              | Some t \<Rightarrow> ''&$search='' @ pct_encode X ([CHR 0x22] @ t @ [CHR 0x22])) @
            (case q_folder q of None \<Rightarrow> []
              | Some f \<Rightarrow> ''&$filter=parentFolderId eq '' @ [CHR 0x27] @ pct_encode X (folder_id_str f) @ [CHR 0x27])
      in case q_cursor q of Some cur \<Rightarrow> if qualified_url cur then cur else url | None \<Rightarrow> url)"

definition graph_summary :: "Message \<Rightarrow> ThreadSummary" where
  "graph_summary m =
     \<lparr>ts_id = m_thread_id m, ts_last_message_id = m_id m, ts_subject = m_subject m, ts_snippet = m_snippet m,
      ts_from = m_from m, ts_date = m_date m, ts_message_count = 1, ts_unread = (\<not> mf_read (m_flags m)),
      ts_starred = mf_starred (m_flags m), ts_labels = m_labels m, ts_folder = m_folder m\<rparr>"

text \<open>The loop over the results: a conversation seen before is skipped without being decoded.\<close>

fun graph_summaries :: "crates \<Rightarrow> string set \<Rightarrow> GraphMessage list \<Rightarrow> ThreadSummary list res" where
  "graph_summaries X seen [] = Ok []"
| "graph_summaries X seen (raw # raws) =
     (if gm_conversation_id raw \<in> seen then graph_summaries X seen raws
      else res_bind (graph_decode X raw) (\<lambda>m.
           res_bind (graph_summaries X (insert (gm_conversation_id raw) seen) raws) (\<lambda>ss.
           Ok (graph_summary m # ss))))"

definition m365_search :: "crates \<Rightarrow> env \<Rightarrow> AuthClient \<Rightarrow> string \<Rightarrow> SearchQuery \<Rightarrow> (net, SearchResults) io" where
  "m365_search X E c base q =
     io_bind (checked_json X ''ListResponse'' (de_list_response de_graph_message)
       (client_get X E c (build_search_url X base q))) (\<lambda>(raws, next_link).
     io_bind (io_res (graph_summaries X {} raws)) (\<lambda>summaries.
     io_ret \<lparr>sr_threads = summaries, sr_next_cursor = next_link\<rparr>))"

definition m365_get_thread :: "crates \<Rightarrow> env \<Rightarrow> AuthClient \<Rightarrow> string \<Rightarrow> ThreadId \<Rightarrow> (net, Thread) io" where
  "m365_get_thread X E c base i =
     io_bind (checked_json X ''ListResponse'' (de_list_response de_graph_message) (client_get X E c
       (base @ ''/me/messages?$filter=conversationId eq '' @ [CHR 0x27] @ pct_encode X (thread_id_str i) @
        [CHR 0x27] @ ''&$orderby=receivedDateTime asc&$top=200''))) (\<lambda>(raws, next_link).
     io_bind (io_res (collect_res (graph_decode X) raws)) (\<lambda>ms.
     io_ret \<lparr>t_id = i, t_subject = (case ms of [] \<Rightarrow> [] | m # _ \<Rightarrow> m_subject m), t_messages = ms\<rparr>))"

definition m365_get_message :: "crates \<Rightarrow> env \<Rightarrow> AuthClient \<Rightarrow> string \<Rightarrow> MessageId \<Rightarrow> (net, Message) io" where
  "m365_get_message X E c base i =
     io_bind (checked_json X ''RawMessage'' de_graph_message
       (client_get X E c (base @ ''/me/messages/'' @ message_id_str i))) (\<lambda>raw. io_res (graph_decode X raw))"

section \<open>Folders and labels\<close>

definition WELL_KNOWN_FOLDERS :: "string list" where
  "WELL_KNOWN_FOLDERS = [''inbox'', ''sentitems'', ''deleteditems'', ''drafts'', ''junkemail'', ''archive'']"

text \<open>A folder is its display name and well-known name, a category its id and display name.\<close>

definition de_graph_folder :: "json \<Rightarrow> (string \<times> string option) option" where
  "de_graph_folder = de_struct 0 [''displayName'', ''wellKnownName''] (\<lambda>v.
     Option.bind (de_default [] as_str ''displayName'' v) (\<lambda>d.
     Option.bind (de_option as_str ''wellKnownName'' v) (\<lambda>k. Some (d, k))))"

definition de_graph_category :: "json \<Rightarrow> (string \<times> string) option" where
  "de_graph_category = de_struct 0 [''id'', ''displayName''] (\<lambda>v.
     Option.bind (de_default [] as_str ''id'' v) (\<lambda>i.
     Option.bind (de_default [] as_str ''displayName'' v) (\<lambda>d. Some (i, d))))"

definition de_value_list :: "(json \<Rightarrow> 'a option) \<Rightarrow> json \<Rightarrow> 'a list option" where
  "de_value_list f = de_struct 1 [''value''] (de_required (de_vec f) ''value'')"

definition graph_folder :: "string \<times> string option \<Rightarrow> Folder option" where
  "graph_folder = (\<lambda>(display_name, well_known). Option.bind well_known (\<lambda>wkn.
     if wkn \<notin> set WELL_KNOWN_FOLDERS then None
     else Some \<lparr>f_id = FolderId wkn, f_name = display_name, f_system = True\<rparr>))"

definition m365_list_folders :: "crates \<Rightarrow> env \<Rightarrow> AuthClient \<Rightarrow> string \<Rightarrow> (net, Folder list) io" where
  "m365_list_folders X E c base =
     io_bind (checked_json X ''ListResponse'' (de_value_list de_graph_folder)
       (client_get X E c (base @ ''/me/mailFolders?$top=100''))) (\<lambda>fs.
     io_ret (List.map_filter graph_folder fs))"

definition m365_list_labels :: "crates \<Rightarrow> env \<Rightarrow> AuthClient \<Rightarrow> string \<Rightarrow> (net, Label list) io" where
  "m365_list_labels X E c base =
     io_bind (checked_json X ''ListResponse'' (de_value_list de_graph_category)
       (client_get X E c (base @ ''/me/outlook/masterCategories''))) (\<lambda>cs.
     io_ret (map (\<lambda>(i, d). \<lparr>l_id = LabelId i, l_name = d, l_system = False\<rparr>) cs))"

section \<open>Triage\<close>

definition ARCHIVE_FOLDER :: string where
  "ARCHIVE_FOLDER = ''archive''"

definition TRASH_FOLDER :: string where
  "TRASH_FOLDER = ''deleteditems''"

definition INBOX_FOLDER :: string where
  "INBOX_FOLDER = ''inbox''"

definition patch_one :: "crates \<Rightarrow> env \<Rightarrow> AuthClient \<Rightarrow> string \<Rightarrow> MessageId \<Rightarrow> json \<Rightarrow> (net, unit) io" where
  "patch_one X E c base i body = checked (patch_json X E c (base @ ''/me/messages/'' @ message_id_str i) body)"

definition move_url :: "string \<Rightarrow> MessageId \<Rightarrow> string" where
  "move_url base i = base @ ''/me/messages/'' @ message_id_str i @ ''/move''"

definition move_one :: "crates \<Rightarrow> env \<Rightarrow> AuthClient \<Rightarrow> string \<Rightarrow> string \<Rightarrow> MessageId \<Rightarrow> (net, unit) io" where
  "move_one X E c base dest i =
     checked (post_json X E c (move_url base i) (JObject [(''destinationId'', JString dest)]))"

definition m365_mark_read :: "crates \<Rightarrow> env \<Rightarrow> AuthClient \<Rightarrow> string \<Rightarrow> MessageId list \<Rightarrow> bool \<Rightarrow> (net, unit) io" where
  "m365_mark_read X E c base ids read =
     io_for (\<lambda>i. patch_one X E c base i (JObject [(''isRead'', JBool read)])) ids"

definition m365_star :: "crates \<Rightarrow> env \<Rightarrow> AuthClient \<Rightarrow> string \<Rightarrow> MessageId list \<Rightarrow> bool \<Rightarrow> (net, unit) io" where
  "m365_star X E c base ids starred =
     io_for (\<lambda>i. patch_one X E c base i (JObject [(''flag'', JObject [(''flagStatus'',
       JString (if starred then ''flagged'' else ''notFlagged''))])])) ids"

definition existing_categories :: "json \<Rightarrow> string list" where
  "existing_categories v = (case get_array ''categories'' v of
      Some vs \<Rightarrow> List.map_filter as_str vs | None \<Rightarrow> [])"

definition next_categories :: "string \<Rightarrow> bool \<Rightarrow> string list \<Rightarrow> string list" where
  "next_categories target on existing =
     filter (\<lambda>c. c \<noteq> target) existing @ (if on then [target] else [])"

definition label_one :: "crates \<Rightarrow> env \<Rightarrow> AuthClient \<Rightarrow> string \<Rightarrow> LabelId \<Rightarrow> bool \<Rightarrow> MessageId \<Rightarrow> (net, unit) io" where
  "label_one X E c base l on i =
     io_bind (checked_json X ''Value'' Some (client_get X E c
       (base @ ''/me/messages/'' @ message_id_str i @ ''?$select=categories''))) (\<lambda>resp.
     patch_one X E c base i (JObject [(''categories'',
       JArray (map JString (next_categories (label_id_str l) on (existing_categories resp))))]))"

definition m365_label :: "crates \<Rightarrow> env \<Rightarrow> AuthClient \<Rightarrow> string \<Rightarrow> MessageId list \<Rightarrow> LabelId \<Rightarrow> bool \<Rightarrow> (net, unit) io" where
  "m365_label X E c base ids l on = io_for (label_one X E c base l on) ids"

definition m365_move_to :: "crates \<Rightarrow> env \<Rightarrow> AuthClient \<Rightarrow> string \<Rightarrow> MessageId list \<Rightarrow> FolderId \<Rightarrow> (net, unit) io" where
  "m365_move_to X E c base ids f = io_for (move_one X E c base (folder_id_str f)) ids"

definition m365_archive :: "crates \<Rightarrow> env \<Rightarrow> AuthClient \<Rightarrow> string \<Rightarrow> MessageId list \<Rightarrow> (net, unit) io" where
  "m365_archive X E c base ids = io_for (move_one X E c base ARCHIVE_FOLDER) ids"

definition m365_trash :: "crates \<Rightarrow> env \<Rightarrow> AuthClient \<Rightarrow> string \<Rightarrow> MessageId list \<Rightarrow> (net, unit) io" where
  "m365_trash X E c base ids = io_for (move_one X E c base TRASH_FOLDER) ids"

definition m365_untrash :: "crates \<Rightarrow> env \<Rightarrow> AuthClient \<Rightarrow> string \<Rightarrow> MessageId list \<Rightarrow> (net, unit) io" where
  "m365_untrash X E c base ids = io_for (move_one X E c base INBOX_FOLDER) ids"

section \<open>Compose\<close>

record DraftListItem =
  dli_id :: string
  dli_subject :: "string option"
  dli_body_preview :: "string option"
  dli_created_date_time :: "string option"
  dli_is_draft :: bool

definition de_created_message :: "json \<Rightarrow> string option" where
  "de_created_message = de_struct 1 [''id''] (de_required as_str ''id'')"

definition de_draft_list_item :: "json \<Rightarrow> DraftListItem option" where
  "de_draft_list_item = de_struct 1 [''id'', ''subject'', ''bodyPreview'', ''createdDateTime'', ''isDraft''] (\<lambda>v.
     Option.bind (de_required as_str ''id'' v) (\<lambda>i.
     Option.bind (de_option as_str ''subject'' v) (\<lambda>s.
     Option.bind (de_option as_str ''bodyPreview'' v) (\<lambda>p.
     Option.bind (de_option as_str ''createdDateTime'' v) (\<lambda>d.
     Option.bind (de_default False as_bool ''isDraft'' v) (\<lambda>b.
     Some \<lparr>dli_id = i, dli_subject = s, dli_body_preview = p, dli_created_date_time = d, dli_is_draft = b\<rparr>))))))"

definition graph_recipient_json :: "EmailAddress \<Rightarrow> json" where
  "graph_recipient_json a = JObject [(''emailAddress'',
     JObject ([(''address'', JString (ea_email a))] @ skip_none ''name'' JString (ea_name a)))]"

definition recipients :: "EmailAddress list \<Rightarrow> json" where
  "recipients xs = JArray (map graph_recipient_json xs)"

definition message_body :: "DraftInput \<Rightarrow> json" where
  "message_body d =
     (let (content_type, content) = (case (di_body_html d, di_body_text d) of
            (Some html, _) \<Rightarrow> (''html'', html)
          | (None, Some text) \<Rightarrow> (''text'', text)
          | (None, None) \<Rightarrow> (''text'', []))
      in JObject
        [(''subject'', JString (di_subject d)),
         (''body'', JObject [(''contentType'', JString content_type), (''content'', JString content)]),
         (''toRecipients'', recipients (di_to d)),
         (''ccRecipients'', recipients (di_cc d)),
         (''bccRecipients'', recipients (di_bcc d))])"

definition m365_create_draft :: "crates \<Rightarrow> env \<Rightarrow> AuthClient \<Rightarrow> string \<Rightarrow> DraftInput \<Rightarrow> (net, DraftId) io" where
  "m365_create_draft X E c base d =
     io_bind (checked_json X ''CreatedMessage'' de_created_message
       (post_json X E c (base @ ''/me/messages'') (message_body d))) (\<lambda>i. io_ret (DraftId i))"

definition m365_update_draft :: "crates \<Rightarrow> env \<Rightarrow> AuthClient \<Rightarrow> string \<Rightarrow> DraftId \<Rightarrow> DraftInput \<Rightarrow> (net, unit) io" where
  "m365_update_draft X E c base i d =
     checked (patch_json X E c (base @ ''/me/messages/'' @ draft_id_str i) (message_body d))"

definition graph_draft_summary :: "crates \<Rightarrow> env \<Rightarrow> DraftListItem \<Rightarrow> (net, DraftSummary) io" where
  "graph_draft_summary X E d =
     io_bind (case Option.bind (dli_created_date_time d) (parse_rfc3339 X) of
        Some t \<Rightarrow> io_ret t | None \<Rightarrow> clock_now E) (\<lambda>date.
     io_ret \<lparr>ds_id = DraftId (dli_id d), ds_message_id = MessageId (dli_id d),
       ds_subject = unwrap_or [] (dli_subject d), ds_snippet = unwrap_or [] (dli_body_preview d),
       ds_date = date\<rparr>)"

definition m365_list_drafts :: "crates \<Rightarrow> env \<Rightarrow> AuthClient \<Rightarrow> string \<Rightarrow> (net, DraftSummary list) io" where
  "m365_list_drafts X E c base =
     io_bind (checked_json X ''DraftListResponse'' (de_value_list de_draft_list_item) (client_get X E c
       (base @ ''/me/mailFolders/Drafts/messages?$top=50&$orderby=createdDateTime desc''))) (\<lambda>items.
     io_map (graph_draft_summary X E) (filter dli_is_draft items))"

definition send_url :: "string \<Rightarrow> DraftId \<Rightarrow> string" where
  "send_url base i = base @ ''/me/messages/'' @ draft_id_str i @ ''/send''"

definition m365_send_draft :: "crates \<Rightarrow> env \<Rightarrow> AuthClient \<Rightarrow> string \<Rightarrow> DraftId \<Rightarrow> (net, MessageId) io" where
  "m365_send_draft X E c base i =
     io_bind (checked (post_json X E c (send_url base i) (JObject []))) (\<lambda>_.
     io_ret (MessageId (draft_id_str i)))"

definition m365_send_message :: "crates \<Rightarrow> env \<Rightarrow> AuthClient \<Rightarrow> string \<Rightarrow> OutgoingMessage \<Rightarrow> (net, MessageId) io" where
  "m365_send_message X E c base m =
     io_bind (m365_create_draft X E c base (draft_of_outgoing m)) (m365_send_draft X E c base)"

section \<open>The provider\<close>

definition GRAPH_BASE :: string where
  "GRAPH_BASE = ''https://graph.microsoft.com/v1.0''"

definition m365_provider :: "crates \<Rightarrow> env \<Rightarrow> AuthClient \<Rightarrow> string \<Rightarrow> net MailProvider" where
  "m365_provider X E c base = \<lparr>
     p_search = m365_search X E c base,
     p_get_thread = m365_get_thread X E c base,
     p_get_message = m365_get_message X E c base,
     p_list_folders = m365_list_folders X E c base,
     p_list_labels = m365_list_labels X E c base,
     p_list_drafts = m365_list_drafts X E c base,
     p_mark_read = m365_mark_read X E c base,
     p_star = m365_star X E c base,
     p_label = m365_label X E c base,
     p_move_to = m365_move_to X E c base,
     p_archive = m365_archive X E c base,
     p_trash = m365_trash X E c base,
     p_untrash = m365_untrash X E c base,
     p_create_draft = m365_create_draft X E c base,
     p_update_draft = m365_update_draft X E c base,
     p_send_message = m365_send_message X E c base,
     p_send_draft = m365_send_draft X E c base\<rparr>"

definition m365_provider_new :: "crates \<Rightarrow> env \<Rightarrow> AuthClient \<Rightarrow> net MailProvider" where
  "m365_provider_new X E c = m365_provider X E c GRAPH_BASE"

section \<open>The contract\<close>

lemma graph_decode_no_panic [simp]: "\<not> is_panic (graph_decode X raw)"
  by (simp add: graph_decode_def)

lemma graph_summaries_no_panic [simp]: "\<not> is_panic (graph_summaries X seen raws)"
  by (induction X seen raws rule: graph_summaries.induct) auto

lemma graph_draft_summary_safe: "safe b (extends w0) (graph_draft_summary X E d)"
  unfolding graph_draft_summary_def
  by (intro safe_bind safe_ret) (split option.split, intro conjI allI impI clock_now_safe safe_ret)

lemma patch_one_safe: "safe (calm X E) (extends w0) (patch_one X E (daemon_client X E cfg cell i) base m body)"
  unfolding patch_one_def by (intro checked_safe daemon_client_safe)

lemma move_one_safe: "safe (calm X E) (extends w0) (move_one X E (daemon_client X E cfg cell i) base dest m)"
  unfolding move_one_def by (intro checked_safe daemon_client_safe)

lemma label_one_safe: "safe (calm X E) (extends w0) (label_one X E (daemon_client X E cfg cell i) base l on m)"
  unfolding label_one_def by (intro safe_bind checked_json_safe daemon_client_safe patch_one_safe)

lemma m365_create_draft_safe:
  "safe (calm X E) (extends w0) (m365_create_draft X E (daemon_client X E cfg cell i) base d)"
  unfolding m365_create_draft_def by (intro safe_bind safe_ret checked_json_safe daemon_client_safe)

lemma m365_send_draft_safe:
  "safe (calm X E) (extends w0) (m365_send_draft X E (daemon_client X E cfg cell i) base d)"
  unfolding m365_send_draft_def by (intro safe_bind safe_ret checked_safe daemon_client_safe)

lemma m365_search_safe:
  "safe (calm X E) (extends w0) (m365_search X E (daemon_client X E cfg cell i) base q)"
  unfolding m365_search_def split_beta
  by (intro safe_bind safe_ret safe_res checked_json_safe daemon_client_safe) simp

lemma m365_get_thread_safe:
  "safe (calm X E) (extends w0) (m365_get_thread X E (daemon_client X E cfg cell i) base t)"
  unfolding m365_get_thread_def split_beta
  by (intro safe_bind safe_ret safe_res checked_json_safe daemon_client_safe) (simp add: collect_res_no_panic)

interpretation m365: mail_provider "m365_provider X E (daemon_client X E cfg cell i) base" "extends w0" "calm X E"
  by unfold_locales
    (simp_all add: m365_provider_def m365_search_safe m365_get_thread_safe m365_create_draft_safe m365_send_draft_safe
      m365_get_message_def m365_list_folders_def m365_list_labels_def m365_list_drafts_def m365_mark_read_def
      m365_star_def m365_label_def m365_move_to_def m365_archive_def m365_trash_def m365_untrash_def
      m365_update_draft_def m365_send_message_def,
      (intro conjI impI safe_bind safe_map safe_for safe_ret safe_res checked_json_safe checked_safe graph_draft_summary_safe
        patch_one_safe move_one_safe label_one_safe m365_create_draft_safe m365_send_draft_safe
        daemon_client_safe; simp)+)

section \<open>Lemmas for the properties\<close>

lemma graph_decode_Ok_ids:
  "graph_decode X raw = Ok m \<Longrightarrow> m_id m = MessageId (gm_id raw) \<and> m_thread_id m = ThreadId (gm_conversation_id raw)"
  by (auto simp: graph_decode_def res_bind_Ok_iff)

lemma list_all2_member2: "list_all2 P xs ys \<Longrightarrow> y \<in> set ys \<Longrightarrow> \<exists>x \<in> set xs. P x y"
  by (induction rule: list_all2_induct) auto

text \<open>The first message of each conversation, in the order of the results.\<close>

fun firsts :: "string set \<Rightarrow> GraphMessage list \<Rightarrow> GraphMessage list" where
  "firsts seen [] = []"
| "firsts seen (raw # raws) =
     (if gm_conversation_id raw \<in> seen then firsts seen raws
      else raw # firsts (insert (gm_conversation_id raw) seen) raws)"

lemma graph_summaries_firsts:
  "graph_summaries X seen raws = res_bind (collect_res (graph_decode X) (firsts seen raws)) (\<lambda>ms. Ok (map graph_summary ms))"
proof (induction X seen raws rule: graph_summaries.induct)
  case (2 X seen raw raws)
  then show ?case
    by (cases "graph_decode X raw"; cases "collect_res (graph_decode X) (firsts (insert (gm_conversation_id raw) seen) raws)") simp_all
qed simp

lemma firsts_set: "gm_conversation_id ` set (firsts seen raws) = gm_conversation_id ` set raws - seen"
  by (induction seen raws rule: firsts.induct) auto

lemma firsts_distinct: "distinct (map gm_conversation_id (firsts seen raws))"
proof (induction seen raws rule: firsts.induct)
  case (2 seen raw raws)
  then show ?case using firsts_set [of "insert (gm_conversation_id raw) seen" raws] by auto
qed simp

lemma firsts_find:
  "raw \<in> set (firsts seen raws) \<Longrightarrow> find (\<lambda>r. gm_conversation_id r = gm_conversation_id raw) raws = Some raw"
proof (induction seen raws rule: firsts.induct)
  case (2 seen r raws)
  have "gm_conversation_id raw \<noteq> gm_conversation_id r" if "raw \<in> set (firsts (insert (gm_conversation_id r) seen) raws)"
    using firsts_set [of "insert (gm_conversation_id r) seen" raws] that by blast
  moreover have "gm_conversation_id raw \<noteq> gm_conversation_id r"
    if "raw \<in> set (firsts seen raws)" "gm_conversation_id r \<in> seen"
    using firsts_set [of seen raws] that by (metis Diff_iff image_eqI)
  ultimately show ?case using 2 by (auto split: if_splits)
qed simp

lemma decoded_threads:
  "collect_res (graph_decode X) raws = Ok ms \<Longrightarrow>
     map (\<lambda>m. ts_id (graph_summary m)) ms = map (\<lambda>r. ThreadId (gm_conversation_id r)) raws"
  by (induction raws arbitrary: ms) (auto simp: res_bind_Ok_iff graph_summary_def dest: graph_decode_Ok_ids)

text \<open>A call whose first part has logged an event keeps it whatever follows.\<close>

lemma extends_bind:
  assumes "extends w1 (snd (m w))" and "\<And>a. safe b (extends w1) (f a)"
  shows "extends w1 (snd (io_bind m f w))"
  using assms safeD(1) by (fastforce simp: io_bind_def split: prod.splits res.splits)

lemma auth_send_first:
  assumes "env_now E (net_history w) < tk_expires_at (net_tokens w cell)"
  shows "extends (log_event (Http_Request (rq\<lparr>rq_bearer := Some (tk_access_token (net_tokens w cell))\<rparr>)) (log_event Clock_Read w))
    (snd (auth_send X E (daemon_client X E cfg cell i) rq w))" (is "extends ?w1 _")
proof -
  let ?c = "daemon_client X E cfg cell i"
  let ?k = "\<lambda>resp. if rs_status resp = 401 then io_bind (expire_now E ?c) (\<lambda>_.
      io_bind (ensure_fresh X E ?c) (\<lambda>_. send_once E ?c rq)) else io_ret resp"
  have f: "ensure_fresh X E ?c w = (Ok (), log_event Clock_Read w)"
    using assms by (simp add: ensure_fresh_def clock_now_def io_bind_def tokens_of_def)
  have "snd (send_once E ?c rq (log_event Clock_Read w)) = ?w1"
    by (simp add: send_once_def access_token_def http_send_def io_bind_def tokens_of_def)
  moreover have "safe (calm X E) (extends ?w1) (?k resp)" for resp
    by (intro safe_if safe_bind safe_ret ensure_fresh_safe daemon_callback_extends send_once_safe expire_now_safe)
  ultimately have "extends ?w1 (snd (io_bind (send_once E ?c rq) ?k (log_event Clock_Read w)))"
    by (intro extends_bind [where b = "calm X E"]) (simp, assumption)
  then show ?thesis by (simp add: auth_send_def f)
qed

lemma to_email_address_json:
  assumes "ea_name a \<noteq> Some []"
  shows "\<exists>r. de_graph_recipient (graph_recipient_json a) = Some r \<and> to_email_address r = Some a"
proof -
  obtain e n where "a = \<lparr>ea_email = e, ea_name = n\<rparr>" by (cases a)
  with assms show ?thesis
    by (cases n) (simp_all add: de_graph_recipient_def graph_recipient_json_def de_graph_address_def
        skip_none_def de_defs to_email_address_def)
qed

section \<open>Properties\<close>

text \<open>
  A search lists every conversation among the results exactly once, and each is summarised by
  its first message in the order of the results, which is the newest one as Graph sorts them.
\<close>

lemma search_lists_each_conversation_once:
  assumes "graph_summaries X {} raws = Ok ss"
  shows "distinct (map ts_id ss) \<and>
    ts_id ` set ss = (\<lambda>r. ThreadId (gm_conversation_id r)) ` set raws \<and>
    (\<forall>s \<in> set ss. \<exists>r m. find (\<lambda>x. ThreadId (gm_conversation_id x) = ts_id s) raws = Some r \<and>
       graph_decode X r = Ok m \<and> s = graph_summary m)"
proof -
  let ?f = "firsts {} raws"
  obtain ms where ms: "collect_res (graph_decode X) ?f = Ok ms" "ss = map graph_summary ms"
    using assms by (auto simp: graph_summaries_firsts res_bind_Ok_iff)
  have ids: "map ts_id ss = map (\<lambda>r. ThreadId (gm_conversation_id r)) ?f"
    using decoded_threads [OF ms(1)] ms(2) by (simp add: comp_def)
  then have "distinct (map ts_id ss)"
    using firsts_distinct [of "{}" raws] by (simp add: distinct_map inj_on_def)
  moreover have "ts_id ` set ss = (\<lambda>r. ThreadId (gm_conversation_id r)) ` set raws"
  proof -
    have "ts_id ` set ss = ThreadId ` gm_conversation_id ` set ?f"
      using arg_cong [OF ids, of set] by (simp add: image_image)
    then show ?thesis using firsts_set [of "{}" raws] by (simp add: image_image)
  qed
  moreover have "\<exists>r m. find (\<lambda>x. ThreadId (gm_conversation_id x) = ts_id s) raws = Some r \<and>
      graph_decode X r = Ok m \<and> s = graph_summary m" if s: "s \<in> set ss" for s
  proof -
    obtain m where m: "m \<in> set ms" "s = graph_summary m" using s ms(2) by auto
    obtain r where r: "r \<in> set ?f" "graph_decode X r = Ok m"
      using list_all2_member2 [OF collect_res_Ok_D [OF ms(1)] m(1)] by blast
    have "ts_id s = ThreadId (gm_conversation_id r)"
      using graph_decode_Ok_ids [OF r(2)] by (simp add: m(2) graph_summary_def)
    then show ?thesis using firsts_find [OF r(1)] r(2) m(2) by auto
  qed
  ultimately show ?thesis by blast
qed

definition demo_graph :: "string \<Rightarrow> string \<Rightarrow> GraphMessage" where
  "demo_graph i conv = \<lparr>gm_id = i, gm_conversation_id = conv, gm_subject = None, gm_body_preview = None,
     gm_from = None, gm_to_recipients = [], gm_cc_recipients = [], gm_bcc_recipients = [], gm_categories = [],
     gm_is_read = False, gm_flag = None, gm_is_draft = False, gm_parent_folder_id = None,
     gm_received_date_time = Some ''2026-05-01T12:00:00Z'', gm_body = None\<rparr>"

lemma demo_summaries:
  "graph_summaries (sample_crates []) {} [demo_graph ''m1'' ''c1'', demo_graph ''m2'' ''c2'', demo_graph ''m3'' ''c1''] =
     Ok (map graph_summary (map (\<lambda>(i, c). \<lparr>m_id = MessageId i, m_thread_id = ThreadId c, m_from = None, m_to = [], m_cc = [],
       m_bcc = [], m_subject = [], m_date = 1777636800, m_body_text = None, m_body_html = None, m_labels = [],
       m_folder = None, m_flags = \<lparr>mf_read = False, mf_starred = False, mf_draft = False\<rparr>, m_attachments = [],
       m_snippet = []\<rparr>) [(''m1'', ''c1''), (''m2'', ''c2'')]))"
  by (simp add: graph_decode_def demo_graph_def sample_crates_def graph_bodies_def map_filter_simps)

lemma search_lists_each_conversation_once_example:
  "\<exists>ss. graph_summaries (sample_crates []) {} [demo_graph ''m1'' ''c1'', demo_graph ''m2'' ''c2'', demo_graph ''m3'' ''c1''] = Ok ss \<and>
     distinct (map ts_id ss) \<and> ts_id ` set ss = {ThreadId ''c1'', ThreadId ''c2''}"
  using search_lists_each_conversation_once [OF demo_summaries] demo_summaries
  by (auto simp: demo_graph_def)

text \<open>
  The paging cursor is a capability of the caller: a search whose cursor starts with
  \<open>http://\<close> or \<open>https://\<close> sends the access token of the account to that URL, whatever host it names
  and whatever the rest of the query says.
\<close>

lemma cursor_receives_access_token:
  assumes "q_cursor q = Some cur" and "qualified_url cur"
    and "env_now E (net_history w) < tk_expires_at (net_tokens w cell)"
  shows "prefix (net_history w @ [Clock_Read, Http_Request \<lparr>rq_method = GET, rq_url = cur,
      rq_bearer = Some (tk_access_token (net_tokens w cell)), rq_body = NoBody\<rparr>])
    (net_history (snd (p_search (m365_provider_new X E (daemon_client X E cfg cell i)) q w)))"
proof -
  let ?c = "daemon_client X E cfg cell i"
  let ?rq = "\<lparr>rq_method = GET, rq_url = cur, rq_bearer = None, rq_body = NoBody\<rparr>"
  let ?w1 = "log_event (Http_Request (?rq\<lparr>rq_bearer := Some (tk_access_token (net_tokens w cell))\<rparr>)) (log_event Clock_Read w)"
  have url: "build_search_url X base q = cur" for base
    using assms(1,2) by (simp add: build_search_url_def Let_def)
  have "extends ?w1 (snd (client_get X E ?c cur w))"
    unfolding client_get_def by (rule auth_send_first [OF assms(3)])
  then have "extends ?w1 (snd (m365_search X E ?c GRAPH_BASE q w))"
    unfolding m365_search_def checked_json_def url split_beta
    by (intro extends_bind safe_bind safe_res safe_ret) simp_all
  then show ?thesis
    by (simp add: extends_def m365_provider_new_def m365_provider_def)
qed

definition evil_query :: SearchQuery where
  "evil_query = search_query_default\<lparr>q_cursor := Some ''http://evil.example/x''\<rparr>"

lemma cursor_receives_access_token_example:
  "prefix [Clock_Read, Http_Request \<lparr>rq_method = GET, rq_url = ''http://evil.example/x'',
      rq_bearer = Some ''AT-OLD'', rq_body = NoBody\<rparr>]
    (net_history (snd (p_search (m365_provider_new (sample_crates []) demo_env
      (daemon_client (sample_crates []) demo_env demo_cfg 0 (AccountId 1))) evil_query demo_net)))"
  using cursor_receives_access_token [of evil_query "''http://evil.example/x''" demo_env demo_net 0 "sample_crates []" demo_cfg "AccountId 1"]
  by (simp add: evil_query_def search_query_default_def qualified_url_def demo_env_def demo_net_def empty_net_def)

text \<open>
  Message identifiers go into the URL as they come. Moving the message \<open>d/send?\<close>, a call of the
  modify category that is allowed by default, posts to the path that sends the draft \<open>d\<close>: an
  operation of the send category, which is not allowed by default.
\<close>

lemma move_tool_reaches_send_endpoint:
  assumes "CHR ''?'' \<notin> set base" and "CHR ''?'' \<notin> set d"
  shows "url_path (move_url base (MessageId (d @ ''/send?''))) = send_url base (DraftId d) \<and>
    tool_category tool_move_to = Modify \<and> default_policy Modify = Allow \<and>
    tool_category tool_send_draft = Send \<and> default_policy Send \<noteq> Allow"
proof -
  have "url_path ((base @ ''/me/messages/'' @ d @ ''/send'') @ CHR ''?'' # ''/move'') = base @ ''/me/messages/'' @ d @ ''/send''"
    unfolding url_path_def using assms by (intro takeWhile_until) auto
  then show ?thesis by (simp add: move_url_def send_url_def)
qed

lemma move_tool_reaches_send_endpoint_example:
  "url_path (move_url GRAPH_BASE (MessageId ''d1/send?'')) = send_url GRAPH_BASE (DraftId ''d1'')"
  using move_tool_reaches_send_endpoint [of GRAPH_BASE "''d1''"] by (simp add: GRAPH_BASE_def)

text \<open>
  Switching one category on or off is a set update that leaves the other categories as they
  are, in their order and with their multiplicity, and doing it twice changes nothing more.
\<close>

lemma label_toggle_is_set_update:
  "set (next_categories l on cs) = (if on then insert l (set cs) else set cs - {l}) \<and>
   filter (\<lambda>c. c \<noteq> l) (next_categories l on cs) = filter (\<lambda>c. c \<noteq> l) cs \<and>
   next_categories l on (next_categories l b cs) = next_categories l on cs \<and>
   count_list (next_categories l on cs) l = of_bool on"
  by (auto simp: next_categories_def)

text \<open>
  Recipients survive the trip through Graph: the recipient lists of a draft, read back by the
  message decoder, are the addresses of the draft, as long as no address has the empty name.
\<close>

lemma recipients_round_trip:
  assumes "\<forall>a \<in> set addresses. ea_name a \<noteq> Some []"
  shows "\<exists>rs. de_vec de_graph_recipient (recipients addresses) = Some rs \<and>
    List.map_filter to_email_address rs = addresses"
proof -
  from assms have "\<exists>rs. those (map de_graph_recipient (map graph_recipient_json addresses)) = Some rs \<and>
      List.map_filter to_email_address rs = addresses"
  proof (induction addresses)
    case Nil
    then show ?case by (simp add: map_filter_simps)
  next
    case (Cons a as)
    obtain r where r: "de_graph_recipient (graph_recipient_json a) = Some r" "to_email_address r = Some a"
      using to_email_address_json Cons.prems by fastforce
    obtain rs where "those (map de_graph_recipient (map graph_recipient_json as)) = Some rs"
        "List.map_filter to_email_address rs = as"
      using Cons by fastforce
    with r show ?case by (intro exI [of _ "r # rs"]) (simp add: map_filter_simps)
  qed
  then show ?thesis by (simp add: recipients_def)
qed

lemma recipients_round_trip_example:
  "\<exists>rs. de_vec de_graph_recipient (recipients [\<lparr>ea_email = ''a@x'', ea_name = Some ''Alice''\<rparr>]) = Some rs \<and>
    List.map_filter to_email_address rs = [\<lparr>ea_email = ''a@x'', ea_name = Some ''Alice''\<rparr>]"
  using recipients_round_trip [of "[\<lparr>ea_email = ''a@x'', ea_name = Some ''Alice''\<rparr>]"] by simp

text \<open>
  The Graph provider meets the contract of dispatch: for every operation, every environment and
  every argument, the history of the world only grows, and no operation panics as long as token
  endpoints announce lifetimes in the range of the time library.
\<close>

lemma m365_provider_meets_contract:
  "mail_provider (m365_provider_new X E (daemon_client X E cfg cell i)) (extends w0) (calm X E)"
  unfolding m365_provider_new_def by (rule m365.mail_provider_axioms)

end
