(* ===== verification/Wire.thy ===== *)
theory Wire
  imports Daemon_Props M365
begin

text \<open>
  What reaches the mail services: the requests with a token that the two providers send, seen from
  the tool call that causes them. Every tool sends only requests of its own category, a send under
  the draftify policy only writes a draft, and a batch goes message by message.
\<close>

section \<open>Requests of an operation\<close>

text \<open>Since the history \<open>h\<close>, only requests that satisfy \<open>P\<close> were sent with a token.\<close>

definition sends :: "(http_request \<Rightarrow> bool) \<Rightarrow> http_request list \<Rightarrow> net \<Rightarrow> bool" where
  "sends P h w \<longleftrightarrow> (\<exists>sent. bearer_requests (net_history w) = h @ sent \<and> list_all P sent)"

lemma sends_refl: "sends P (bearer_requests (net_history w)) w"
  by (simp add: sends_def)

lemma sends_mono: "sends P h w \<Longrightarrow> (\<And>q. P q \<Longrightarrow> Q q) \<Longrightarrow> sends Q h w"
  by (auto simp: sends_def list_all_iff)

lemma auth_send_sends:
  assumes "\<And>t. P (rq\<lparr>rq_bearer := Some t\<rparr>)"
  shows "keeps (sends P h) (auth_send X E (daemon_client X E cfg cell i) rq)"
  unfolding keeps_def
proof (intro allI impI)
  fix w assume "sends P h w"
  then obtain s0 where s0: "bearer_requests (net_history w) = h @ s0" "list_all P s0" by (auto simp: sends_def)
  obtain r w' where a: "auth_send X E (daemon_client X E cfg cell i) rq w = (r, w')" by fastforce
  from auth_send_requests [OF a] obtain sent where s: "bearer_requests (net_history w') = bearer_requests (net_history w) @ sent"
    "\<forall>q \<in> set sent. \<exists>t. q = rq\<lparr>rq_bearer := Some t\<rparr>" by blast
  with assms have "list_all P sent" by (auto simp: list_all_iff)
  with s0 s(1) show "sends P h (snd (auth_send X E (daemon_client X E cfg cell i) rq w))"
    unfolding a sends_def by (intro exI [of _ "s0 @ sent"]) simp
qed

lemma client_sends:
  "(\<And>t. P \<lparr>rq_method = GET, rq_url = url, rq_bearer = Some t, rq_body = NoBody\<rparr>) \<Longrightarrow>
     keeps (sends P h) (client_get X E (daemon_client X E cfg cell i) url)"
  "(\<And>t. P \<lparr>rq_method = POST, rq_url = url, rq_bearer = Some t, rq_body = JsonBody b\<rparr>) \<Longrightarrow>
     keeps (sends P h) (post_json X E (daemon_client X E cfg cell i) url b)"
  "(\<And>t. P \<lparr>rq_method = PUT, rq_url = url, rq_bearer = Some t, rq_body = JsonBody b\<rparr>) \<Longrightarrow>
     keeps (sends P h) (put_json X E (daemon_client X E cfg cell i) url b)"
  "(\<And>t. P \<lparr>rq_method = PATCH, rq_url = url, rq_bearer = Some t, rq_body = JsonBody b\<rparr>) \<Longrightarrow>
     keeps (sends P h) (patch_json X E (daemon_client X E cfg cell i) url b)"
  unfolding client_get_def post_json_def put_json_def patch_json_def by (rule auth_send_sends; simp)+

lemma checked_sends: "keeps (sends P h) m \<Longrightarrow> keeps (sends P h) (checked m)"
  unfolding checked_def by (intro keeps_bind keeps_res keeps_ret)

lemma checked_json_sends: "keeps (sends P h) m \<Longrightarrow> keeps (sends P h) (checked_json X what de m)"
  unfolding checked_json_def by (intro keeps_bind keeps_res)

lemma clock_sends: "keeps (sends P h) (clock_now E)"
  by (simp add: keeps_def clock_now_def sends_def)

lemma decode_sends: "keeps (sends P h) (decode X E raw)"
proof -
  have "keeps (sends P h) (parse_date X E d ms)" for d ms
    unfolding parse_date_def by (auto intro: clock_sends split: option.split)
  then show ?thesis unfolding decode_def Let_def by (intro keeps_bind keeps_res keeps_ret)
qed

lemma summaries_send:
  "keeps (sends P h) (draft_summary X E d)" "keeps (sends P h) (graph_draft_summary X E d')"
  unfolding draft_summary_def graph_draft_summary_def
  by (intro keeps_bind keeps_ret; split option.split; intro conjI allI impI clock_sends keeps_ret)+

lemmas sends_intros = keeps_bind keeps_res keeps_ret keeps_for keeps_map checked_sends checked_json_sends
  decode_sends summaries_send client_sends

section \<open>Providers whose requests follow the category\<close>

text \<open>The requests of a call are of the category that the outcome of enforcement selects.\<close>

definition wire_category :: "ToolSpec \<Rightarrow> EnforceOutcome \<Rightarrow> Category" where
  "wire_category tool v = (if v = ConvertToDraft then Draft else tool_category tool)"

lemma enforce_converts_sends:
  assumes "enforce wait i now perms c req s = (Ok ConvertToDraft, s')"
  shows "c = Send"
proof -
  have "fst (ask_confirm wait i now req s) \<noteq> Ok ConvertToDraft"
    by (auto simp: ask_confirm_def io_bind_def split: prod.splits res.splits ApprovalOutcome.splits)
  with assms show ?thesis
    by (auto simp: enforce_def io_bind_def split: Policy.splits if_splits prod.splits res.splits)
qed

text \<open>
  A provider whose operations send only requests allowed for their category: the contract under which
  the category of a tool, which is what policies are about, bounds what a call can do.
\<close>

locale wire_provider =
  fixes p :: "net MailProvider" and K :: "Category \<Rightarrow> http_request \<Rightarrow> bool"
  assumes sends_search: "keeps (sends (K Read) h) (p_search p q)"
    and sends_get_thread: "keeps (sends (K Read) h) (p_get_thread p tid)"
    and sends_get_message: "keeps (sends (K Read) h) (p_get_message p mid)"
    and sends_list_folders: "keeps (sends (K Read) h) (p_list_folders p)"
    and sends_list_labels: "keeps (sends (K Read) h) (p_list_labels p)"
    and sends_list_drafts: "keeps (sends (K Read) h) (p_list_drafts p)"
    and sends_mark_read: "keeps (sends (K Modify) h) (p_mark_read p ids b)"
    and sends_star: "keeps (sends (K Modify) h) (p_star p ids b)"
    and sends_label: "keeps (sends (K Modify) h) (p_label p ids lid b)"
    and sends_move_to: "keeps (sends (K Modify) h) (p_move_to p ids fid)"
    and sends_archive: "keeps (sends (K Modify) h) (p_archive p ids)"
    and sends_trash: "keeps (sends (K Trash) h) (p_trash p ids)"
    and sends_untrash: "keeps (sends (K Trash) h) (p_untrash p ids)"
    and sends_create_draft: "keeps (sends (K Draft) h) (p_create_draft p inp)"
    and sends_update_draft: "keeps (sends (K Draft) h) (p_update_draft p did inp)"
    and sends_send_message: "keeps (sends (K Send) h) (p_send_message p msg)"
    and sends_send_draft: "keeps (sends (K Send) h) (p_send_draft p did)"
begin

lemmas sends_ops = sends_search sends_get_thread sends_get_message sends_list_folders sends_list_labels
  sends_list_drafts sends_mark_read sends_star sends_label sends_move_to sends_archive sends_trash
  sends_untrash sends_create_draft sends_update_draft sends_send_message sends_send_draft

lemma execute_sends:
  assumes "tool \<in> set tools"
  shows "keeps (sends (K (tool_category tool)) h) (execute X p (tool_name tool) args)"
  using assms unfolding tools_def
  by (auto simp: execute_defs intro!: keeps_bind keeps_ret keeps_res sends_ops)

lemma convert_sends: "keeps (sends (K Draft) h) (convert_send_to_draft X p args)"
  unfolding convert_send_to_draft_def by (intro keeps_bind keeps_res keeps_ret sends_ops)

lemma finish_sends:
  assumes "tool \<in> set tools"
  shows "keeps (\<lambda>s. sends (K (wire_category tool v)) h (ctx_net s)) (finish_call X p tool args v)"
proof (cases v)
  case Proceed
  with keepsD [OF execute_sends [OF assms]] show ?thesis
    by (auto simp: finish_call_def keeps_def on_net_def wire_category_def case_prod_unfold)
next
  case ConvertToDraft
  with keepsD [OF convert_sends] show ?thesis
    by (auto simp: finish_call_def keeps_def on_net_def wire_category_def case_prod_unfold)
qed (simp add: finish_call_def keeps_res)

text \<open>
  A call on this provider, whatever the database answers and whatever the user says: its requests are
  of the category of its tool, or the send was turned into a draft.
\<close>

lemma call_sends:
  fixes wait :: "(net, 'z) DispatchContext_ext approval_wait"
  assumes tool: "tool \<in> set tools" and a: "parse_account_id X args = Ok a" "ctx_providers s a = Some p"
    and wait: "\<And>f t. ctx_net (snd (wait f t)) = ctx_net t"
  shows "\<exists>c. (c = tool_category tool \<or> tool_category tool = Send \<and> c = Draft) \<and>
    sends (K c) (bearer_requests (net_history (ctx_net s))) (ctx_net (snd (dispatch X wait i now tool args s)))"
proof (cases "ctx_mcp_paused s")
  case True
  then show ?thesis using sends_refl by (auto simp: dispatch_def)
next
  case False
  let ?e = "\<lambda>perms. enforce wait i now perms (tool_category tool) (tool_request tool a args)"
  have d: "dispatch X wait i now tool args s =
      io_bind (on_storage (for_account X a)) (\<lambda>perms. io_bind (?e perms) (finish_call X p tool args)) s"
    using False a by (simp add: dispatch_def io_bind_def registry_get_def)
  obtain r s1 where s1: "on_storage (for_account X a) s = (r, s1)" by fastforce
  then have n1: "ctx_net s1 = ctx_net s" by (auto simp: on_storage_def split: prod.splits)
  have n2: "ctx_net (snd (?e perms t)) = ctx_net t" for perms t
    using keepsD [OF enforce_keeps [where P = "\<lambda>u. ctx_net u = ctx_net t" and wait = wait]] wait
    by (simp add: keeps_def)
  show ?thesis
  proof (cases "\<exists>perms v s2. r = Ok perms \<and> ?e perms s1 = (Ok v, s2)")
    case True
    then obtain perms v s2 where v: "r = Ok perms" "?e perms s1 = (Ok v, s2)" by blast
    have "ctx_net s2 = ctx_net s" using n2 [of perms s1] v(2) n1 by simp
    moreover have "snd (dispatch X wait i now tool args s) = snd (finish_call X p tool args v s2)"
      using s1 v by (simp add: d io_bind_def)
    ultimately have "sends (K (wire_category tool v)) (bearer_requests (net_history (ctx_net s)))
        (ctx_net (snd (dispatch X wait i now tool args s)))"
      using keepsD [OF finish_sends [OF tool], where w = s2] sends_refl by simp
    moreover have "v = ConvertToDraft \<Longrightarrow> tool_category tool = Send"
      using enforce_converts_sends v(2) by blast
    ultimately show ?thesis by (cases "v = ConvertToDraft") (auto simp: wire_category_def)
  next
    case False
    then have "ctx_net (snd (dispatch X wait i now tool args s)) = ctx_net s"
      using s1 n1 n2 [of _ s1] by (auto simp: d io_bind_def split: res.split prod.splits) (metis snd_conv)+
    then show ?thesis using sends_refl by metis
  qed
qed

lemma draftified_sends:
  assumes tool: "tool \<in> set tools" and "\<not> ctx_mcp_paused s" "parse_account_id X args = Ok a" "ctx_providers s a = Some p"
    "db_wf (ctx_storage s)" "db_faults (ctx_storage s) = []"
    and "tool_category tool = Send" "policy_table X (ctx_storage s) a Send = Draftify"
  shows "sends (K Draft) (bearer_requests (net_history (ctx_net s))) (ctx_net (snd (dispatch X wait i now tool args s)))"
proof -
  have "dispatch X wait i now tool args s = finish_call X p tool args ConvertToDraft s"
    using dispatch_silent [OF assms(2-6), of tool] assms(7,8) by (simp add: needs_user_def)
  then show ?thesis
    using keepsD [OF finish_sends [OF tool, where v = ConvertToDraft], where w = s] sends_refl
    by (simp add: wire_category_def)
qed

end

section \<open>Gmail\<close>

definition gmail_wire :: "string \<Rightarrow> Category \<Rightarrow> http_request \<Rightarrow> bool" where
  "gmail_wire base c q = (let url = rq_url q; me = base @ ''/users/me'' in (case c of
      Read \<Rightarrow> rq_method q = GET \<and> prefix (me @ ''/'') url
    | Modify \<Rightarrow> rq_method q = POST \<and> prefix (me @ ''/messages/'') url \<and> suffix ''/modify'' url
    | Trash \<Rightarrow> rq_method q = POST \<and> prefix (me @ ''/messages/'') url \<and> (suffix ''/trash'' url \<or> suffix ''/untrash'' url)
    | Draft \<Rightarrow> rq_method q = POST \<and> url = me @ ''/drafts'' \<or> rq_method q = PUT \<and> prefix (me @ ''/drafts/'') url
    | Send \<Rightarrow> rq_method q = POST \<and> (url = me @ ''/messages/send'' \<or> url = me @ ''/drafts/send'')))"

lemmas url_ends = suffix_appendI suffix_ConsI

lemma modify_all_sends:
  "keeps (sends (gmail_wire base Modify) h) (modify_all X E (daemon_client X E cfg cell i) base ids req)"
proof -
  have "keeps (sends (gmail_wire base Modify) h) (modify_one X E (daemon_client X E cfg cell i) base req m)" for m
    unfolding modify_one_def
    by (intro checked_sends client_sends) (simp add: gmail_wire_def Let_def modify_url_def url_ends)
  then show ?thesis unfolding modify_all_def by (rule keeps_for)
qed

lemma trash_sends:
  "keeps (sends (gmail_wire base Trash) h) (gmail_trash X E (daemon_client X E cfg cell i) base ids)"
  "keeps (sends (gmail_wire base Trash) h) (gmail_untrash X E (daemon_client X E cfg cell i) base ids)"
  unfolding gmail_trash_def gmail_untrash_def trash_url_def
  by (intro keeps_for checked_sends client_sends, simp add: gmail_wire_def Let_def url_ends)+

lemma get_thread_sends:
  "keeps (sends (gmail_wire base Read) h) (get_thread_full X E (daemon_client X E cfg cell i) base t)"
  unfolding get_thread_full_def by (intro sends_intros) (simp add: gmail_wire_def Let_def)

interpretation gmail_on_wire: wire_provider "gmail_provider X E (daemon_client X E cfg cell i) base email" "gmail_wire base"
  by unfold_locales
    (simp_all only: gmail_provider_def MailProvider.simps gmail_search_def gmail_get_message_def gmail_list_labels_def
      gmail_list_folders_def gmail_list_drafts_def gmail_create_draft_def gmail_update_draft_def gmail_send_message_def
      gmail_send_draft_def,
      (intro sends_intros modify_all_sends trash_sends get_thread_sends; simp add: gmail_wire_def Let_def search_url_def)+)

section \<open>Microsoft Graph\<close>

text \<open>A draft is a message like any other: only the path of the last segment tells a send apart.\<close>

definition m365_wire :: "string \<Rightarrow> Category \<Rightarrow> http_request \<Rightarrow> bool" where
  "m365_wire base c q = (let url = rq_url q; me = base @ ''/me'' in (case c of
      Read \<Rightarrow> rq_method q = GET
    | Modify \<Rightarrow> prefix (me @ ''/messages/'') url \<and>
        (rq_method q = GET \<or> rq_method q = PATCH \<or> rq_method q = POST \<and> suffix ''/move'' url)
    | Trash \<Rightarrow> rq_method q = POST \<and> prefix (me @ ''/messages/'') url \<and> suffix ''/move'' url
    | Draft \<Rightarrow> rq_method q = POST \<and> url = me @ ''/messages'' \<or> rq_method q = PATCH \<and> prefix (me @ ''/messages/'') url
    | Send \<Rightarrow> rq_method q = POST \<and> (url = me @ ''/messages'' \<or> prefix (me @ ''/messages/'') url \<and> suffix ''/send'' url)))"

lemma patch_one_sends:
  "keeps (sends (m365_wire base Modify) h) (patch_one X E (daemon_client X E cfg cell i) base m b)"
  unfolding patch_one_def by (intro sends_intros) (simp add: m365_wire_def Let_def)

lemma move_one_sends:
  "keeps (sends (m365_wire base Modify) h) (move_one X E (daemon_client X E cfg cell i) base dest m)"
  "keeps (sends (m365_wire base Trash) h) (move_one X E (daemon_client X E cfg cell i) base dest m)"
  unfolding move_one_def move_url_def
  by (intro sends_intros, simp add: m365_wire_def Let_def url_ends)+

lemma label_one_sends:
  "keeps (sends (m365_wire base Modify) h) (label_one X E (daemon_client X E cfg cell i) base l on m)"
  unfolding label_one_def by (intro sends_intros patch_one_sends) (simp add: m365_wire_def Let_def)

lemma send_draft_sends:
  "keeps (sends (m365_wire base Send) h) (m365_send_draft X E (daemon_client X E cfg cell i) base d)"
  unfolding m365_send_draft_def send_url_def
  by (intro sends_intros) (simp add: m365_wire_def Let_def url_ends)

interpretation m365_on_wire: wire_provider "m365_provider X E (daemon_client X E cfg cell i) base" "m365_wire base"
  by unfold_locales
    (simp_all only: m365_provider_def MailProvider.simps m365_search_def m365_get_thread_def m365_get_message_def
      m365_list_labels_def m365_list_folders_def m365_list_drafts_def m365_mark_read_def m365_star_def m365_label_def
      m365_move_to_def m365_archive_def m365_trash_def m365_untrash_def m365_create_draft_def
      m365_update_draft_def m365_send_message_def split_def,
      (intro sends_intros patch_one_sends move_one_sends label_one_sends send_draft_sends; simp add: m365_wire_def Let_def)+)

section \<open>Batches\<close>

text \<open>
  An effect on the elements of \<open>xs\<close> one after the other: the requests sent are a block for each element
  of a first part of \<open>xs\<close>, in its order and with at most one repetition. Every block but the last has
  a request, since the next element is not begun before the answer; after a success every element
  has been through, after a failure the rest has not been touched.
\<close>

definition one_by_one :: "('a \<Rightarrow> http_request \<Rightarrow> bool) \<Rightarrow> 'a list \<Rightarrow> (net, unit) io \<Rightarrow> bool" where
  "one_by_one P xs m \<longleftrightarrow> (\<forall>w r w'. m w = (r, w') \<longrightarrow> (\<exists>begun rest blocks. xs = begun @ rest \<and>
     bearer_requests (net_history w') = bearer_requests (net_history w) @ concat blocks \<and>
     list_all2 (\<lambda>x b. length b \<le> 2 \<and> list_all (P x) b) begun blocks \<and> [] \<notin> set (butlast blocks) \<and>
     (is_ok r \<longrightarrow> rest = [] \<and> [] \<notin> set blocks)))"

text \<open>A single request.\<close>

definition posts :: "string \<Rightarrow> json \<Rightarrow> http_request \<Rightarrow> bool" where
  "posts url body q \<longleftrightarrow> rq_method q = POST \<and> rq_url q = url \<and> rq_body q = JsonBody body \<and> rq_bearer q \<noteq> None"

lemma checked_post_requests:
  assumes "checked (post_json X E (daemon_client X E cfg cell i) url body) w = (r, w')"
  shows "\<exists>sent. bearer_requests (net_history w') = bearer_requests (net_history w) @ sent \<and>
    length sent \<le> 2 \<and> list_all (posts url body) sent \<and> (is_ok r \<longrightarrow> sent \<noteq> [])"
proof -
  let ?c = "daemon_client X E cfg cell i" and ?rq = "\<lparr>rq_method = POST, rq_url = url, rq_bearer = None, rq_body = JsonBody body\<rparr>"
  obtain r1 w1 where a: "auth_send X E ?c ?rq w = (r1, w1)" by fastforce
  obtain sent where s: "bearer_requests (net_history w1) = bearer_requests (net_history w) @ sent" "length sent \<le> 2"
    "\<forall>q \<in> set sent. \<exists>t. q = ?rq\<lparr>rq_bearer := Some t\<rparr>" "\<forall>resp. r1 = Ok resp \<longrightarrow> sent \<noteq> []"
    using auth_send_requests [OF a] by blast
  have "w' = w1" "is_ok r \<longrightarrow> is_ok r1"
    using assms a by (auto simp: checked_def post_json_def io_bind_def split: res.splits prod.splits)
  moreover have "list_all (posts url body) sent" using s(3) by (fastforce simp: list_all_iff posts_def)
  ultimately show ?thesis using s by (cases r1) auto
qed

lemma batch_one_by_one:
  assumes "\<And>x. f x = checked (post_json X E (daemon_client X E cfg cell i) (url x) body)"
  shows "one_by_one (\<lambda>x. posts (url x) body) xs (io_for f xs)"
  unfolding one_by_one_def
proof (intro allI impI)
  fix w r w' assume "io_for f xs w = (r, w')"
  then show "\<exists>begun rest blocks. xs = begun @ rest \<and>
     bearer_requests (net_history w') = bearer_requests (net_history w) @ concat blocks \<and>
     list_all2 (\<lambda>x b. length b \<le> 2 \<and> list_all (posts (url x) body) b) begun blocks \<and> [] \<notin> set (butlast blocks) \<and>
     (is_ok r \<longrightarrow> rest = [] \<and> [] \<notin> set blocks)"
  proof (induction xs arbitrary: w)
    case Nil
    then show ?case by (intro exI [of _ "[]"]) simp
  next
    case (Cons x xs)
    obtain r1 w1 where x: "f x w = (r1, w1)" by fastforce
    obtain sent where s: "bearer_requests (net_history w1) = bearer_requests (net_history w) @ sent" "length sent \<le> 2"
      "list_all (posts (url x) body) sent" "is_ok r1 \<longrightarrow> sent \<noteq> []"
      using checked_post_requests [OF x [unfolded assms]] by blast
    show ?case
    proof (cases r1)
      case (Ok u)
      with Cons.prems x have "io_for f xs w1 = (r, w')" by (simp add: io_bind_def)
      from Cons.IH [OF this] obtain begun rest blocks where b: "xs = begun @ rest"
        "bearer_requests (net_history w') = bearer_requests (net_history w1) @ concat blocks"
        "list_all2 (\<lambda>x b. length b \<le> 2 \<and> list_all (posts (url x) body) b) begun blocks" "[] \<notin> set (butlast blocks)"
        "is_ok r \<longrightarrow> rest = [] \<and> [] \<notin> set blocks" by blast
      with s Ok show ?thesis
        by (intro exI [of _ "x # begun"] exI [of _ rest] exI [of _ "sent # blocks"]) simp
    qed (use Cons.prems x s in \<open>intro exI [of _ "[x]"] exI [of _ xs] exI [of _ "[sent]"]; auto simp: io_bind_def\<close>)+
  qed
qed

section \<open>Properties\<close>

lemma unregistered_call:
  assumes "\<not> (\<exists>a p. parse_account_id X args = Ok a \<and> ctx_providers s a = Some p)"
  shows "ctx_net (snd (dispatch X wait i now tool args s)) = ctx_net s"
  using assms by (cases "parse_account_id X args") (auto simp: dispatch_def io_bind_def registry_get_def ok_or_def split: option.split)

lemma daemon_on_wire:
  assumes "daemon_inv X E s" "ctx_providers s a = Some p"
  shows "wire_provider p (gmail_wire PROD_BASE)"
  using assms gmail_on_wire.wire_provider_axioms unfolding daemon_inv_def gmail_provider_new_def by blast



text \<open>
  C4: A send under the draftify policy stays a draft, down to the wire: whichever tool of the send
  category is called, with whatever arguments and whatever the user or the servers would answer, all
  requests of the call are for writing drafts, and none goes to a URL that sends mail.
\<close>

theorem draftified_send_stays_a_draft:
  fixes s :: daemon
  assumes "daemon_inv X E s" and "db_faults (ctx_storage s) = []" and "tool \<in> set tools" "tool_category tool = Send"
    and "\<And>a. parse_account_id X args = Ok a \<Longrightarrow> policy_table X (ctx_storage s) a Send = Draftify"
  shows "\<exists>sent. bearer_requests (net_history (ctx_net (snd (dispatch X wait i now tool args s)))) =
      bearer_requests (net_history (ctx_net s)) @ sent \<and>
    list_all (\<lambda>q. gmail_wire PROD_BASE Draft q \<and> \<not> gmail_wire PROD_BASE Send q) sent"
proof -
  have draft: "gmail_wire PROD_BASE Draft q \<Longrightarrow> \<not> gmail_wire PROD_BASE Send q" for q
    by (auto simp: gmail_wire_def Let_def)
  have wf: "db_wf (ctx_storage s)" using assms(1) by (simp add: daemon_inv_def)
  show ?thesis
  proof (cases "\<not> ctx_mcp_paused s \<and> (\<exists>a p. parse_account_id X args = Ok a \<and> ctx_providers s a = Some p)")
    case True
    then obtain a p where a: "\<not> ctx_mcp_paused s" "parse_account_id X args = Ok a" "ctx_providers s a = Some p" by blast
    from wire_provider.draftified_sends [OF daemon_on_wire [OF assms(1) a(3)] assms(3) a wf assms(2,4) assms(5) [OF a(2)]]
    show ?thesis using draft unfolding sends_def list_all_iff by blast
  next
    case False
    then have "ctx_net (snd (dispatch X wait i now tool args s)) = ctx_net s"
      using unregistered_call [of X args s wait i now tool] by (auto simp: dispatch_def)
    then show ?thesis by simp
  qed
qed

definition draftify_daemon :: daemon where
  "draftify_daemon = demo_daemon\<lparr>ctx_storage := ctx_storage (demo_ctx [(category_as_str Send, policy_as_str Draftify)])\<rparr>"

theorem draftified_send_stays_a_draft_witness:
  "\<exists>sent. bearer_requests (net_history (ctx_net (snd (dispatch (sample_crates []) (\<lambda>f. io_ret Approved) (ApprovalId 7) 0
      tool_send_message demo_args draftify_daemon)))) = bearer_requests (net_history demo_net) @ sent \<and>
     list_all (\<lambda>q. gmail_wire PROD_BASE Draft q \<and> \<not> gmail_wire PROD_BASE Send q) sent"
proof -
  have inv: "daemon_inv (sample_crates []) quiet_env draftify_daemon"
    using demo_daemon_inv demo_wf [of Send Draftify] by (simp add: daemon_inv_def draftify_daemon_def)
  show ?thesis
    using draftified_send_stays_a_draft [OF inv, of tool_send_message demo_args "\<lambda>f. io_ret Approved" "ApprovalId 7" 0]
      demo_wf [of Send Draftify] demo_policy [of "[]" Send Draftify]
    by (simp add: draftify_daemon_def tools_def del: category_as_str.simps policy_as_str.simps)
qed


end
