(* ===== verification/Admin.thy ===== *)
theory Admin
  imports Daemon_Props
begin

text \<open>
  The command line client (\<^verbatim>\<open>mail-mcp-admin\<close>): the IPC client with its request identifiers and its
  loop over incoming lines (\<^verbatim>\<open>ipc_client.rs\<close>), and every subcommand (\<^verbatim>\<open>main.rs\<close>).

  The other end of the connection is a parameter: the lines it writes in reaction to a request line.
  \<open>daemon_peer\<close> is the daemon's connection in that role, so that the theorems of this theory run from
  the subcommand through the wire and the server to the handler and back.
\<close>

section \<open>The client\<close>

record RespErr =
  re_code :: int
  re_message :: string

record Resp =
  rp_id :: json
  rp_result :: "json option"
  rp_error :: "RespErr option"

definition de_resp_err :: "json \<Rightarrow> RespErr option" where
  "de_resp_err = de_struct 2 [''code'', ''message''] (\<lambda>v.
     Option.bind (de_required as_i64 ''code'' v) (\<lambda>c.
     Option.bind (de_required as_str ''message'' v) (\<lambda>m.
     Some \<lparr>re_code = c, re_message = m\<rparr>)))"

definition de_resp :: "json \<Rightarrow> Resp option" where
  "de_resp = de_struct 3 [''id'', ''result'', ''error''] (\<lambda>v.
     Option.bind (de_default JNull Some ''id'' v) (\<lambda>i.
     Option.bind (de_option Some ''result'' v) (\<lambda>r.
     Option.bind (de_option de_resp_err ''error'' v) (\<lambda>e.
     Some \<lparr>rp_id = i, rp_result = r, rp_error = e\<rparr>))))"

definition parse_resp :: "crates \<Rightarrow> string \<Rightarrow> string + Resp" where
  "parse_resp X line = (case json_from_str X line of
      Inl e \<Rightarrow> Inl e
    | Inr v \<Rightarrow> (case de_resp v of None \<Rightarrow> Inl (serde_error X ''Resp'' v) | Some r \<Rightarrow> Inr r))"

text \<open>
  The read loop of a call over the lines still to come: the empty line is the end of the input,
  \<open>None\<close> says that the call waits for a line that never comes. Returns what is left unread.
\<close>

fun await_response :: "crates \<Rightarrow> 64 word \<Rightarrow> string list \<Rightarrow> ((string + json) \<times> string list) option" where
  "await_response X i [] = None"
| "await_response X i (line # lines) =
     (if line = [] then Some (Inl ''daemon closed connection'', line # lines)
      else if \<not> valid_utf8 line then Some (Inl ''stream did not contain valid UTF-8'', lines)
      else (case parse_resp X (trim line) of
          Inl e \<Rightarrow> Some (Inl e, lines)
        | Inr resp \<Rightarrow>
            if as_u64 (rp_id resp) \<noteq> Some i then await_response X i lines
            else Some ((case rp_error resp of
                Some err \<Rightarrow> Inl (''daemon error ('' @ show_int (re_code err) @ ''): '' @ re_message err)
              | None \<Rightarrow> (case rp_result resp of
                  Some v \<Rightarrow> Inr v
                | None \<Rightarrow> Inl ''response missing result'')), lines)))"

type_synonym 'p peer = "string \<Rightarrow> 'p \<Rightarrow> (string list \<times> 'p) option"

record 'p IpcClient =
  cl_next_id :: "64 word"
  cl_inbox :: "string list"
  cl_peer :: 'p

definition client_request :: "64 word \<Rightarrow> string \<Rightarrow> json \<Rightarrow> json" where
  "client_request i method params = JObject
     [(''jsonrpc'', JString ''2.0''), (''id'', JNumber (PosInt i)), (''method'', JString method), (''params'', params)]"

definition frame_line :: "crates \<Rightarrow> json \<Rightarrow> string" where
  "frame_line X f = json_to_string X f @ [CHR 0x0A]"

definition client_call ::
  "crates \<Rightarrow> 'p peer \<Rightarrow> string \<Rightarrow> json \<Rightarrow> ('p, 'z) IpcClient_scheme \<Rightarrow> ((string + json) \<times> ('p, 'z) IpcClient_scheme) option" where
  "client_call X peer method params c =
     (let i = cl_next_id c; line = frame_line X (client_request i method params) in
      case peer line (cl_peer c) of
        None \<Rightarrow> None
      | Some (ls, p) \<Rightarrow> (case await_response X i (cl_inbox c @ ls) of
          None \<Rightarrow> None
        | Some (r, rest) \<Rightarrow> Some (r, c\<lparr>cl_next_id := i + 1, cl_inbox := rest, cl_peer := p\<rparr>)))"

section \<open>The subcommands\<close>

datatype AccountsCmd = AccountsList | AddGmail "string option" | AccountsRemove string

datatype PermissionsCmd = PermissionsGet string | PermissionsSet string string string

datatype ApprovalsCmd = ApprovalsList | ApprovalsApprove string | ApprovalsReject string

datatype Cmd =
    CmdStatus
  | CmdEndpoint
  | CmdPause
  | CmdResume
  | CmdAccounts AccountsCmd
  | CmdPermissions PermissionsCmd
  | CmdApprovals ApprovalsCmd

text \<open>\<open>ad_stdout\<close>: the texts printed; \<open>ad_opened\<close>: the addresses handed to the browser.\<close>

record 'p admin = "'p IpcClient" +
  ad_stdout :: "string list"
  ad_opened :: "string list"

type_synonym ('p, 'a) adm = "'p admin \<Rightarrow> ((string + 'a) \<times> 'p admin) option"

definition adm_bind :: "('p, 'a) adm \<Rightarrow> ('a \<Rightarrow> ('p, 'b) adm) \<Rightarrow> ('p, 'b) adm" where
  "adm_bind m f a = (case m a of
      None \<Rightarrow> None
    | Some (Inl e, a') \<Rightarrow> Some (Inl e, a')
    | Some (Inr x, a') \<Rightarrow> f x a')"

definition println :: "string \<Rightarrow> ('p, unit) adm" where
  "println s a = Some (Inr (), a\<lparr>ad_stdout := ad_stdout a @ [s]\<rparr>)"

definition open_browser :: "string \<Rightarrow> ('p, unit) adm" where
  "open_browser url a = Some (Inr (), a\<lparr>ad_opened := ad_opened a @ [url]\<rparr>)"

definition accounts_run :: "crates \<Rightarrow> 'p peer \<Rightarrow> AccountsCmd \<Rightarrow> ('p, unit) adm" where
  "accounts_run X peer cmd = (case cmd of
      AccountsList \<Rightarrow>
        adm_bind (client_call X peer ''accounts.list'' (JObject [])) (\<lambda>v.
        println (json_to_string_pretty X v))
    | AddGmail label \<Rightarrow>
        adm_bind (client_call X peer ''accounts.add_oauth'' (JObject [(''provider'', JString ''gmail'')])) (\<lambda>v.
        let challenge_id = str_or_empty ''challenge_id'' v; auth_url = str_or_empty ''auth_url'' v in
        adm_bind (println (''Opening browser:'' @ [CHR 0x0A] @ ''  '' @ auth_url @ [CHR 0x0A] @
          ''Waiting for sign-in to complete...'')) (\<lambda>_.
        adm_bind (open_browser auth_url) (\<lambda>_.
        adm_bind (client_call X peer ''accounts.complete_oauth'' (JObject
          [(''challenge_id'', JString challenge_id), (''label'', JString (unwrap_or [] label))])) (\<lambda>v.
        println (''Account added:'' @ [CHR 0x0A] @ json_to_string_pretty X v)))))
    | AccountsRemove i \<Rightarrow>
        adm_bind (client_call X peer ''accounts.remove'' (JObject [(''account_id'', JString i)])) (\<lambda>_.
        println ''removed''))"

definition permissions_run :: "crates \<Rightarrow> 'p peer \<Rightarrow> PermissionsCmd \<Rightarrow> ('p, unit) adm" where
  "permissions_run X peer cmd = (case cmd of
      PermissionsGet account_id \<Rightarrow>
        adm_bind (client_call X peer ''permissions.get'' (JObject [(''account_id'', JString account_id)])) (\<lambda>v.
        println (json_to_string_pretty X v))
    | PermissionsSet account_id category policy \<Rightarrow>
        adm_bind (client_call X peer ''permissions.set'' (JObject [(''account_id'', JString account_id),
          (''category'', JString category), (''policy'', JString policy)])) (\<lambda>_.
        println ''set''))"

definition approvals_run :: "crates \<Rightarrow> 'p peer \<Rightarrow> ApprovalsCmd \<Rightarrow> ('p, unit) adm" where
  "approvals_run X peer cmd = (case cmd of
      ApprovalsList \<Rightarrow>
        adm_bind (client_call X peer ''approvals.list'' (JObject [])) (\<lambda>v.
        println (json_to_string_pretty X v))
    | ApprovalsApprove i \<Rightarrow>
        adm_bind (client_call X peer ''approvals.decide''
          (JObject [(''id'', JString i), (''decision'', JString ''approve'')])) (\<lambda>_.
        println ''approved'')
    | ApprovalsReject i \<Rightarrow>
        adm_bind (client_call X peer ''approvals.decide''
          (JObject [(''id'', JString i), (''decision'', JString ''reject'')])) (\<lambda>_.
        println ''rejected''))"

definition admin_run :: "crates \<Rightarrow> 'p peer \<Rightarrow> Cmd \<Rightarrow> ('p, unit) adm" where
  "admin_run X peer cmd = (case cmd of
      CmdStatus \<Rightarrow>
        adm_bind (client_call X peer ''status'' (JObject [])) (\<lambda>v. println (json_to_string_pretty X v))
    | CmdEndpoint \<Rightarrow>
        adm_bind (client_call X peer ''mcp.endpoint'' (JObject [])) (\<lambda>v. println (json_to_string_pretty X v))
    | CmdPause \<Rightarrow>
        adm_bind (client_call X peer ''mcp.pause'' (JObject [(''paused'', JBool True)])) (\<lambda>_. println ''MCP paused'')
    | CmdResume \<Rightarrow>
        adm_bind (client_call X peer ''mcp.pause'' (JObject [(''paused'', JBool False)])) (\<lambda>_. println ''MCP resumed'')
    | CmdAccounts c \<Rightarrow> accounts_run X peer c
    | CmdPermissions c \<Rightarrow> permissions_run X peer c
    | CmdApprovals c \<Rightarrow> approvals_run X peer c)"

section \<open>The daemon at the other end\<close>

text \<open>
  What the daemon writes on a connection between one request line and the next: the notifications
  \<open>before\<close> the request is taken up, its response, the notifications \<open>after\<close> it; then the end of the
  input if the connection was given up.
\<close>

definition daemon_peer ::
  "crates \<Rightarrow> (string \<Rightarrow> json \<Rightarrow> 's \<Rightarrow> (json res \<times> 's) option) \<Rightarrow> Notification list \<Rightarrow> Notification list \<Rightarrow> (conn \<times> 's) peer" where
  "daemon_peer X h before after line = (\<lambda>(c, s).
     case serve_conn X h (map Event before @ [Line line] @ map Event after) (c, s) of
       None \<Rightarrow> None
     | Some (c', s') \<Rightarrow> Some (map (frame_line X) (drop (length (cn_out c)) (cn_out c')) @
         (if cn_open c' then [] else [[]]), (c', s')))"

section \<open>Facts\<close>

text \<open>
  What a call relies on of \<^verbatim>\<open>serde_json\<close> for the messages it exchanges: the compact text of a value
  is UTF-8 and one line, and parses back to the value.
\<close>

definition wire_ok :: "crates \<Rightarrow> json \<Rightarrow> bool" where
  "wire_ok X v \<longleftrightarrow> valid_utf8 (frame_line X v) \<and> CHR 0x0A \<notin> set (json_to_string X v) \<and>
     json_from_str X (trim (frame_line X v)) = Inr v"

lemma frame_line_nonempty [simp]: "frame_line X v \<noteq> []"
  by (simp add: frame_line_def)

lemma error_code_on_the_wire [simp]: "as_i64 (i32_json (error_code e)) = Some (error_code e)"
  by (cases e) (simp_all add: i32_json_def)

text \<open>A line with a foreign identifier, in particular a notification, is skipped.\<close>

lemma parse_notification:
  "wire_ok X (notification_frame X n) \<Longrightarrow>
   parse_resp X (trim (frame_line X (notification_frame X n))) = Inr \<lparr>rp_id = JNull, rp_result = None, rp_error = None\<rparr>"
  by (simp add: parse_resp_def wire_ok_def) (simp add: notification_frame_alt de_resp_def de_defs)

lemma await_skips_notifications:
  assumes "\<forall>n \<in> set ns. wire_ok X (notification_frame X n)"
  shows "await_response X i (map (\<lambda>n. frame_line X (notification_frame X n)) ns @ ls) = await_response X i ls"
  using assms by (induction ns) (simp_all add: parse_notification, simp add: wire_ok_def)

definition call_result :: "json res \<Rightarrow> string + json" where
  "call_result r = (case r of
      Ok v \<Rightarrow> if v = JNull then Inl ''response missing result'' else Inr v
    | Err e \<Rightarrow> Inl (''daemon error ('' @ show_int (error_code e) @ ''): '' @ error_to_string e)
    | Panic m \<Rightarrow> Inl ''daemon closed connection'')"

lemma de_resp_response:
  "de_resp (rpc_ok i v) = Some \<lparr>rp_id = i, rp_result = (if v = JNull then None else Some v), rp_error = None\<rparr>"
  "de_resp (rpc_err i (error_code e) m) = Some \<lparr>rp_id = i, rp_result = None, rp_error = Some \<lparr>re_code = error_code e, re_message = m\<rparr>\<rparr>"
  by (cases v; simp add: rpc_ok_def de_resp_def de_defs)
    (simp add: rpc_err_def de_resp_def de_resp_err_def de_defs)

lemma await_takes_response:
  assumes "wire_ok X (ipc_response (JNumber (PosInt i)) r)" and "\<not> is_panic r"
  shows "await_response X i (frame_line X (ipc_response (JNumber (PosInt i)) r) # ls) = Some (call_result r, ls)"
  using assms by (cases r)
    (simp_all add: ipc_response_def wire_ok_def parse_resp_def de_resp_response call_result_def del: valid_utf8.simps)

lemma parse_client_request:
  "wire_ok X (client_request i m p) \<Longrightarrow> parse_ipc_request X (trim (frame_line X (client_request i m p))) =
     Inr \<lparr>ir_id = JNumber (PosInt i), ir_method = m, ir_params = (if p = JNull then None else Some p)\<rparr>"
  by (cases p) (simp_all add: wire_ok_def parse_ipc_request_def, simp_all add: client_request_def de_ipc_request_def de_defs)

text \<open>The daemon's reaction to one request of a client.\<close>

lemma daemon_peer_call:
  assumes "conn_up c" and "wire_ok X (client_request i m p)" and "m \<noteq> ''subscribe''"
    and "h m p s = Some (r, s')" and "\<not> is_panic r"
  shows "\<exists>c'. daemon_peer X h before after (frame_line X (client_request i m p)) (c, s) =
      Some (map (\<lambda>n. frame_line X (notification_frame X n)) (fan_frames c before) @
        frame_line X (ipc_response (JNumber (PosInt i)) r) #
        map (\<lambda>n. frame_line X (notification_frame X n)) (fan_frames c after), (c', s')) \<and>
    conn_up c' \<and> cn_task c' = cn_task c \<and> cn_subscribed c' = cn_subscribed c"
proof -
  let ?c1 = "fold (fan_out X) before c"
  let ?c2 = "write_frame (ipc_response (JNumber (PosInt i)) r) ?c1"
  have "conn_up ?c1" using assms(1) by simp
  note up = this conn_upD [OF this]
  have u: "valid_utf8 (frame_line X (client_request i m p))" using assms(2) by (simp add: wire_ok_def)
  have "unwrap_or JNull (if p = JNull then None else Some p) = p" by simp
  then have "serve_line X h (frame_line X (client_request i m p)) (?c1, s) = Some (?c2, s')"
    using assms u up by (cases r) (simp_all add: serve_line_def parse_client_request)
  then have "serve_conn X h (map Event before @ [Line (frame_line X (client_request i m p))] @ map Event after) (c, s) =
      Some (fold (fan_out X) after ?c2, s')"
    using serve_conn_events [of X h after "[]"] by (simp add: serve_conn_events)
  moreover have "fan_frames ?c2 after = fan_frames c after" using conn_upD [OF assms(1)] by (simp add: fan_frames_def)
  ultimately show ?thesis using assms(1) conn_upD [OF assms(1)] by (simp add: daemon_peer_def o_def)
qed

lemma client_call_daemon:
  assumes "cl_peer a = (c, s)" and "conn_up c"
    and "cl_inbox a = map (\<lambda>n. frame_line X (notification_frame X n)) old"
    and "\<forall>n \<in> set (old @ before). wire_ok X (notification_frame X n)"
    and "wire_ok X (client_request (cl_next_id a) m p)" and "m \<noteq> ''subscribe''"
    and "h m p s = Some (r, s')" and "\<not> is_panic r"
    and "wire_ok X (ipc_response (JNumber (PosInt (cl_next_id a))) r)"
  shows "\<exists>c'. client_call X (daemon_peer X h before after) m p a = Some (call_result r,
      a\<lparr>cl_next_id := cl_next_id a + 1,
        cl_inbox := map (\<lambda>n. frame_line X (notification_frame X n)) (fan_frames c after), cl_peer := (c', s')\<rparr>) \<and>
    conn_up c' \<and> cn_task c' = cn_task c \<and> cn_subscribed c' = cn_subscribed c"
proof -
  let ?f = "\<lambda>n. frame_line X (notification_frame X n)"
  obtain c' where p: "daemon_peer X h before after (frame_line X (client_request (cl_next_id a) m p)) (c, s) =
      Some (map ?f (fan_frames c before) @ frame_line X (ipc_response (JNumber (PosInt (cl_next_id a))) r) #
        map ?f (fan_frames c after), (c', s'))"
    and c': "conn_up c'" "cn_task c' = cn_task c" "cn_subscribed c' = cn_subscribed c"
    using daemon_peer_call [where h = h and before = before and after = after, OF assms(2,5-8)] by auto
  have "\<forall>n \<in> set (fan_frames c before). wire_ok X (notification_frame X n)" and o: "\<forall>n \<in> set old. wire_ok X (notification_frame X n)"
    using assms(4) by (simp_all add: fan_frames_def)
  note skip = await_skips_notifications [OF this(1)] await_skips_notifications [OF o]
  show ?thesis
    using p c' await_takes_response [OF assms(9,8)]
    by (intro exI [of _ c']) (simp add: client_call_def Let_def assms(1,3) skip del: await_response.simps)
qed

section \<open>Properties\<close>

text \<open>
  C14: A call of the command line client is a call of the daemon's handler: whatever notifications
  are unread, arrive before or arrive after, the client returns exactly what the handler answered
  (an error with its code and text; a null result counts as missing), the handler ran once with the
  given method and parameters, and the client and the connection are ready for the next call.
\<close>

theorem client_call_is_handler_call:
  assumes "cl_peer a = (c, s)" and "conn_up c"
    and "cl_inbox a = map (\<lambda>n. frame_line X (notification_frame X n)) old"
    and "\<forall>n \<in> set (old @ before). wire_ok X (notification_frame X n)"
    and "wire_ok X (client_request (cl_next_id a) m p)" and "m \<noteq> ''subscribe''"
    and "h m p s = Some (r, s')" and "\<not> is_panic r"
    and "wire_ok X (ipc_response (JNumber (PosInt (cl_next_id a))) r)"
  shows "\<exists>a' c' new. client_call X (daemon_peer X h before after) m p a =
      Some ((case r of
          Ok v \<Rightarrow> if v = JNull then Inl ''response missing result'' else Inr v
        | Err e \<Rightarrow> Inl (''daemon error ('' @ show_int (error_code e) @ ''): '' @ error_to_string e)
        | Panic q \<Rightarrow> Inl []), a') \<and>
    cl_peer a' = (c', s') \<and> conn_up c' \<and> cl_next_id a' = cl_next_id a + 1 \<and>
    set new \<subseteq> set after \<and> cl_inbox a' = map (\<lambda>n. frame_line X (notification_frame X n)) new"
proof -
  obtain c' where "client_call X (daemon_peer X h before after) m p a = Some (call_result r,
      a\<lparr>cl_next_id := cl_next_id a + 1,
        cl_inbox := map (\<lambda>n. frame_line X (notification_frame X n)) (fan_frames c after), cl_peer := (c', s')\<rparr>)"
    "conn_up c'"
    using client_call_daemon [where h = h and after = after, OF assms] by auto
  moreover have "set (fan_frames c after) \<subseteq> set after" by (auto simp: fan_frames_def)
  ultimately show ?thesis using assms(8)
    by (cases r) (auto simp: call_result_def intro!: exI [of _ "fan_frames c after"])
qed

definition demo_client :: "string \<Rightarrow> json \<Rightarrow> json \<Rightarrow> crates" where
  "demo_client m p v = sample_crates [(''Q'', client_request 1 m p), (''A'', rpc_ok (JNumber (PosInt 1)) v)]"

lemma demo_client_wire:
  "wire_ok (demo_client m p v) (client_request 1 m p)"
  "wire_ok (demo_client m p v) (rpc_ok (JNumber (PosInt 1)) v)"
proof -
  have u: "valid_utf8 [CHR ''Q'', CHR 0x0A]" "valid_utf8 [CHR ''A'', CHR 0x0A]"
    and t: "trim [CHR ''Q'', CHR 0x0A] = ''Q''" "trim [CHR ''A'', CHR 0x0A] = ''A''" by code_simp+
  show "wire_ok (demo_client m p v) (client_request 1 m p)"
    "wire_ok (demo_client m p v) (rpc_ok (JNumber (PosInt 1)) v)"
    by (simp_all add: wire_ok_def frame_line_def demo_client_def sample_crates_def client_request_def rpc_ok_def t u
        del: valid_utf8.simps)
qed

theorem client_call_is_handler_call_witness:
  "\<exists>a'. client_call (demo_client ''m'' JNull (JBool True))
     (daemon_peer (demo_client ''m'' JNull (JBool True)) (\<lambda>m p s. Some (Ok (JBool True), s + 1)) [] [McpPausedChanged True])
     ''m'' JNull \<lparr>cl_next_id = 1, cl_inbox = [], cl_peer = (conn_new, 4 :: nat)\<rparr> = Some (Inr (JBool True), a') \<and>
   snd (cl_peer a') = 5 \<and> cl_next_id a' = 2"
proof -
  let ?X = "demo_client ''m'' JNull (JBool True)"
  have "\<exists>a' c' new. client_call ?X (daemon_peer ?X (\<lambda>m p s. Some (Ok (JBool True), s + 1)) [] [McpPausedChanged True])
     ''m'' JNull \<lparr>cl_next_id = 1, cl_inbox = [], cl_peer = (conn_new, 4 :: nat)\<rparr> =
      Some ((case Ok (JBool True) of
          Ok v \<Rightarrow> if v = JNull then Inl ''response missing result'' else Inr v
        | Err e \<Rightarrow> Inl (''daemon error ('' @ show_int (error_code e) @ ''): '' @ error_to_string e)
        | Panic q \<Rightarrow> Inl []), a') \<and>
    cl_peer a' = (c', 5) \<and> conn_up c' \<and> cl_next_id a' = cl_next_id \<lparr>cl_next_id = 1, cl_inbox = [], cl_peer = (conn_new, 4 :: nat)\<rparr> + 1 \<and>
    set new \<subseteq> set [McpPausedChanged True] \<and> cl_inbox a' = map (\<lambda>n. frame_line ?X (notification_frame ?X n)) new"
    by (rule client_call_is_handler_call [where c = conn_new and s = 4 and old = "[]"])
      (simp_all add: demo_client_wire ipc_response_def)
  then show ?thesis by auto
qed

text \<open>
  C13: The pause switch works end to end: running the subcommand \<open>pause\<close> against the daemon prints
  its confirmation and leaves the daemon in a state in which every dispatched tool call is refused
  without any effect; the change is announced once. Running \<open>resume\<close> clears the switch again.
\<close>

theorem admin_pause_stops_tool_calls:
  assumes "cl_peer a = (c, s)" and "conn_up c" and "cl_inbox a = []"
    and "cmd \<in> {CmdPause, CmdResume}" and "on \<longleftrightarrow> cmd = CmdPause"
    and "wire_ok X (client_request (cl_next_id a) ''mcp.pause'' (JObject [(''paused'', JBool on)]))"
    and "wire_ok X (rpc_ok (JNumber (PosInt (cl_next_id a))) (JObject []))"
  shows "\<exists>a' c' s'. admin_run X (daemon_peer X (handle X E C dr) [] after) cmd a = Some (Inr (), a') \<and>
    ad_stdout a' = ad_stdout a @ [if on then ''MCP paused'' else ''MCP resumed''] \<and>
    cl_peer a' = (c', s') \<and> ctx_mcp_paused s' = on \<and>
    dm_notifs s' = dm_notifs s @ [McpPausedChanged on] \<and>
    (on \<longrightarrow> (\<forall>wait i now tool args. dispatch X wait i now tool args s' = (Err (PermissionDenied paused_message), s')))"
proof -
  let ?p = "JObject [(''paused'', JBool on)]"
  let ?s = "s\<lparr>ctx_mcp_paused := on, dm_notifs := dm_notifs s @ [McpPausedChanged on]\<rparr>"
  have h: "handle X E C dr ''mcp.pause'' ?p s = Some (Ok (JObject []), ?s)"
    by (simp add: handle_def mcp_pause_def notify_def get_bool_def Let_def io_bind_def)
  have r: "wire_ok X (ipc_response (JNumber (PosInt (cl_next_id a))) (Ok (JObject [])))"
    using assms(7) by (simp add: ipc_response_def)
  obtain c' where call: "client_call X (daemon_peer X (handle X E C dr) [] after) ''mcp.pause'' ?p a =
      Some (Inr (JObject []), a\<lparr>cl_next_id := cl_next_id a + 1,
        cl_inbox := map (\<lambda>n. frame_line X (notification_frame X n)) (fan_frames c after), cl_peer := (c', ?s)\<rparr>)"
    using client_call_daemon [where h = "handle X E C dr" and old = "[]" and before = "[]" and after = after,
        OF assms(1,2) _ _ assms(6) _ h _ r] assms(3)
    by (auto simp: call_result_def)
  have d: "dispatch X wait i now tool args ?s = (Err (PermissionDenied paused_message), ?s)" if on for wait i now tool args
    using that by (simp add: dispatch_def)
  show ?thesis
    using assms(4,5) call d
    by (cases on) (auto simp: admin_run_def adm_bind_def println_def)
qed

definition pause_client :: crates where
  "pause_client = demo_client ''mcp.pause'' (JObject [(''paused'', JBool True)]) (JObject [])"

theorem admin_pause_stops_tool_calls_witness:
  "\<exists>a'. admin_run pause_client (daemon_peer pause_client (handle pause_client quiet_env demo_daemon_cfg demo_draw) [] []) CmdPause
     \<lparr>cl_next_id = 1, cl_inbox = [], cl_peer = (conn_new, demo_daemon), ad_stdout = [], ad_opened = []\<rparr> = Some (Inr (), a') \<and>
   ad_stdout a' = [''MCP paused'']"
proof -
  let ?a = "\<lparr>cl_next_id = 1, cl_inbox = [], cl_peer = (conn_new, demo_daemon), ad_stdout = [], ad_opened = []\<rparr>"
  have "\<exists>a' c' s'. admin_run pause_client (daemon_peer pause_client (handle pause_client quiet_env demo_daemon_cfg demo_draw) [] [])
      CmdPause ?a = Some (Inr (), a') \<and>
    ad_stdout a' = ad_stdout ?a @ [if True then ''MCP paused'' else ''MCP resumed''] \<and>
    cl_peer a' = (c', s') \<and> ctx_mcp_paused s' = True \<and>
    dm_notifs s' = dm_notifs demo_daemon @ [McpPausedChanged True] \<and>
    (True \<longrightarrow> (\<forall>wait i now tool args. dispatch pause_client wait i now tool args s' = (Err (PermissionDenied paused_message), s')))"
    by (rule admin_pause_stops_tool_calls [where c = conn_new])
      (simp_all add: demo_client_wire pause_client_def)
  then show ?thesis by auto
qed

end
