(* ===== verification/Files.thy ===== *)
theory Files
  imports Ipc
begin

text \<open>
  The part of the file system that the daemon uses directly, and the code on top of it: the
  directory layout (\<^verbatim>\<open>paths.rs\<close>) and the endpoint file (\<^verbatim>\<open>write_endpoint\<close> of \<^verbatim>\<open>lifecycle.rs\<close>).

  A path is the list of its components below the root. Every operation may fail for reasons outside
  the program: \<open>fs_faults\<close> holds the outcomes of the next operations, and a failing write may have
  written some bytes before. \<open>fs_trace\<close> lists every content of the disk that another process could
  have observed so far.
\<close>

unbundle bit_operations_syntax

type_synonym path = "string list"
type_synonym mode = "12 word"

datatype node = Dir mode | File mode string | Socket mode

record files =
  fs_nodes :: "path \<rightharpoonup> node"
  fs_umask :: mode
  fs_faults :: "(nat \<times> string) option list"
  fs_trace :: "(path \<rightharpoonup> node) list"

definition show_path :: "path \<Rightarrow> string" where
  "show_path p = concat (map (\<lambda>c. CHR ''/'' # c) p)"

section \<open>Operations of the standard library\<close>

definition observe :: "files \<Rightarrow> files" where
  "observe f = f\<lparr>fs_trace := fs_trace f @ [fs_nodes f]\<rparr>"

text \<open>One call: fails with the next fault, after \<open>partial\<close> has acted, or runs.\<close>

definition fs_call :: "(nat \<Rightarrow> files \<Rightarrow> files) \<Rightarrow> (files, 'a) io \<Rightarrow> (files, 'a) io" where
  "fs_call partial act f = (case fs_faults f of
      Some (k, e) # fs \<Rightarrow> (Err (Io e), partial k (f\<lparr>fs_faults := fs\<rparr>))
    | None # fs \<Rightarrow> act (f\<lparr>fs_faults := fs\<rparr>)
    | [] \<Rightarrow> act f)"

definition set_node :: "path \<Rightarrow> node option \<Rightarrow> files \<Rightarrow> files" where
  "set_node p n f = observe (f\<lparr>fs_nodes := (fs_nodes f)(p := n)\<rparr>)"

definition make_dir :: "path \<Rightarrow> (files, unit) io" where
  "make_dir p = fs_call (\<lambda>k f. f) (\<lambda>f. case fs_nodes f p of
      None \<Rightarrow> (Ok (), set_node p (Some (Dir (0x1FF AND NOT (fs_umask f)))) f)
    | Some (Dir m) \<Rightarrow> (Ok (), f)
    | Some _ \<Rightarrow> (Err (Io ''File exists''), f))"

definition create_dir_all :: "path \<Rightarrow> (files, unit) io" where
  "create_dir_all p = io_for make_dir (map (\<lambda>k. take (Suc k) p) [0..<length p])"

definition remove_file :: "path \<Rightarrow> (files, unit) io" where
  "remove_file p = fs_call (\<lambda>k f. f) (\<lambda>f. case fs_nodes f p of
      None \<Rightarrow> (Err (Io ''No such file or directory''), f)
    | Some (Dir m) \<Rightarrow> (Err (Io ''Is a directory''), f)
    | Some _ \<Rightarrow> (Ok (), set_node p None f))"

definition set_permissions :: "path \<Rightarrow> mode \<Rightarrow> (files, unit) io" where
  "set_permissions p m = fs_call (\<lambda>k f. f) (\<lambda>f. case fs_nodes f p of
      None \<Rightarrow> (Err (Io ''No such file or directory''), f)
    | Some (Dir _) \<Rightarrow> (Ok (), set_node p (Some (Dir m)) f)
    | Some (File _ d) \<Rightarrow> (Ok (), set_node p (Some (File m d)) f)
    | Some (Socket _) \<Rightarrow> (Ok (), set_node p (Some (Socket m)) f))"

definition is_dir :: "files \<Rightarrow> path \<Rightarrow> bool" where
  "is_dir f p \<longleftrightarrow> p = [] \<or> (\<exists>m. fs_nodes f p = Some (Dir m))"

definition create_new :: "path \<Rightarrow> mode \<Rightarrow> (files, unit) io" where
  "create_new p m = fs_call (\<lambda>k f. f) (\<lambda>f.
     if fs_nodes f p \<noteq> None then (Err (Io ''File exists''), f)
     else if \<not> is_dir f (butlast p) then (Err (Io ''No such file or directory''), f)
     else (Ok (), set_node p (Some (File (m AND NOT (fs_umask f)) [])) f))"

text \<open>The bytes of a write become visible one by one.\<close>

primrec append_bytes :: "path \<Rightarrow> string \<Rightarrow> files \<Rightarrow> files" where
  "append_bytes p [] f = f"
| "append_bytes p (b # bs) f = append_bytes p bs (case fs_nodes f p of
      Some (File m d) \<Rightarrow> set_node p (Some (File m (d @ [b]))) f
    | _ \<Rightarrow> f)"

definition write_all :: "path \<Rightarrow> string \<Rightarrow> (files, unit) io" where
  "write_all p bs = fs_call (\<lambda>k. append_bytes p (take k bs)) (\<lambda>f. (Ok (), append_bytes p bs f))"

definition sync_all :: "(files, unit) io" where
  "sync_all = fs_call (\<lambda>k f. f) (\<lambda>f. (Ok (), f))"

definition rename :: "path \<Rightarrow> path \<Rightarrow> (files, unit) io" where
  "rename p q = fs_call (\<lambda>k f. f) (\<lambda>f. case (fs_nodes f p, fs_nodes f q) of
      (None, _) \<Rightarrow> (Err (Io ''No such file or directory''), f)
    | (_, Some (Dir m)) \<Rightarrow> (Err (Io ''Is a directory''), f)
    | (Some n, _) \<Rightarrow> (Ok (), observe (f\<lparr>fs_nodes := (fs_nodes f)(q \<mapsto> n, p := None)\<rparr>)))"

definition read_file :: "path \<Rightarrow> (files, string) io" where
  "read_file p = fs_call (\<lambda>k f. f) (\<lambda>f. case fs_nodes f p of
      Some (File m d) \<Rightarrow> (Ok d, f)
    | Some (Dir m) \<Rightarrow> (Err (Io ''Is a directory''), f)
    | Some (Socket m) \<Rightarrow> (Err (Io ''No such device or address''), f)
    | None \<Rightarrow> (Err (Io ''No such file or directory''), f))"

text \<open>\<open>with_context\<close> replaces the text of an error.\<close>

definition with_context :: "string \<Rightarrow> (files, 'a) io \<Rightarrow> (files, 'a) io" where
  "with_context msg m f = (case m f of (Err e, f') \<Rightarrow> (Err (Io msg), f') | r \<Rightarrow> r)"

section \<open>The endpoint file\<close>

definition endpoint_tmp :: "nat \<Rightarrow> path \<Rightarrow> path" where
  "endpoint_tmp pid p = butlast p @ [last p @ ''.tmp.'' @ show_nat pid]"

text \<open>\<open>pid\<close> is the identifier of the running process; the mode is octal 600.\<close>

definition write_endpoint :: "crates \<Rightarrow> nat \<Rightarrow> path \<Rightarrow> McpEndpointInfo \<Rightarrow> (files, unit) io" where
  "write_endpoint X pid p info =
     io_bind (create_dir_all (butlast p)) (\<lambda>_.
     let bytes = json_to_string_pretty X (endpoint_json info) in
     if p = [] then io_res (Err (Io ''endpoint path has no file name''))
     else let tmp = endpoint_tmp pid p in
       io_bind (with_context (''creating endpoint temp file '' @ show_path tmp) (create_new tmp 0x180)) (\<lambda>_.
       io_bind (write_all tmp bytes) (\<lambda>_.
       io_bind (io_ignore sync_all) (\<lambda>_.
       with_context (''renaming '' @ show_path tmp @ '' '' @ [CHR 0xE2, CHR 0x86, CHR 0x92] @ '' '' @ show_path p)
         (rename tmp p)))))"

section \<open>The directory layout\<close>

record Paths =
  pt_data :: path
  pt_logs :: path
  pt_cache :: path
  pt_runtime :: path

text \<open>What the package \<^verbatim>\<open>dirs\<close> and the environment say of the user's directories.\<close>

record user_dirs =
  ud_home :: "path option"
  ud_data :: "path option"
  ud_data_local :: "path option"
  ud_state :: "path option"
  ud_cache :: "path option"
  ud_runtime :: "path option"
  ud_tmpdir :: "path option"
  ud_euid :: nat

datatype target_os = MacOs | Linux | Windows

definition default_for_user :: "target_os \<Rightarrow> user_dirs \<Rightarrow> Paths res" where
  "default_for_user os u = (case os of
      MacOs \<Rightarrow>
        res_bind (ok_or (Config ''no HOME dir'') (ud_home u)) (\<lambda>home.
        Ok \<lparr>pt_data = home @ [''Library'', ''Application Support'', ''mail-mcp''],
            pt_logs = home @ [''Library'', ''Logs'', ''mail-mcp''],
            pt_cache = home @ [''Library'', ''Caches'', ''mail-mcp''],
            pt_runtime = unwrap_or [''tmp''] (ud_tmpdir u) @ [''mail-mcp-'' @ show_nat (ud_euid u)]\<rparr>)
    | Linux \<Rightarrow>
        res_bind (ok_or (Config ''no XDG data dir'') (ud_data u)) (\<lambda>data.
        res_bind (ok_or (Config ''no XDG state dir'')
          (case ud_state u of Some d \<Rightarrow> Some d | None \<Rightarrow> ud_data_local u)) (\<lambda>state.
        res_bind (ok_or (Config ''no XDG cache dir'') (ud_cache u)) (\<lambda>cache.
        Ok \<lparr>pt_data = data @ [''mail-mcp''],
            pt_logs = state @ [''mail-mcp'', ''logs''],
            pt_cache = cache @ [''mail-mcp''],
            pt_runtime = (case ud_runtime u of
                Some d \<Rightarrow> d @ [''mail-mcp'']
              | None \<Rightarrow> [''tmp'', ''mail-mcp-'' @ show_nat (ud_euid u)])\<rparr>)))
    | Windows \<Rightarrow>
        res_bind (ok_or (Config ''no LOCALAPPDATA'') (ud_data_local u)) (\<lambda>d.
        let local = d @ [''mail-mcp''] in
        Ok \<lparr>pt_data = local, pt_logs = local @ [''logs''], pt_cache = local @ [''cache''], pt_runtime = local @ [''run'']\<rparr>))"

definition with_root :: "path \<Rightarrow> Paths" where
  "with_root root = \<lparr>pt_data = root @ [''data''], pt_logs = root @ [''logs''], pt_cache = root @ [''cache''], pt_runtime = root @ [''run'']\<rparr>"

definition state_db :: "Paths \<Rightarrow> path" where
  "state_db p = pt_data p @ [''state.db'']"

definition endpoint_path :: "Paths \<Rightarrow> path" where
  "endpoint_path p = pt_data p @ [''endpoint.json'']"

text \<open>The socket of Unix systems; a named pipe of Windows is not a path of the file system.\<close>

definition ipc_socket :: "Paths \<Rightarrow> path" where
  "ipc_socket p = pt_runtime p @ [''ipc.sock'']"

text \<open>On Windows the address is that of a named pipe, by the name of the user.\<close>

definition windows_ipc_address :: "string option \<Rightarrow> string" where
  "windows_ipc_address username =
     [CHR 0x5C, CHR 0x5C] @ ''.'' @ [CHR 0x5C] @ ''pipe'' @ [CHR 0x5C] @ ''mail-mcp-'' @ unwrap_or ''default'' username"

definition pid_file :: "Paths \<Rightarrow> path" where
  "pid_file p = pt_runtime p @ [''daemon.pid'']"

text \<open>On Unix; the mode is octal 700.\<close>

definition ensure_dirs :: "Paths \<Rightarrow> (files, unit) io" where
  "ensure_dirs p =
     io_bind (create_dir_all (pt_data p)) (\<lambda>_.
     io_bind (create_dir_all (pt_logs p)) (\<lambda>_.
     io_bind (create_dir_all (pt_cache p)) (\<lambda>_.
     io_bind (create_dir_all (pt_runtime p)) (\<lambda>_.
     io_bind (set_permissions (pt_runtime p) 0x1C0) (\<lambda>_.
     set_permissions (pt_data p) 0x1C0)))))"

section \<open>What an operation can show\<close>

text \<open>
  \<open>displays A p f\<close>: at the path \<open>p\<close> there is now, and was at every moment observed so far, an entry
  that satisfies \<open>A\<close>.
\<close>

definition displays :: "(node option \<Rightarrow> bool) \<Rightarrow> path \<Rightarrow> files \<Rightarrow> bool" where
  "displays A p f \<longleftrightarrow> A (fs_nodes f p) \<and> (\<forall>g \<in> set (fs_trace f). A (g p))"

lemma displays_faults [simp]: "displays A p (f\<lparr>fs_faults := fs\<rparr>) = displays A p f"
  by (simp add: displays_def)

lemma displays_set_node: "displays A p f \<Longrightarrow> q = p \<longrightarrow> A n \<Longrightarrow> displays A p (set_node q n f)"
  by (auto simp: displays_def set_node_def observe_def)

lemma set_node_simps [simp]:
  "fs_nodes (set_node q n f) = (fs_nodes f)(q := n)" "fs_faults (set_node q n f) = fs_faults f"
  "fs_umask (set_node q n f) = fs_umask f"
  by (simp_all add: set_node_def observe_def)

lemma keeps_fs_call:
  assumes "\<And>f fs. P f \<Longrightarrow> P (f\<lparr>fs_faults := fs\<rparr>)" and "\<And>k f. P f \<Longrightarrow> P (partial k f)"
    and "\<And>f. P f \<Longrightarrow> P (snd (act f))"
  shows "keeps P (fs_call partial act)"
  using assms by (auto simp: keeps_def fs_call_def split: list.split option.split)

lemma append_bytes_displays: "displays A p f \<Longrightarrow> q \<noteq> p \<Longrightarrow> displays A p (append_bytes q bs f)"
  by (induction bs arbitrary: f) (auto intro!: displays_set_node split: option.split node.split)

text \<open>Operations on other paths leave a path alone.\<close>

lemma ops_on_others:
  "q \<noteq> p \<Longrightarrow> keeps (displays A p) (make_dir q)" "q \<noteq> p \<Longrightarrow> keeps (displays A p) (create_new q m)"
  "q \<noteq> p \<Longrightarrow> keeps (displays A p) (write_all q bs)" "keeps (displays A p) sync_all"
  unfolding make_dir_def create_new_def write_all_def sync_all_def
  by (rule keeps_fs_call; auto intro: displays_set_node append_bytes_displays split: option.split node.split)+

lemma create_dir_all_on_others: "\<not> prefix p q \<Longrightarrow> keeps (displays A p) (create_dir_all q)"
  unfolding create_dir_all_def by (rule keeps_for) (auto intro!: ops_on_others(1) simp: take_is_prefix)

text \<open>
  \<open>triple P m R S\<close>: from \<open>P\<close>, the call \<open>m\<close> ends with \<open>R\<close> when it succeeds and with \<open>S\<close> when it
  returns an error; it does not panic.
\<close>

definition triple :: "('w \<Rightarrow> bool) \<Rightarrow> ('w, 'a) io \<Rightarrow> ('a \<Rightarrow> 'w \<Rightarrow> bool) \<Rightarrow> ('w \<Rightarrow> bool) \<Rightarrow> bool" where
  "triple P m R S \<longleftrightarrow> (\<forall>w. P w \<longrightarrow> (case m w of
      (Ok a, w') \<Rightarrow> R a w' | (Err e, w') \<Rightarrow> S w' | (Panic q, w') \<Rightarrow> False))"

lemma triple_bind:
  "triple P m R S \<Longrightarrow> (\<And>a. triple (R a) (k a) T S) \<Longrightarrow> triple P (io_bind m k) T S"
  by (fastforce simp: triple_def io_bind_def split: prod.splits res.splits)

lemma triple_weaken:
  "triple P m R S \<Longrightarrow> (\<And>f. P' f \<Longrightarrow> P f) \<Longrightarrow> (\<And>a f. R a f \<Longrightarrow> R' a f) \<Longrightarrow> (\<And>f. S f \<Longrightarrow> S' f) \<Longrightarrow> triple P' m R' S'"
  by (fastforce simp: triple_def split: prod.splits res.splits)

lemma triple_keeps: "keeps P m \<Longrightarrow> panic_free m \<Longrightarrow> triple P m (\<lambda>_. P) P"
  by (auto simp: triple_def keeps_def panic_free_def split: prod.split res.split) (metis snd_conv fst_conv is_panic.simps(3))+

lemma triple_context: "triple P m R S \<Longrightarrow> triple P (with_context msg m) R S"
  by (fastforce simp: triple_def with_context_def split: prod.splits res.splits)

lemma triple_ignore: "(\<And>f. P f \<Longrightarrow> R () (snd (m f))) \<Longrightarrow> triple P (io_ignore m) R S"
  by (simp add: triple_def)

lemma fs_panic_free:
  assumes "\<And>f. \<not> is_panic (fst (act f))"
  shows "panic_free (fs_call partial act)"
  using assms by (auto simp: panic_free_def fs_call_def split: list.split option.split)

lemma create_dir_all_panic_free: "panic_free (create_dir_all p)"
  unfolding create_dir_all_def make_dir_def
  by (intro panic_free_for fs_panic_free) (auto split: option.split node.split)

lemma append_bytes_simps [simp]:
  "fs_umask (append_bytes q bs f) = fs_umask f" "fs_faults (append_bytes q bs f) = fs_faults f"
  by (induction bs arbitrary: f) (auto split: option.split node.split)

lemma append_bytes_node:
  "fs_nodes f q = Some (File m d) \<Longrightarrow> fs_nodes (append_bytes q bs f) = (fs_nodes f)(q \<mapsto> File m (d @ bs))"
  by (induction bs arbitrary: f d) auto

lemma umask_kept:
  "keeps (\<lambda>f. fs_umask f = u) (make_dir q)" "keeps (\<lambda>f. fs_umask f = u) (create_dir_all q)"
proof -
  show m: "keeps (\<lambda>f. fs_umask f = u) (make_dir q)" for q
    unfolding make_dir_def by (rule keeps_fs_call) (auto split: option.split node.split)
  show "keeps (\<lambda>f. fs_umask f = u) (create_dir_all q)"
    unfolding create_dir_all_def by (rule keeps_for) (rule m)
qed

lemma keeps_conj: "keeps P m \<Longrightarrow> keeps Q m \<Longrightarrow> keeps (\<lambda>f. P f \<and> Q f) m"
  by (simp add: keeps_def)

section \<open>Writing the endpoint file\<close>

text \<open>The stages of \<^const>\<open>write_endpoint\<close> before the rename leave the path \<open>p\<close> alone.\<close>

definition staged :: "path \<Rightarrow> path \<Rightarrow> node option \<Rightarrow> (node option \<Rightarrow> bool) \<Rightarrow> mode \<Rightarrow> files \<Rightarrow> bool" where
  "staged p tmp old B u f \<longleftrightarrow> displays (\<lambda>n. n = old) p f \<and> displays B tmp f \<and> fs_umask f = u"

lemma endpoint_tmp_props:
  assumes "p \<noteq> []"
  shows "endpoint_tmp pid p \<noteq> p" "\<not> prefix p (butlast p)" "\<not> prefix (endpoint_tmp pid p) (butlast p)"
    "butlast (endpoint_tmp pid p) = butlast p"
proof -
  show "endpoint_tmp pid p \<noteq> p"
    using assms by (metis append_butlast_last_id append_self_conv endpoint_tmp_def last_snoc list.distinct(1) append_is_Nil_conv)
  show "\<not> prefix p (butlast p)" "\<not> prefix (endpoint_tmp pid p) (butlast p)"
    using assms by (cases p rule: rev_cases; auto simp: endpoint_tmp_def dest!: prefix_length_le)+
  show "butlast (endpoint_tmp pid p) = butlast p" by (simp add: endpoint_tmp_def)
qed

lemma stage_dirs:
  assumes "\<not> prefix p q" "\<not> prefix tmp q"
  shows "triple (staged p tmp old B u) (create_dir_all q) (\<lambda>_. staged p tmp old B u) (staged p tmp old B u)"
  unfolding staged_def
  by (rule triple_keeps; intro keeps_conj create_dir_all_on_others create_dir_all_panic_free umask_kept assms)

lemma stage_create:
  assumes "tmp \<noteq> p" and "\<And>d. B (Some (File (m AND NOT u) d))"
  shows "triple (staged p tmp old B u) (create_new tmp m)
    (\<lambda>_ f. staged p tmp old B u f \<and> fs_nodes f tmp = Some (File (m AND NOT u) [])) (staged p tmp old B u)"
  using assms
  by (auto simp: triple_def create_new_def fs_call_def staged_def split: list.split option.split
      intro!: displays_set_node)

lemma append_bytes_displays_own:
  assumes "displays B q f" and "fs_nodes f q = Some (File m d)" and "\<And>d. B (Some (File m d))"
  shows "displays B q (append_bytes q bs f)"
  using assms(1,2)
proof (induction bs arbitrary: f d)
  case (Cons b bs)
  have "displays B q (append_bytes q bs (set_node q (Some (File m (d @ [b]))) f))"
    by (rule Cons.IH) (use Cons.prems assms(3) in \<open>simp_all add: displays_set_node\<close>)
  with Cons.prems show ?case by simp
qed simp

lemma stage_write:
  assumes "tmp \<noteq> p" and "\<And>d. B (Some (File m d))"
  shows "triple (\<lambda>f. staged p tmp old B u f \<and> fs_nodes f tmp = Some (File m [])) (write_all tmp bs)
    (\<lambda>_ f. staged p tmp old B u f \<and> fs_nodes f tmp = Some (File m bs)) (staged p tmp old B u)"
proof -
  have own: "displays B tmp (append_bytes tmp bs f)"
    if "displays B tmp f" "fs_nodes f tmp = Some (File m [])" for bs f
    using append_bytes_displays_own [OF that assms(2)] .
  have other: "displays A p (append_bytes tmp bs f)" if "displays A p f" for A bs f
    using append_bytes_displays [OF that assms(1)] .
  show ?thesis
    by (simp add: triple_def write_all_def fs_call_def staged_def append_bytes_node own other split: list.split option.split)
qed

lemma stage_sync: "triple (\<lambda>f. staged p tmp old B u f \<and> fs_nodes f tmp = n) (io_ignore sync_all)
    (\<lambda>_ f. staged p tmp old B u f \<and> fs_nodes f tmp = n) S"
  by (rule triple_ignore) (auto simp: sync_all_def fs_call_def staged_def split: list.split option.split)

lemma stage_rename:
  assumes "tmp \<noteq> p" and "B None"
  shows "triple (\<lambda>f. staged p tmp old B u f \<and> fs_nodes f tmp = Some n) (rename tmp p)
    (\<lambda>_ f. displays (\<lambda>x. x = old \<or> x = Some n) p f \<and> displays B tmp f \<and> fs_nodes f p = Some n \<and> fs_nodes f tmp = None)
    (staged p tmp old B u)"
  using assms
  by (auto simp: triple_def rename_def fs_call_def staged_def displays_def observe_def
      split: list.split option.split node.split)

text \<open>Without faults and with no file in the way, the directories are created.\<close>

definition clear_way :: "files \<Rightarrow> path \<Rightarrow> bool" where
  "clear_way f q \<longleftrightarrow> (\<forall>x. prefix x q \<longrightarrow> fs_nodes f x = None \<or> is_dir f x)"

lemma io_bind_ret_right [simp]: "io_bind m io_ret = m"
  by (rule ext) (auto simp: io_bind_def split: prod.split res.split)

lemma create_dir_all_simps [simp]:
  "create_dir_all [] = io_ret ()"
  "create_dir_all (q @ [c]) = io_bind (create_dir_all q) (\<lambda>_. make_dir (q @ [c]))"
proof -
  have "map (\<lambda>k. take (Suc k) (q @ [c])) [0..<length q] = map (\<lambda>k. take (Suc k) q) [0..<length q]"
    by (auto simp: take_Suc_conv_app_nth)
  moreover have "io_for make_dir [q @ [c]] = make_dir (q @ [c])"
    using io_bind_ret_right [of "make_dir (q @ [c])"] by (simp add: fun_eq_iff io_bind_def)
  ultimately have "io_for make_dir (map (\<lambda>k. take (Suc k) (q @ [c])) [0..<length q] @ [q @ [c]]) =
      io_bind (create_dir_all q) (\<lambda>_. make_dir (q @ [c]))"
    by (simp only: io_for_append create_dir_all_def)
  then show "create_dir_all (q @ [c]) = io_bind (create_dir_all q) (\<lambda>_. make_dir (q @ [c]))"
    by (simp add: create_dir_all_def)
qed (simp add: create_dir_all_def)

lemma create_dir_all_ok:
  assumes "fs_faults f = []" and "clear_way f q"
  shows "\<exists>f'. create_dir_all q f = (Ok (), f') \<and> fs_faults f' = [] \<and> fs_umask f' = fs_umask f \<and>
    (\<forall>x. prefix x q \<longrightarrow> is_dir f' x) \<and> (\<forall>x. \<not> prefix x q \<longrightarrow> fs_nodes f' x = fs_nodes f x)"
  using assms(2)
proof (induction q rule: rev_induct)
  case Nil
  then show ?case using assms(1) by (simp add: is_dir_def)
next
  case (snoc c q)
  have "clear_way f q" using snoc.prems by (auto simp: clear_way_def)
  from snoc.IH [OF this] obtain f1 where f1: "create_dir_all q f = (Ok (), f1)" "fs_faults f1 = []" "fs_umask f1 = fs_umask f"
    "\<forall>x. prefix x q \<longrightarrow> is_dir f1 x" "\<forall>x. \<not> prefix x q \<longrightarrow> fs_nodes f1 x = fs_nodes f x" by blast
  have n: "\<not> prefix (q @ [c]) q" by (auto dest: prefix_length_le)
  then have s: "fs_nodes f1 (q @ [c]) = fs_nodes f (q @ [c])" using f1(5) by blast
  obtain f2 where f2: "make_dir (q @ [c]) f1 = (Ok (), f2)" "fs_faults f2 = []" "fs_umask f2 = fs_umask f"
    "is_dir f2 (q @ [c])" "\<forall>x. x \<noteq> q @ [c] \<longrightarrow> fs_nodes f2 x = fs_nodes f1 x"
    using snoc.prems s f1(2,3)
    by (cases "fs_nodes f (q @ [c])"; cases "the (fs_nodes f (q @ [c]))")
      (auto simp: make_dir_def fs_call_def is_dir_def clear_way_def)
  have "is_dir f2 x" if "prefix x (q @ [c])" for x
    using that f1(4) f2(4,5) n by (cases "x = q @ [c]") (auto simp: is_dir_def)
  moreover have "fs_nodes f2 x = fs_nodes f x" if "\<not> prefix x (q @ [c])" for x
  proof -
    have "x \<noteq> q @ [c]" "\<not> prefix x q" using that by auto
    then show ?thesis using f1(5) f2(5) by metis
  qed
  ultimately show ?case using f1(1) f2(1-3) by (intro exI [of _ f2]) simp
qed

lemma private_mode: "(0x180 AND NOT u) AND 0x3F = (0 :: mode)"
proof -
  have "(0x180 AND NOT u) AND 0x3F = (0x180 AND 0x3F) AND NOT (u :: mode)" by (simp only: ac_simps)
  also have "(0x180 AND 0x3F :: mode) = 0" by simp
  finally show ?thesis by simp
qed

lemma write_endpoint_ok:
  assumes "p \<noteq> []" and "fs_faults f = []" and "clear_way f (butlast p)" and "fs_nodes f (endpoint_tmp pid p) = None"
    and "\<not> is_dir f p"
  shows "fst (write_endpoint X pid p info f) = Ok () \<and> fs_faults (snd (write_endpoint X pid p info f)) = []"
proof -
  let ?t = "endpoint_tmp pid p"
  note np = endpoint_tmp_props [OF assms(1)]
  obtain f1 where f1: "create_dir_all (butlast p) f = (Ok (), f1)" "fs_faults f1 = []"
    "is_dir f1 (butlast p)" "fs_nodes f1 ?t = None" "fs_nodes f1 p = fs_nodes f p"
    using create_dir_all_ok [OF assms(2,3)] np(2,3) assms(4) by fastforce
  have p: "\<nexists>m. fs_nodes f p = Some (Dir m)" using assms(1,5) by (simp add: is_dir_def)
  show ?thesis
    using f1 p np(1) assms(1)
    by (auto simp: write_endpoint_def Let_def io_bind_def with_context_def create_new_def write_all_def
        sync_all_def rename_def fs_call_def np(4) append_bytes_node observe_def split: option.split node.split)
qed

lemma fs_call_Ok:
  "fs_call partial act f = (Ok a, f') \<Longrightarrow> \<exists>fs. act (f\<lparr>fs_faults := fs\<rparr>) = (Ok a, f')"
  by (auto simp: fs_call_def split: list.splits option.splits) (metis files.surjective files.update_convs(3))

lemma with_context_Ok [simp]: "with_context msg m f = (Ok a, f') \<longleftrightarrow> m f = (Ok a, f')"
  by (auto simp: with_context_def split: prod.splits res.splits)

lemma write_endpoint_content:
  assumes "write_endpoint X pid p info f = (Ok (), f')"
  shows "\<exists>m. fs_nodes f' p = Some (File m (json_to_string_pretty X (endpoint_json info)))"
proof -
  let ?t = "endpoint_tmp pid p" and ?b = "json_to_string_pretty X (endpoint_json info)"
  have "p \<noteq> []" using assms by (auto simp: write_endpoint_def io_bind_Ok_iff)
  then have "p \<noteq> ?t" using endpoint_tmp_props(1) by metis
  obtain f1 f2 f3 where f: "create_new ?t 0x180 f1 = (Ok (), f2)" "write_all ?t ?b f2 = (Ok (), f3)"
    "rename ?t p (snd (sync_all f3)) = (Ok (), f')"
    using assms by (auto simp: write_endpoint_def Let_def io_bind_Ok_iff split: if_splits)
  obtain m where "fs_nodes f2 ?t = Some (File m [])"
    using f(1) unfolding create_new_def by (auto dest!: fs_call_Ok split: if_splits)
  then have "fs_nodes f3 ?t = Some (File m ?b)"
    using f(2) unfolding write_all_def by (auto dest!: fs_call_Ok simp: append_bytes_node)
  then have "fs_nodes (snd (sync_all f3)) ?t = Some (File m ?b)"
    by (simp add: sync_all_def fs_call_def split: list.split option.split)
  then show ?thesis
    using f(3) \<open>p \<noteq> ?t\<close> unfolding rename_def observe_def
    by (auto dest!: fs_call_Ok split: option.splits node.splits)
qed

section \<open>Properties\<close>

text \<open>
  C36: The endpoint file, which holds the bearer token, is replaced atomically and kept private. At
  every moment another process can see the path with its old entry or with the complete new
  content, never in between; whatever file the write creates gives no permission to group or
  others; on success the new content is there and the temporary file is gone; on failure the path
  is untouched. The write never panics, and it succeeds when no operation fails, nothing is in the
  way and no temporary file of the same name is left over.
\<close>

theorem endpoint_write_is_atomic:
  assumes "p \<noteq> []" and "fs_trace f = []"
    and "write_endpoint X pid p info f = (r, f')"
    and "new = Some (File (0x180 AND NOT (fs_umask f)) (json_to_string_pretty X (endpoint_json info)))"
  shows "(\<forall>g \<in> set (fs_trace f'). g p = fs_nodes f p \<or> g p = new) \<and>
    (\<forall>g m d. g \<in> set (fs_trace f') \<and> g (endpoint_tmp pid p) = Some (File m d) \<longrightarrow>
       g (endpoint_tmp pid p) = fs_nodes f (endpoint_tmp pid p) \<or> m AND 0x3F = 0) \<and>
    (0x180 AND NOT (fs_umask f)) AND 0x3F = 0 \<and>
    (r = Ok () \<longrightarrow> fs_nodes f' p = new \<and> fs_nodes f' (endpoint_tmp pid p) = None) \<and>
    (r \<noteq> Ok () \<longrightarrow> fs_nodes f' p = fs_nodes f p) \<and> \<not> is_panic r \<and>
    (fs_faults f = [] \<and> clear_way f (butlast p) \<and> fs_nodes f (endpoint_tmp pid p) = None \<and> \<not> is_dir f p \<longrightarrow> r = Ok ())"
proof -
  let ?t = "endpoint_tmp pid p" and ?m = "0x180 AND NOT (fs_umask f)" and ?b = "json_to_string_pretty X (endpoint_json info)"
  let ?B = "\<lambda>n. n = fs_nodes f ?t \<or> n = None \<or> (\<exists>d. n = Some (File ?m d))"
  let ?st = "staged p ?t (fs_nodes f p) ?B (fs_umask f)"
  let ?done = "\<lambda>f'. displays (\<lambda>x. x = fs_nodes f p \<or> x = new) p f' \<and> displays ?B ?t f' \<and> fs_nodes f' p = new \<and> fs_nodes f' ?t = None"
  note np = endpoint_tmp_props [OF assms(1)]
  have "triple ?st (write_endpoint X pid p info) (\<lambda>_. ?done) ?st"
    unfolding write_endpoint_def Let_def assms(4) using assms(1)
    by (simp, intro triple_bind [OF stage_dirs] triple_bind [OF triple_context [OF stage_create]]
        triple_bind [OF stage_write] triple_bind [OF stage_sync] triple_context [OF stage_rename] np) simp_all
  moreover have "?st f" using assms(2) by (simp add: staged_def displays_def)
  ultimately have o: "case (r, f') of (Ok a, f') \<Rightarrow> ?done f' | (Err e, f') \<Rightarrow> ?st f' | (Panic q, f') \<Rightarrow> False"
    unfolding triple_def using assms(3) by (metis (no_types, lifting))
  have m: "?m AND 0x3F = 0" by (simp add: private_mode)
  have ok: "r = Ok ()" if "fs_faults f = []" "clear_way f (butlast p)" "fs_nodes f ?t = None" "\<not> is_dir f p"
    using write_endpoint_ok [OF assms(1) that, of X info] assms(3) by simp
  show ?thesis using o m ok by (cases r) (auto simp: staged_def displays_def)
qed

definition demo_files :: files where
  "demo_files = \<lparr>fs_nodes = Map.empty, fs_umask = 0x12, fs_faults = [], fs_trace = []\<rparr>"

definition demo_endpoint :: McpEndpointInfo where
  "demo_endpoint = \<lparr>me_url = ''http://127.0.0.1:80/mcp'', me_bearer_token = ''tok'', me_stdio_shim_path = None\<rparr>"

theorem endpoint_write_is_atomic_witness:
  "\<exists>f'. write_endpoint (sample_crates [(''E'', endpoint_json demo_endpoint)]) 7 [''d'', ''endpoint.json''] demo_endpoint demo_files = (Ok (), f') \<and>
     fs_nodes f' [''d'', ''endpoint.json''] = Some (File (0x180 AND NOT 0x12) ''E'')"
proof -
  let ?X = "sample_crates [(''E'', endpoint_json demo_endpoint)]" and ?p = "[''d'', ''endpoint.json'']"
  obtain r f' where w: "write_endpoint ?X 7 ?p demo_endpoint demo_files = (r, f')" by (cases "write_endpoint ?X 7 ?p demo_endpoint demo_files")
  have "fs_faults demo_files = [] \<and> clear_way demo_files (butlast ?p) \<and> fs_nodes demo_files (endpoint_tmp 7 ?p) = None \<and> \<not> is_dir demo_files ?p"
    by (simp add: demo_files_def clear_way_def is_dir_def)
  moreover have "fs_trace demo_files = []" "fs_umask demo_files = 0x12" "json_to_string_pretty ?X (endpoint_json demo_endpoint) = ''E''"
    by (simp_all add: demo_files_def sample_crates_def)
  ultimately show ?thesis
    using endpoint_write_is_atomic [OF _ _ w refl] w by auto
qed

text \<open>The directories with the database, the token and the socket are private to the user.\<close>

lemma make_dir_keeps_dirs: "keeps (\<lambda>f. is_dir f q) (make_dir p)"
  unfolding make_dir_def by (rule keeps_fs_call) (auto simp: is_dir_def split: option.split node.split)

lemma create_dir_all_dir: "create_dir_all p f = (Ok (), f') \<Longrightarrow> is_dir f' p"
proof (cases p rule: rev_cases)
  case (snoc q c)
  assume "create_dir_all p f = (Ok (), f')"
  with snoc obtain f1 where "make_dir (q @ [c]) f1 = (Ok (), f')" by (auto simp: io_bind_Ok_iff)
  with snoc show ?thesis
    by (auto simp: make_dir_def fs_call_def is_dir_def split: list.splits option.splits node.splits)
qed (simp add: is_dir_def)

lemma create_dir_all_keeps_dirs: "create_dir_all p f = (r, f') \<Longrightarrow> is_dir f q \<Longrightarrow> is_dir f' q"
proof -
  have "keeps (\<lambda>f. is_dir f q) (create_dir_all p)"
    unfolding create_dir_all_def by (rule keeps_for) (rule make_dir_keeps_dirs)
  then show "create_dir_all p f = (r, f') \<Longrightarrow> is_dir f q \<Longrightarrow> is_dir f' q" by (auto dest!: keepsD)
qed

lemma set_permissions_Ok:
  "set_permissions p m f = (Ok (), f') \<Longrightarrow> is_dir f p \<Longrightarrow> p \<noteq> [] \<Longrightarrow>
   fs_nodes f' p = Some (Dir m) \<and> (\<forall>q. q \<noteq> p \<longrightarrow> fs_nodes f' q = fs_nodes f q)"
  by (auto simp: set_permissions_def fs_call_def is_dir_def split: list.splits option.splits node.splits)

lemma ensure_dirs_private:
  assumes "ensure_dirs p f = (Ok (), f')" and "pt_data p \<noteq> []" and "pt_runtime p \<noteq> []"
  shows "fs_nodes f' (pt_data p) = Some (Dir 0x1C0)" "fs_nodes f' (pt_runtime p) = Some (Dir 0x1C0)"
    "is_dir f' (pt_logs p)" "is_dir f' (pt_cache p)"
proof -
  obtain f1 f2 f3 f4 f5 where f: "create_dir_all (pt_data p) f = (Ok (), f1)" "create_dir_all (pt_logs p) f1 = (Ok (), f2)"
    "create_dir_all (pt_cache p) f2 = (Ok (), f3)" "create_dir_all (pt_runtime p) f3 = (Ok (), f4)"
    "set_permissions (pt_runtime p) 0x1C0 f4 = (Ok (), f5)" "set_permissions (pt_data p) 0x1C0 f5 = (Ok (), f')"
    using assms(1) by (auto simp: ensure_dirs_def io_bind_Ok_iff)
  have d: "is_dir f4 (pt_data p)" "is_dir f4 (pt_logs p)" "is_dir f4 (pt_cache p)" "is_dir f4 (pt_runtime p)"
    using f(1-4) [THEN create_dir_all_dir] f(2-4) [THEN create_dir_all_keeps_dirs] by simp_all
  note s5 = set_permissions_Ok [OF f(5) d(4) assms(3)]
  have d5: "is_dir f5 q" if "is_dir f4 q" for q
    using s5 that by (cases "q = pt_runtime p") (auto simp: is_dir_def)
  note s6 = set_permissions_Ok [OF f(6) d5 [OF d(1)] assms(2)]
  have "is_dir f' q" if "is_dir f4 q" for q
    using s6 d5 [OF that] by (cases "q = pt_data p") (auto simp: is_dir_def)
  then show "is_dir f' (pt_logs p)" "is_dir f' (pt_cache p)" using d by blast+
  show "fs_nodes f' (pt_data p) = Some (Dir 0x1C0)" using s6 by blast
  then show "fs_nodes f' (pt_runtime p) = Some (Dir 0x1C0)" using s5 s6 by (cases "pt_runtime p = pt_data p") auto
qed

end
