(* ===== verification/Lifecycle.thy ===== *)
theory Lifecycle
  imports Files
begin

text \<open>
  The lock that keeps a second daemon of the same user from starting (\<^verbatim>\<open>PidLock\<close> of \<^verbatim>\<open>lifecycle.rs\<close>), as
  a transition system over the processes that start, run, shut down or crash. The lock file is a
  directory entry that names an inode; advisory locks belong to inodes, and a process that opened
  the file keeps its inode also after the entry is gone. Truncating the file before the write, whose
  errors the code ignores, is taken to succeed.
\<close>

type_synonym inode = nat
type_synonym pid = nat

text \<open>
  Where a process is: not in the code; in \<open>acquire\<close> after opening the file; after taking the lock;
  running with the lock held; in \<open>drop\<close> between the unlock and the removal of the file.
\<close>

datatype proc = Outside | Opened inode | Locked inode | Running inode | Unlocked inode

record lock_state =
  lk_entry :: "inode option"
  lk_next :: inode
  lk_owner :: "inode \<rightharpoonup> pid"
  lk_data :: "inode \<Rightarrow> string"
  lk_proc :: "pid \<Rightarrow> proc"

datatype lock_label =
    Open pid
  | Lock pid
  | LockFails pid
  | WritePid pid
  | WriteFails pid
  | Unlock pid
  | Remove pid
  | Crash pid

definition lock_init :: "lock_state \<Rightarrow> bool" where
  "lock_init s \<longleftrightarrow> lk_entry s = None \<and> lk_owner s = Map.empty \<and> (\<forall>p. lk_proc s p = Outside)"

definition proc_inode :: "proc \<Rightarrow> inode option" where
  "proc_inode q = (case q of Outside \<Rightarrow> None | Opened i \<Rightarrow> Some i | Locked i \<Rightarrow> Some i | Running i \<Rightarrow> Some i | Unlocked i \<Rightarrow> Some i)"

definition set_proc :: "pid \<Rightarrow> proc \<Rightarrow> lock_state \<Rightarrow> lock_state" where
  "set_proc p q s = s\<lparr>lk_proc := (lk_proc s)(p := q)\<rparr>"

text \<open>Closing the file gives up the lock of the process, as a crash does.\<close>

definition release :: "pid \<Rightarrow> lock_state \<Rightarrow> lock_state" where
  "release p s = s\<lparr>lk_owner := (\<lambda>i. if lk_owner s i = Some p then None else lk_owner s i)\<rparr>"

inductive lock_step :: "lock_state \<Rightarrow> lock_label \<Rightarrow> lock_state \<Rightarrow> bool" where
  open_existing:
    "lk_proc s p = Outside \<Longrightarrow> lk_entry s = Some i \<Longrightarrow> lock_step s (Open p) (set_proc p (Opened i) s)"
| open_creates:
    "lk_proc s p = Outside \<Longrightarrow> lk_entry s = None \<Longrightarrow>
     lock_step s (Open p) (set_proc p (Opened (lk_next s)) (s\<lparr>lk_entry := Some (lk_next s), lk_next := Suc (lk_next s),
       lk_data := (lk_data s)(lk_next s := [])\<rparr>))"
| lock_taken:
    "lk_proc s p = Opened i \<Longrightarrow> lk_owner s i = None \<Longrightarrow>
     lock_step s (Lock p) (set_proc p (Locked i) (s\<lparr>lk_owner := (lk_owner s)(i \<mapsto> p)\<rparr>))"
| lock_refused:
    "lk_proc s p = Opened i \<Longrightarrow> lk_owner s i = Some q \<Longrightarrow> lock_step s (LockFails p) (set_proc p Outside s)"
| pid_written:
    "lk_proc s p = Locked i \<Longrightarrow>
     lock_step s (WritePid p) (set_proc p (Running i) (s\<lparr>lk_data := (lk_data s)(i := show_nat p @ [CHR 0x0A])\<rparr>))"
| pid_write_fails:
    "lk_proc s p = Locked i \<Longrightarrow> lock_step s (WriteFails p) (set_proc p Outside (release p s))"
| unlocked:
    "lk_proc s p = Running i \<Longrightarrow> lock_step s (Unlock p) (set_proc p (Unlocked i) (release p s))"
| removed:
    "lk_proc s p = Unlocked i \<Longrightarrow> lock_step s (Remove p) (set_proc p Outside (s\<lparr>lk_entry := None\<rparr>))"
| crashed:
    "lk_proc s p \<noteq> Outside \<Longrightarrow> lock_step s (Crash p) (set_proc p Outside (release p s))"

inductive_cases lock_stepE: "lock_step s l t"

interpretation pidlock: transition_system lock_init lock_step .

text \<open>\<open>acquire\<close> and \<open>drop\<close> of one process as sequences of steps.\<close>

definition acquire_steps :: "pid \<Rightarrow> lock_label list" where
  "acquire_steps p = [Open p, Lock p, WritePid p]"

definition drop_steps :: "pid \<Rightarrow> lock_label list" where
  "drop_steps p = [Unlock p, Remove p]"

definition running :: "lock_state \<Rightarrow> pid set" where
  "running s = {p. \<exists>i. lk_proc s p = Running i}"

section \<open>Invariants\<close>

text \<open>A lock is owned exactly by the process that is past taking it; inodes are used once.\<close>

definition lock_inv :: "lock_state \<Rightarrow> bool" where
  "lock_inv s \<longleftrightarrow> (\<forall>i p. lk_owner s i = Some p \<longleftrightarrow> lk_proc s p \<in> {Locked i, Running i}) \<and>
     (\<forall>p i. proc_inode (lk_proc s p) = Some i \<longrightarrow> i < lk_next s) \<and>
     (\<forall>i. lk_entry s = Some i \<longrightarrow> i < lk_next s) \<and>
     (\<forall>p i. lk_proc s p = Running i \<longrightarrow> lk_data s i = show_nat p @ [CHR 0x0A])"

lemma set_proc_simps [simp]:
  "lk_proc (set_proc p q s) = (lk_proc s)(p := q)" "lk_entry (set_proc p q s) = lk_entry s"
  "lk_owner (set_proc p q s) = lk_owner s" "lk_next (set_proc p q s) = lk_next s" "lk_data (set_proc p q s) = lk_data s"
  by (simp_all add: set_proc_def)

lemma release_simps [simp]:
  "lk_proc (release p s) = lk_proc s" "lk_entry (release p s) = lk_entry s" "lk_next (release p s) = lk_next s"
  "lk_data (release p s) = lk_data s" "lk_owner (release p s) i = Some q \<longleftrightarrow> lk_owner s i = Some q \<and> q \<noteq> p"
  by (auto simp: release_def)

lemma lock_inv_init: "lock_init s \<Longrightarrow> lock_inv s"
  by (simp add: lock_init_def lock_inv_def proc_inode_def)

lemma lock_inv_owner: "lock_inv s \<Longrightarrow> lk_proc s p \<in> {Locked i, Running i} \<Longrightarrow> lk_owner s i = Some p"
  by (simp add: lock_inv_def)

lemma lock_inv_step:
  assumes "lock_inv s" and "lock_step s l t"
  shows "lock_inv t"
proof -
  have free: "lk_proc s p \<noteq> Locked i \<and> lk_proc s p \<noteq> Running i" if "lk_owner s i = None" for i p
    using lock_inv_owner [OF assms(1), of p i] that by auto
  have excl: "lk_proc s q \<noteq> Running i" if "lk_proc s p = Locked i" for p q i
    using lock_inv_owner [OF assms(1), of p i] lock_inv_owner [OF assms(1), of q i] that by auto
  from assms(2,1) show ?thesis
    by (elim lock_stepE) (auto simp: lock_inv_def proc_inode_def less_Suc_eq free excl split: proc.splits if_splits)
qed

lemma reach_inv: "pidlock.reach s \<Longrightarrow> lock_inv s"
  by (rule pidlock.invariant) (auto intro: lock_inv_init lock_inv_step)

text \<open>As long as no process has removed the file, everybody uses the inode of the entry.\<close>

definition one_inode :: "lock_state \<Rightarrow> bool" where
  "one_inode s \<longleftrightarrow> (\<forall>p i. proc_inode (lk_proc s p) = Some i \<longrightarrow> lk_entry s = Some i)"

lemma one_inode_step: "one_inode s \<Longrightarrow> lock_step s l t \<Longrightarrow> (\<forall>p. l \<noteq> Remove p) \<Longrightarrow> one_inode t"
  by (erule lock_stepE) (auto simp: one_inode_def proc_inode_def split: proc.splits if_splits)

lemma one_inode_path:
  assumes "pidlock.path s ls t" and "one_inode s" and "\<forall>p. Remove p \<notin> set ls"
  shows "one_inode t"
  using assms by (induction rule: pidlock.path.induct) (auto intro: one_inode_step)

lemma running_unique:
  assumes "lock_inv s" "one_inode s" "lk_proc s p = Running i" "lk_proc s q = Running j"
  shows "p = q" "i = j"
proof -
  have "proc_inode (lk_proc s p) = Some i" "proc_inode (lk_proc s q) = Some j"
    using assms(3,4) by (simp_all add: proc_inode_def)
  then have "lk_entry s = Some i" "lk_entry s = Some j" using assms(2) unfolding one_inode_def by blast+
  then show ij: "i = j" by simp
  have "lk_owner s i = Some p" "lk_owner s j = Some q" using assms by (auto simp: lock_inv_def)
  with ij show "p = q" by simp
qed

text \<open>The relation is a function of the label: a schedule can be run.\<close>

fun lock_exec :: "lock_label \<Rightarrow> lock_state \<Rightarrow> lock_state option" where
  "lock_exec (Open p) s = (if lk_proc s p \<noteq> Outside then None
     else case lk_entry s of
       Some i \<Rightarrow> Some (set_proc p (Opened i) s)
     | None \<Rightarrow> Some (set_proc p (Opened (lk_next s)) (s\<lparr>lk_entry := Some (lk_next s), lk_next := Suc (lk_next s),
         lk_data := (lk_data s)(lk_next s := [])\<rparr>)))"
| "lock_exec (Lock p) s = (case lk_proc s p of
       Opened i \<Rightarrow> if lk_owner s i = None then Some (set_proc p (Locked i) (s\<lparr>lk_owner := (lk_owner s)(i \<mapsto> p)\<rparr>)) else None
     | _ \<Rightarrow> None)"
| "lock_exec (LockFails p) s = (case lk_proc s p of
       Opened i \<Rightarrow> if lk_owner s i \<noteq> None then Some (set_proc p Outside s) else None
     | _ \<Rightarrow> None)"
| "lock_exec (WritePid p) s = (case lk_proc s p of
       Locked i \<Rightarrow> Some (set_proc p (Running i) (s\<lparr>lk_data := (lk_data s)(i := show_nat p @ [CHR 0x0A])\<rparr>))
     | _ \<Rightarrow> None)"
| "lock_exec (WriteFails p) s = (case lk_proc s p of
       Locked i \<Rightarrow> Some (set_proc p Outside (release p s))
     | _ \<Rightarrow> None)"
| "lock_exec (Unlock p) s = (case lk_proc s p of
       Running i \<Rightarrow> Some (set_proc p (Unlocked i) (release p s))
     | _ \<Rightarrow> None)"
| "lock_exec (Remove p) s = (case lk_proc s p of
       Unlocked i \<Rightarrow> Some (set_proc p Outside (s\<lparr>lk_entry := None\<rparr>))
     | _ \<Rightarrow> None)"
| "lock_exec (Crash p) s = (if lk_proc s p = Outside then None else Some (set_proc p Outside (release p s)))"

lemma lock_exec_iff: "lock_step s l t \<longleftrightarrow> lock_exec l s = Some t"
proof
  show "lock_step s l t \<Longrightarrow> lock_exec l s = Some t" by (erule lock_stepE) auto
  show "lock_exec l s = Some t \<Longrightarrow> lock_step s l t"
    by (cases l) (auto intro: lock_step.intros split: proc.splits option.splits if_splits)
qed

fun lock_run :: "lock_label list \<Rightarrow> lock_state \<Rightarrow> lock_state option" where
  "lock_run [] s = Some s"
| "lock_run (l # ls) s = Option.bind (lock_exec l s) (lock_run ls)"

lemma lock_run_path: "lock_run ls s = Some t \<Longrightarrow> pidlock.path s ls t"
  by (induction ls arbitrary: s)
    (auto simp: lock_exec_iff bind_eq_Some_conv intro: pidlock.path.intros)

definition lock_start :: lock_state where
  "lock_start = \<lparr>lk_entry = None, lk_next = 0, lk_owner = Map.empty, lk_data = (\<lambda>_. []), lk_proc = (\<lambda>_. Outside)\<rparr>"

text \<open>A start and an orderly shutdown, with nobody else around, lead back to the beginning.\<close>

lemma start_stop:
  assumes "lock_init s"
  shows "\<exists>t. lock_run (acquire_steps p @ drop_steps p) s = Some t \<and> lock_init t"
  using assms by (auto simp: acquire_steps_def drop_steps_def lock_init_def release_def fun_eq_iff)

section \<open>Properties\<close>

text \<open>
  C37: Among processes that start, crash and fail to start in any order, at most one daemon runs, as
  long as none has shut down: whatever the schedule, two running processes are the same, the lock
  file holds its identifier, any other start is refused, and after a crash the next start succeeds.
\<close>

theorem one_daemon_until_shutdown:
  assumes "lock_init s0" and "pidlock.path s0 ls s" and "\<forall>p. Remove p \<notin> set ls"
  shows "(\<forall>p q. p \<in> running s \<and> q \<in> running s \<longrightarrow> p = q) \<and>
    (\<forall>p. p \<in> running s \<longrightarrow> map_option (lk_data s) (lk_entry s) = Some (show_nat p @ [CHR 0x0A]) \<and>
       (\<forall>q. lk_proc s q = Outside \<longrightarrow> lock_run [Open q, Lock q] s = None \<and>
         (\<exists>t. lock_run [Open q, LockFails q] s = Some t \<and> running t = running s)) \<and>
       (\<forall>q. q \<noteq> p \<and> lk_proc s q = Outside \<longrightarrow>
         (\<exists>t. lock_run (Crash p # acquire_steps q) s = Some t \<and> running t = {q})))"
proof -
  have inv: "lock_inv s"
    using reach_inv pidlock.path_reach [OF assms(2) pidlock.reach_init [OF assms(1)]] by blast
  have "one_inode s0" using assms(1) by (simp add: one_inode_def lock_init_def proc_inode_def)
  from one_inode_path [OF assms(2) this assms(3)] have one: "one_inode s" .
  have uniq: "p = q" if "p \<in> running s" "q \<in> running s" for p q
    using that running_unique [OF inv one] unfolding running_def by blast
  show ?thesis
  proof (intro conjI allI impI)
    show "p = q" if "p \<in> running s \<and> q \<in> running s" for p q using uniq that by blast
  next
    fix p assume p: "p \<in> running s"
    then obtain i where i: "lk_proc s p = Running i" by (auto simp: running_def)
    have "proc_inode (lk_proc s p) = Some i" using i by (simp add: proc_inode_def)
    then have e: "lk_entry s = Some i" using one by (simp add: one_inode_def)
    have o: "lk_owner s i = Some p" "lk_data s i = show_nat p @ [CHR 0x0A]" using inv i by (auto simp: lock_inv_def)
    have r: "running s = {p}" using p uniq by blast
    show "map_option (lk_data s) (lk_entry s) = Some (show_nat p @ [CHR 0x0A])" using e o by simp
    fix q assume q: "lk_proc s q = Outside"
    show "lock_run [Open q, Lock q] s = None" using q e o by simp
    have "running (set_proc q Outside (set_proc q (Opened i) s)) = running s"
      using q by (auto simp: running_def)
    then show "\<exists>t. lock_run [Open q, LockFails q] s = Some t \<and> running t = running s" using q e o by simp
  next
    fix p q assume p: "p \<in> running s" and q: "q \<noteq> p \<and> lk_proc s q = Outside"
    then obtain i where i: "lk_proc s p = Running i" by (auto simp: running_def)
    have "proc_inode (lk_proc s p) = Some i" using i by (simp add: proc_inode_def)
    then have e: "lk_entry s = Some i" using one by (simp add: one_inode_def)
    have o: "lk_owner s i = Some p" using inv i by (auto simp: lock_inv_def)
    have "running s = {p}" using p uniq by blast
    then have r: "lk_proc s x \<noteq> Running j" if "x \<noteq> p" for x j using that unfolding running_def by blast
    show "\<exists>t. lock_run (Crash p # acquire_steps q) s = Some t \<and> running t = {q}"
      using q e o i r by (auto simp: acquire_steps_def release_def running_def)
  qed
qed

theorem one_daemon_until_shutdown_witness:
  "\<exists>s. lock_run (acquire_steps 1) lock_start = Some s \<and> 1 \<in> running s \<and> lock_run [Open 2, Lock 2] s = None"
proof -
  obtain s where s: "lock_run (acquire_steps 1) lock_start = Some s" and r: "1 \<in> running s" "lk_proc s 2 = Outside"
    by (simp add: acquire_steps_def lock_start_def running_def)
  have "lock_init lock_start" by (simp add: lock_init_def lock_start_def)
  from one_daemon_until_shutdown [OF this lock_run_path [OF s]] r have "lock_run [Open 2, Lock 2] s = None"
    by (simp add: acquire_steps_def)
  with s r show ?thesis by blast
qed

text \<open>
  Shutting down breaks the exclusion: the file is unlocked before it is removed. A process that
  opened the file before the removal takes the lock of the old inode, the removal takes away the
  entry it relies on, and the next process creates and locks a new file: two daemons run.
\<close>

lemma two_daemons_after_shutdown:
  "\<exists>s. pidlock.path lock_start (acquire_steps 1 @ [Open 2, Unlock 1, Lock 2, WritePid 2, Remove 1] @ acquire_steps 3) s \<and>
    running s = {2, 3}"
proof -
  let ?ls = "acquire_steps 1 @ [Open 2, Unlock 1, Lock 2, WritePid 2, Remove 1] @ acquire_steps 3"
  have "\<exists>s. lock_run ?ls lock_start = Some s \<and> running s = {2, 3}"
    by (auto simp: acquire_steps_def lock_start_def release_def running_def)
  then show ?thesis using lock_run_path by blast
qed

end
