(* ===== verification/Logging.thy ===== *)
theory Logging
  imports Files
begin

text \<open>
  Logging (\<^verbatim>\<open>logging.rs\<close>): the redaction of free text before it is logged, and the set-up of the log.

  Redaction is three regular expressions of the package regex, applied one after the other. The
  patterns are translated here, piece by piece; the engine is a parameter with its documented
  behaviour: it replaces the leftmost matches, without overlaps, and among the matches at one place
  takes the one that a greedy search finds first.
\<close>

section \<open>Patterns\<close>

text \<open>
  A text is the list of its Unicode scalar values, which is what the engine matches on. \<open>Word\<close> is the
  class \<^verbatim>\<open>\w\<close> and \<open>Space\<close> the class \<^verbatim>\<open>\s\<close>, both in their Unicode versions.
\<close>

type_synonym scalars = "nat list"

definition lit :: "string \<Rightarrow> scalars" where
  "lit s = map of_char s"

datatype item = Word | Space | Range nat nat

datatype piece = Boundary | Single "item list" | AtLeast nat "item list"

definition is_space :: "nat \<Rightarrow> bool" where
  "is_space c \<longleftrightarrow> 9 \<le> c \<and> c \<le> 13 \<or> 0x2000 \<le> c \<and> c \<le> 0x200A \<or>
     c \<in> set [0x20, 0x85, 0xA0, 0x1680, 0x2028, 0x2029, 0x202F, 0x205F, 0x3000]"

fun in_item :: "(nat \<Rightarrow> bool) \<Rightarrow> item \<Rightarrow> nat \<Rightarrow> bool" where
  "in_item W Word c = W c"
| "in_item W Space c = is_space c"
| "in_item W (Range a b) c = (a \<le> c \<and> c \<le> b)"

definition in_class :: "(nat \<Rightarrow> bool) \<Rightarrow> item list \<Rightarrow> nat \<Rightarrow> bool" where
  "in_class W cl c = list_ex (\<lambda>i. in_item W i c) cl"

definition chars :: "string \<Rightarrow> item list" where
  "chars s = map (\<lambda>c. Range (of_char c) (of_char c)) s"

definition letters :: "item list" where
  "letters = [Range 65 90, Range 97 122]"

definition digits :: "item list" where
  "digits = [Range 48 57]"

text \<open>\<^verbatim>\<open>\b[\w._%+-]+@[\w.-]+\.[A-Za-z]{2,}\b\<close>\<close>

definition EMAIL :: "piece list" where
  "EMAIL = [Boundary, AtLeast 1 (Word # chars ''._%+-''), Single (chars ''@''),
     AtLeast 1 (Word # chars ''.-''), Single (chars ''.''), AtLeast 2 letters, Boundary]"

text \<open>\<^verbatim>\<open>\b4/[A-Za-z0-9_\-]{12,}\b\<close>\<close>

definition CODE :: "piece list" where
  "CODE = [Boundary, Single (chars ''4''), Single (chars ''/''),
     AtLeast 12 (letters @ digits @ chars ''_-''), Boundary]"

text \<open>
  \<^verbatim>\<open>(?i)bearer\s+[A-Za-z0-9._\-]{20,}\<close>: the flag closes every class under simple case folding, which
  adds the long s (\<open>U+017F\<close>) and the Kelvin sign (\<open>U+212A\<close>) to the letters.
\<close>

definition BEARER :: "piece list" where
  "BEARER = [Single (chars ''Bb''), Single (chars ''Ee''), Single (chars ''Aa''), Single (chars ''Rr''),
     Single (chars ''Ee''), Single (chars ''Rr''), AtLeast 1 [Space],
     AtLeast 20 (letters @ digits @ chars ''._-'' @ [Range 0x17F 0x17F, Range 0x212A 0x212A])]"

section \<open>The engine\<close>

text \<open>
  The lengths of the matches of a pattern at a place of a text, in the order in which they are tried:
  \<open>l\<close> is the text before the place, which only \<^verbatim>\<open>\b\<close> looks at, and \<open>s\<close> the text after it.
\<close>

definition boundary :: "(nat \<Rightarrow> bool) \<Rightarrow> scalars \<Rightarrow> scalars \<Rightarrow> bool" where
  "boundary W l s \<longleftrightarrow> (l \<noteq> [] \<and> W (last l)) \<noteq> (s \<noteq> [] \<and> W (hd s))"

fun lens :: "(nat \<Rightarrow> bool) \<Rightarrow> piece list \<Rightarrow> scalars \<Rightarrow> scalars \<Rightarrow> nat list" where
  "lens W [] l s = [0]"
| "lens W (Boundary # r) l s = (if boundary W l s then lens W r l s else [])"
| "lens W (Single cl # r) l s = (case s of
      [] \<Rightarrow> []
    | x # xs \<Rightarrow> if in_class W cl x then map Suc (lens W r (l @ [x]) xs) else [])"
| "lens W (AtLeast n cl # r) l s =
     concat (map (\<lambda>k. map ((+) k) (lens W r (l @ take k s) (drop k s)))
       (rev [n ..< Suc (length (takeWhile (in_class W cl) s))]))"

text \<open>A match \<open>m\<close> between \<open>l\<close> and \<open>s\<close>, and the match that the search finds first.\<close>

definition found :: "(nat \<Rightarrow> bool) \<Rightarrow> piece list \<Rightarrow> scalars \<Rightarrow> scalars \<Rightarrow> scalars \<Rightarrow> bool" where
  "found W r l m s \<longleftrightarrow> length m \<in> set (lens W r l (m @ s))"

definition preferred :: "(nat \<Rightarrow> bool) \<Rightarrow> piece list \<Rightarrow> scalars \<Rightarrow> scalars \<Rightarrow> scalars \<Rightarrow> bool" where
  "preferred W r l m s \<longleftrightarrow> (\<exists>ns. lens W r l (m @ s) = length m # ns)"

text \<open>
  \<open>replaces W r rep l s t\<close>: from the place after \<open>l\<close> on, replacing the matches of \<open>r\<close> in \<open>s\<close> by \<open>rep\<close>
  gives \<open>t\<close>. The gap \<open>g\<close> before a match is a stretch in which no match begins.
\<close>

inductive replaces :: "(nat \<Rightarrow> bool) \<Rightarrow> piece list \<Rightarrow> scalars \<Rightarrow> scalars \<Rightarrow> scalars \<Rightarrow> scalars \<Rightarrow> bool"
  for W r rep where
  no_match: "(\<And>g s'. s = g @ s' \<Longrightarrow> lens W r (l @ g) s' = []) \<Longrightarrow> replaces W r rep l s s"
| a_match: "(\<And>g1 g2. g = g1 @ g2 \<Longrightarrow> g2 \<noteq> [] \<Longrightarrow> lens W r (l @ g1) (g2 @ m @ s) = []) \<Longrightarrow>
    m \<noteq> [] \<Longrightarrow> preferred W r (l @ g) m s \<Longrightarrow> replaces W r rep (l @ g @ m) s t \<Longrightarrow>
    replaces W r rep l (g @ m @ s) (g @ rep @ t)"

record regex_crate =
  rx_word :: "nat \<Rightarrow> bool"
  rx_replace_all :: "piece list \<Rightarrow> scalars \<Rightarrow> scalars \<Rightarrow> scalars"

text \<open>
  What is relied on of the package: the tables behind \<^verbatim>\<open>\w\<close> for ASCII, white space and the two
  letters above, and the search and replacement for the three patterns at hand, none of which
  matches the empty text. The replacement is literal as long as it has no dollar sign.
\<close>

definition word_laws :: "(nat \<Rightarrow> bool) \<Rightarrow> bool" where
  "word_laws W \<longleftrightarrow> (\<forall>c < 128. W c = (in_class W (letters @ digits @ chars ''_'') c)) \<and>
     (\<forall>c. is_space c \<longrightarrow> \<not> W c) \<and> W 0x17F \<and> W 0x212A"

definition regex_laws :: "regex_crate \<Rightarrow> bool" where
  "regex_laws R \<longleftrightarrow> word_laws (rx_word R) \<and>
     (\<forall>r \<in> set [EMAIL, CODE, BEARER]. \<forall>rep s. of_char CHR ''$'' \<notin> set rep \<longrightarrow>
        replaces (rx_word R) r rep [] s (rx_replace_all R r rep s))"

definition redact :: "regex_crate \<Rightarrow> scalars \<Rightarrow> scalars" where
  "redact R s =
     (let s = rx_replace_all R EMAIL (lit ''[redacted-email]'') s;
          s = rx_replace_all R CODE (lit ''[redacted-code]'') s;
          s = rx_replace_all R BEARER (lit ''[redacted-bearer]'') s
      in s)"

section \<open>The set-up\<close>

text \<open>
  What \<open>init_tracing\<close> meets of the packages tracing-appender and tracing-subscriber: the filter of the
  environment, if there is a valid one; why the first log file cannot be opened, which is a panic of
  \<^verbatim>\<open>rolling::daily\<close>; and whether the process has a subscriber already, which is a panic of \<^verbatim>\<open>init\<close>.
\<close>

record tracing =
  tr_env_filter :: "string option"
  tr_appender_error :: "path \<Rightarrow> string \<Rightarrow> string option"
  tr_subscribed :: bool

record subscriber =
  sb_filter :: string
  sb_log_dir :: path
  sb_log_prefix :: string
  sb_json :: bool

definition init_tracing :: "tracing \<Rightarrow> path \<Rightarrow> bool \<Rightarrow> (files, subscriber) io" where
  "init_tracing T logs_dir json =
     io_bind (create_dir_all logs_dir) (\<lambda>_.
     io_res (case tr_appender_error T logs_dir ''daemon.log'' of
         Some e \<Rightarrow> Panic e
       | None \<Rightarrow> (let env = unwrap_or ''info,mail_mcp=debug'' (tr_env_filter T) in
           if tr_subscribed T then Panic ''failed to set global default subscriber''
           else Ok \<lparr>sb_filter = env, sb_log_dir = logs_dir, sb_log_prefix = ''daemon.log'', sb_json = json\<rparr>)))"

section \<open>Matches\<close>

lemma found_Nil: "found W [] l m s \<longleftrightarrow> m = []"
  by (simp add: found_def)

lemma found_Boundary: "found W (Boundary # r) l m s \<longleftrightarrow> boundary W l (m @ s) \<and> found W r l m s"
  by (simp add: found_def)

lemma found_Single:
  "found W (Single cl # r) l m s \<longleftrightarrow> (\<exists>x m'. m = x # m' \<and> in_class W cl x \<and> found W r (l @ [x]) m' s)"
  by (cases m) (auto simp: found_def split: list.splits)

lemma found_AtLeast:
  "found W (AtLeast n cl # r) l m s \<longleftrightarrow>
    (\<exists>a m'. m = a @ m' \<and> n \<le> length a \<and> list_all (in_class W cl) a \<and> found W r (l @ a) m' s)"
  (is "?lhs \<longleftrightarrow> ?rhs")
proof
  assume ?lhs
  then obtain k j where k: "n \<le> k" "k \<le> length (takeWhile (in_class W cl) (m @ s))"
    and j: "j \<in> set (lens W r (l @ take k (m @ s)) (drop k (m @ s)))" and e: "length m = k + j"
    by (auto simp: found_def less_Suc_eq_le)
  have a: "take k (m @ s) = take k m" "drop k (m @ s) = drop k m @ s" "length (take k m) = k" using e by auto
  have "list_all (in_class W cl) (take k (m @ s))"
    using k(2) by (metis list.pred_set order_trans set_takeWhileD takeWhile_eq_take take_take min.absorb1 in_set_takeD)
  with k j e a have "n \<le> length (take k m) \<and> list_all (in_class W cl) (take k m) \<and> found W r (l @ take k m) (drop k m) s"
    by (simp add: found_def)
  then show ?rhs using append_take_drop_id [of k m] by metis
next
  assume ?rhs
  then obtain a m' where m: "m = a @ m'" and n: "n \<le> length a" and a: "list_all (in_class W cl) a"
    and f: "found W r (l @ a) m' s" by blast
  have "length a \<le> length (takeWhile (in_class W cl) (m @ s))"
    using a by (simp add: m list_all_iff takeWhile_append2)
  with n f m show ?lhs
    by (auto simp: found_def less_Suc_eq_le intro!: bexI [of _ "length a"])
qed

lemmas found_simps = found_Nil found_Boundary found_Single found_AtLeast

lemma preferred_found: "preferred W r l m s \<Longrightarrow> found W r l m s"
  by (auto simp: preferred_def found_def)

lemma not_found: "lens W r l (m @ s) = [] \<Longrightarrow> \<not> found W r l m s"
  by (simp add: found_def)


definition clean :: "(nat \<Rightarrow> bool) \<Rightarrow> piece list \<Rightarrow> scalars \<Rightarrow> bool" where
  "clean W r s \<longleftrightarrow> (\<forall>l m s'. s = l @ m @ s' \<longrightarrow> \<not> found W r l m s')"

text \<open>What a match of each pattern looks like, apart from its surroundings.\<close>

definition email_body :: "(nat \<Rightarrow> bool) \<Rightarrow> scalars \<Rightarrow> bool" where
  "email_body W m \<longleftrightarrow> (\<exists>a b c. m = a @ 64 # b @ 46 # c \<and> a \<noteq> [] \<and> list_all (in_class W (Word # chars ''._%+-'')) a \<and>
     b \<noteq> [] \<and> list_all (in_class W (Word # chars ''.-'')) b \<and> 2 \<le> length c \<and> list_all (in_class W letters) c)"

definition code_body :: "(nat \<Rightarrow> bool) \<Rightarrow> scalars \<Rightarrow> bool" where
  "code_body W m \<longleftrightarrow> (\<exists>c. m = 52 # 47 # c \<and> 12 \<le> length c \<and> list_all (in_class W (letters @ digits @ chars ''_-'')) c)"

definition token_class :: "item list" where
  "token_class = letters @ digits @ chars ''._-'' @ [Range 0x17F 0x17F, Range 0x212A 0x212A]"

definition bearer_body :: "(nat \<Rightarrow> bool) \<Rightarrow> scalars \<Rightarrow> bool" where
  "bearer_body W m \<longleftrightarrow> (\<exists>b w t. m = b @ w @ t \<and> length b = 6 \<and> list_all (in_class W letters) b \<and>
     w \<noteq> [] \<and> list_all is_space w \<and> list_all (in_class W token_class) t)"

lemmas class_defs = in_class_def chars_def letters_def digits_def token_class_def

lemma found_EMAIL:
  "found W EMAIL l m s \<longleftrightarrow> email_body W m \<and> boundary W l (m @ s) \<and> boundary W (l @ m) s"
proof -
  have "in_class W (chars ''@'') x \<longleftrightarrow> x = 64" "in_class W (chars ''.'') x \<longleftrightarrow> x = 46" for x
    by (auto simp: class_defs)
  then show ?thesis
    unfolding EMAIL_def found_simps email_body_def by (auto simp: Suc_le_eq) metis+
qed

lemma found_CODE:
  "found W CODE l m s \<longleftrightarrow> code_body W m \<and> boundary W l (m @ s) \<and> boundary W (l @ m) s"
proof -
  have "in_class W (chars ''4'') x \<longleftrightarrow> x = 52" "in_class W (chars ''/'') x \<longleftrightarrow> x = 47" for x
    by (auto simp: class_defs)
  then show ?thesis
    unfolding CODE_def found_simps code_body_def by auto
qed

definition bearer_word :: "item list list" where
  "bearer_word = map chars [''Bb'', ''Ee'', ''Aa'', ''Rr'', ''Ee'', ''Rr'']"

lemma BEARER_pieces: "BEARER = map Single bearer_word @ [AtLeast 1 [Space], AtLeast 20 token_class]"
  by (simp add: BEARER_def bearer_word_def token_class_def)

lemma found_Singles:
  "found W (map Single cs @ r) l m s \<longleftrightarrow> (\<exists>a m'. m = a @ m' \<and> list_all2 (in_class W) cs a \<and> found W r (l @ a) m' s)"
proof (induction cs arbitrary: l m)
  case (Cons c cs)
  show ?case unfolding list.map append_Cons found_Single Cons.IH list_all2_Cons1
    by (metis append_Cons append_assoc append_Nil)
qed simp

lemma bearer_word_letters: "list_all2 (in_class W) bearer_word b \<Longrightarrow> list_all (in_class W letters) b \<and> length b = 6"
proof -
  have sub: "in_class W c x \<Longrightarrow> in_class W letters x" if "c \<in> set bearer_word" for c x
    using that by (auto simp: bearer_word_def class_defs)
  have "list_all2 (in_class W) cs b \<Longrightarrow> set cs \<subseteq> set bearer_word \<Longrightarrow> list_all (in_class W letters) b" for cs
    by (induction cs b rule: list_all2_induct) (auto intro: sub)
  moreover assume "list_all2 (in_class W) bearer_word b"
  ultimately show ?thesis using list_all2_lengthD [of "in_class W" bearer_word b] by (auto simp: bearer_word_def)
qed

lemma space_class [simp]: "in_class W [Space] = is_space"
  by (simp add: in_class_def fun_eq_iff)

lemma found_BEARER: "found W BEARER l m s \<Longrightarrow> bearer_body W m"
  unfolding BEARER_pieces found_Singles found_AtLeast found_Nil bearer_body_def
  using bearer_word_letters by fastforce

section \<open>What a replacement leaves\<close>

lemma split_around:
  assumes "x @ m @ y = g @ c # t" and "c \<notin> set m"
  shows "(\<exists>z. g = x @ m @ z \<and> y = z @ c # t) \<or> (\<exists>z. x = g @ c # z \<and> t = z @ m @ y)"
  using assms by (auto simp: append_eq_append_conv2 append_eq_Cons_conv Cons_eq_append_conv)

lemma outside_marker:
  assumes "x @ m @ y = g @ (c # mid @ [d]) @ t" and "c \<notin> set m" "d \<notin> set m" "\<not> set m \<subseteq> set mid"
  shows "(\<exists>z. g = x @ m @ z \<and> y = z @ (c # mid @ [d]) @ t) \<or> (\<exists>z. x = g @ (c # mid @ [d]) @ z \<and> t = z @ m @ y)"
proof -
  from split_around [of x m y g c "mid @ d # t"] assms consider
      (before) "\<exists>z. g = x @ m @ z \<and> y = z @ c # mid @ d # t"
    | (after) z where "x = g @ c # z" "z @ m @ y = mid @ d # t" by auto
  then show ?thesis
  proof cases
    case before
    then show ?thesis by simp
  next
    case after
    with split_around [OF after(2) assms(3)] assms(4) show ?thesis by auto
  qed
qed

text \<open>
  A stretch \<open>m\<close> of the result without brackets, and with a character that is not in the marker, is a
  stretch of the original in which no match begins; its neighbours are the same, or a marker where the
  original has a match.
\<close>

definition same_left :: "(nat \<Rightarrow> bool) \<Rightarrow> piece list \<Rightarrow> scalars \<Rightarrow> scalars \<Rightarrow> scalars \<Rightarrow> scalars \<Rightarrow> bool" where
  "same_left W r l x x' s \<longleftrightarrow> x = [] \<and> x' = [] \<or> x \<noteq> [] \<and> x' \<noteq> [] \<and> last x = last x' \<or>
     x \<noteq> [] \<and> last x = 93 \<and> (\<exists>x1 mm. x' = x1 @ mm \<and> mm \<noteq> [] \<and> preferred W r (l @ x1) mm s)"

definition same_right :: "(nat \<Rightarrow> bool) \<Rightarrow> piece list \<Rightarrow> scalars \<Rightarrow> scalars \<Rightarrow> scalars \<Rightarrow> bool" where
  "same_right W r l y y' \<longleftrightarrow> y = [] \<and> y' = [] \<or> y \<noteq> [] \<and> y' \<noteq> [] \<and> hd y = hd y' \<or>
     y \<noteq> [] \<and> hd y = 91 \<and> (\<exists>mm y1. y' = mm @ y1 \<and> mm \<noteq> [] \<and> preferred W r l mm y1)"

lemma gap:
  assumes "replaces W r rep l s t" and "t = x @ m @ y" and rep: "rep = 91 # mid @ [93]"
    and m: "91 \<notin> set m" "93 \<notin> set m" "\<not> set m \<subseteq> set mid"
  shows "\<exists>x' y'. s = x' @ m @ y' \<and> same_left W r l x x' (m @ y') \<and> same_right W r (l @ x' @ m) y y' \<and>
    (\<forall>m1 m2. m = m1 @ m2 \<longrightarrow> m2 \<noteq> [] \<longrightarrow> lens W r (l @ x' @ m1) (m2 @ y') = [])"
  using assms(1,2)
proof (induction l s t arbitrary: x rule: replaces.induct)
  case (no_match s l)
  have "lens W r (l @ x @ m1) (m2 @ y) = []" if "m = m1 @ m2" for m1 m2
    using no_match.hyps [of "x @ m1" "m2 @ y"] no_match.prems that by simp
  then show ?case using no_match.prems
    by (intro exI [of _ x] exI [of _ y]) (auto simp: same_left_def same_right_def)
next
  case (a_match g l mm s t)
  from outside_marker [OF _ m, of x y g t] a_match.prems rep consider
      (before) z where "g = x @ m @ z" "y = z @ rep @ t"
    | (after) z where "x = g @ rep @ z" "t = z @ m @ y" by auto
  then show ?case
  proof cases
    case before
    have "lens W r (l @ x @ m1) (m2 @ z @ mm @ s) = []" if "m = m1 @ m2" "m2 \<noteq> []" for m1 m2
      using a_match.hyps(1) [of "x @ m1" "m2 @ z"] that before by simp
    moreover have "same_right W r (l @ x @ m) y (z @ mm @ s)"
      using a_match.hyps(2,3) before by (cases z) (auto simp: same_right_def rep)
    ultimately show ?thesis using before
      by (intro exI [of _ x] exI [of _ "z @ mm @ s"]) (auto simp: same_left_def)
  next
    case after
    from a_match.IH [OF after(2)] obtain x' y' where s: "s = x' @ m @ y'"
      and left: "same_left W r (l @ g @ mm) z x' (m @ y')" and right: "same_right W r ((l @ g @ mm) @ x' @ m) y y'"
      and no: "\<And>m1 m2. m = m1 @ m2 \<Longrightarrow> m2 \<noteq> [] \<Longrightarrow> lens W r ((l @ g @ mm) @ x' @ m1) (m2 @ y') = []" by blast
    have "same_left W r l x (g @ mm @ x') (m @ y')"
    proof (cases "z = []")
      case True
      with left have x': "x' = []" by (auto simp: same_left_def)
      have "last x = 93" "x \<noteq> []" by (simp_all add: after(1) True rep)
      with a_match.hyps(2,3) x' s show ?thesis unfolding same_left_def by auto
    next
      case False
      then have "last x = last z" "x \<noteq> []" by (simp_all add: after(1))
      with left False show ?thesis unfolding same_left_def
        by (elim disjE) (auto, metis append_assoc)
    qed
    with s right no show ?thesis
      by (intro exI [of _ "g @ mm @ x'"] exI [of _ y']) auto
  qed
qed

section \<open>The passes\<close>

lemma word_ascii: "word_laws W \<Longrightarrow> c < 128 \<Longrightarrow> W c \<longleftrightarrow> in_class W (letters @ digits @ chars ''_'') c"
  by (auto simp: word_laws_def)

lemma word_letter: "word_laws W \<Longrightarrow> in_class W letters c \<Longrightarrow> W c"
  by (subst word_ascii) (auto simp: class_defs)

lemma word_space: "word_laws W \<Longrightarrow> is_space c \<Longrightarrow> \<not> W c"
  by (simp add: word_laws_def)

lemma word_bracket:
  assumes "word_laws W"
  shows "\<not> W 91" "\<not> W 93"
  using word_ascii [OF assms] by (simp_all add: class_defs)

text \<open>The marker of a pass; each pattern needs a character that no marker has.\<close>

definition marker :: "scalars \<Rightarrow> bool" where
  "marker rep \<longleftrightarrow> (\<exists>mid. rep = 91 # mid @ [93] \<and> 64 \<notin> set mid \<and> 47 \<notin> set mid \<and> \<not> list_ex is_space mid)"

lemma email_body_chars:
  assumes "word_laws W" "email_body W m"
  shows "m \<noteq> []" "91 \<notin> set m" "93 \<notin> set m" "64 \<in> set m" "W (last m)"
proof -
  obtain a b c where m: "m = a @ 64 # b @ 46 # c" and a: "list_all (in_class W (Word # chars ''._%+-'')) a"
    and b: "list_all (in_class W (Word # chars ''.-'')) b" and c: "2 \<le> length c" "list_all (in_class W letters) c"
    using assms(2) by (auto simp: email_body_def)
  have "last c \<in> set c" "c \<noteq> []" using c(1) by (cases c; auto)+
  then show "W (last m)" using c(2) word_letter [OF assms(1)] by (auto simp: m list_all_iff)
  show "m \<noteq> []" "91 \<notin> set m" "93 \<notin> set m" "64 \<in> set m"
    using a b c(2) word_bracket [OF assms(1)] by (auto simp: m list_all_iff class_defs)
qed

lemma no_bracket [simp]:
  "\<not> in_class W letters 91" "\<not> in_class W letters 93" "\<not> is_space 91" "\<not> is_space 93"
  "\<not> in_class W token_class 91" "\<not> in_class W token_class 93"
  "\<not> in_class W (letters @ digits @ chars ''_-'') 91" "\<not> in_class W (letters @ digits @ chars ''_-'') 93"
  by (simp_all add: class_defs is_space_def)

lemma list_all_notin: "list_all P xs \<Longrightarrow> \<not> P c \<Longrightarrow> c \<notin> set xs"
  by (auto simp: list_all_iff)

lemma code_body_chars:
  assumes "code_body W m"
  shows "m \<noteq> []" "91 \<notin> set m" "93 \<notin> set m" "47 \<in> set m" "hd m = 52"
proof -
  obtain c where m: "m = 52 # 47 # c" and c: "list_all (in_class W (letters @ digits @ chars ''_-'')) c"
    using assms by (auto simp: code_body_def)
  show "m \<noteq> []" "91 \<notin> set m" "93 \<notin> set m" "47 \<in> set m" "hd m = 52"
    using list_all_notin [OF c no_bracket(7)] list_all_notin [OF c no_bracket(8)] by (simp_all add: m)
qed

lemma bearer_body_chars:
  assumes "bearer_body W m"
  shows "m \<noteq> []" "91 \<notin> set m" "93 \<notin> set m" "\<exists>c \<in> set m. is_space c"
proof -
  obtain b w t where m: "m = b @ w @ t" "length b = 6" "w \<noteq> []" and b: "list_all (in_class W letters) b"
    and w: "list_all is_space w" and t: "list_all (in_class W token_class) t"
    using assms by (auto simp: bearer_body_def)
  show "91 \<notin> set m" "93 \<notin> set m"
    using list_all_notin [OF b] list_all_notin [OF w] list_all_notin [OF t] by (auto simp: m)
  have "hd w \<in> set m" "is_space (hd w)" using m w by (auto simp: list_all_iff)
  then show "\<exists>c \<in> set m. is_space c" "m \<noteq> []" by auto
qed

text \<open>
  The neighbours of a stretch after a pass: its boundaries were there before, or it touches a match
  of a pattern that does not ask for boundaries itself.
\<close>

lemma boundary_left:
  assumes "same_left W r [] x x' (m @ y')" "boundary W x (m @ y)" "m \<noteq> []" "\<not> W 93"
  shows "boundary W x' (m @ y') \<or> W (hd m) \<and> (\<exists>x1 mm. x' = x1 @ mm \<and> preferred W r x1 mm (m @ y'))"
  using assms by (auto simp: same_left_def boundary_def)

lemma boundary_right:
  assumes "same_right W r (x' @ m) y y'" "boundary W (x @ m) y" "m \<noteq> []" "\<not> W 91"
  shows "boundary W (x' @ m) y' \<or> W (last m) \<and> (\<exists>mm y1. y' = mm @ y1 \<and> preferred W r (x' @ m) mm y1)"
  using assms by (auto simp: same_right_def boundary_def)

lemma preferred_boundaries:
  assumes "preferred W r l m s" "r = EMAIL \<or> r = CODE"
  shows "boundary W l (m @ s)" "boundary W (l @ m) s"
  using preferred_found [OF assms(1)] assms(2) by (auto simp: found_EMAIL found_CODE)

text \<open>A pass with one of the first two patterns finds what it is looking for, and makes no new matches.\<close>

lemma bounded_pass:
  assumes "replaces W r rep [] s t" "r = EMAIL \<or> r = CODE" "marker rep" "word_laws W"
    and q: "q = EMAIL \<or> q = CODE" "q = r \<or> clean W q s"
  shows "clean W q t"
  unfolding clean_def
proof (intro allI impI notI)
  fix x m y assume t: "t = x @ m @ y" and f: "found W q x m y"
  obtain mid where mid: "rep = 91 # mid @ [93]" "64 \<notin> set mid" "47 \<notin> set mid" using assms(3) by (auto simp: marker_def)
  have b: "boundary W x (m @ y)" "boundary W (x @ m) y" and "email_body W m \<or> code_body W m"
    using f q(1) by (auto simp: found_EMAIL found_CODE)
  with mid have m: "m \<noteq> []" "91 \<notin> set m" "93 \<notin> set m" "\<not> set m \<subseteq> set mid"
    using email_body_chars [OF assms(4), of m] code_body_chars [of W m] by blast+
  from gap [OF assms(1) t mid(1) m(2-4)] obtain x' y' where s: "s = x' @ m @ y'"
    and l: "same_left W r [] x x' (m @ y')" and r: "same_right W r (x' @ m) y y'"
    and no: "lens W r x' (m @ y') = []" using m(1) by force
  have "boundary W x' (m @ y')" "boundary W (x' @ m) y'"
    using boundary_left [OF l b(1) m(1) word_bracket(2) [OF assms(4)]] boundary_right [OF r b(2) m(1) word_bracket(1) [OF assms(4)]]
      preferred_boundaries [OF _ assms(2)] by fastforce+
  with f q(1) have "found W q x' m y'" by (auto simp: found_EMAIL found_CODE)
  then show False using q(2) not_found [OF no] s by (auto simp: clean_def)
qed

lemma found_BEARER_context: "found W BEARER l m s \<longleftrightarrow> found W BEARER l' m s'"
  by (simp add: BEARER_pieces found_Singles found_AtLeast found_Nil)

lemma bearer_pass:
  assumes "replaces W BEARER rep [] s t" "marker rep"
  shows "clean W BEARER t"
  unfolding clean_def
proof (intro allI impI notI)
  fix x m y assume t: "t = x @ m @ y" and f: "found W BEARER x m y"
  obtain mid where mid: "rep = 91 # mid @ [93]" "\<not> list_ex is_space mid" using assms(2) by (auto simp: marker_def)
  note m = bearer_body_chars [OF found_BEARER [OF f]]
  then have "\<not> set m \<subseteq> set mid" using mid(2) by (auto simp: list_ex_iff)
  from gap [OF assms(1) t mid(1) m(2,3) this] obtain x' y' where "lens W BEARER x' (m @ y') = []"
    using m(1) by force
  then show False using f not_found found_BEARER_context by blast
qed

section \<open>Bearer tokens are taken whole\<close>

lemma lens_last_AtLeast: "lens W [AtLeast n cl] l s = rev [n ..< Suc (length (takeWhile (in_class W cl) s))]"
  by (simp add: concat_map_singleton del: upt_Suc)

lemma desc_Singles:
  assumes "\<And>l s. sorted_wrt (>) (lens W r l s)"
  shows "sorted_wrt (>) (lens W (map Single cs @ r) l s)"
  using assms by (induction cs arbitrary: l s) (auto simp: sorted_wrt_map split: list.split)

lemma lens_space_token:
  "lens W [AtLeast 1 [Space], AtLeast 20 token_class] l s =
    (let n = length (takeWhile is_space s) in
      if n = 0 then [] else map ((+) n) (lens W [AtLeast 20 token_class] (l @ take n s) (drop n s)))"
proof -
  let ?n = "length (takeWhile is_space s)" and ?f = "\<lambda>k. map ((+) k) (lens W [AtLeast 20 token_class] (l @ take k s) (drop k s))"
  have "?f k = []" if "k < ?n" for k
  proof -
    have "k < length s" using that length_takeWhile_le [of is_space s] by linarith
    moreover have "is_space (s ! k)" using that by (metis nth_mem set_takeWhileD takeWhile_nth)
    ultimately have "takeWhile (in_class W token_class) (drop k s) = []"
      by (auto simp: Cons_nth_drop_Suc [symmetric] class_defs is_space_def)
    then show ?thesis by (simp add: lens_last_AtLeast)
  qed
  then have none: "concat (map ?f (rev [1 ..< ?n])) = []" by auto
  have "lens W [AtLeast 1 [Space], AtLeast 20 token_class] l s = concat (map ?f (rev [1 ..< Suc ?n]))"
    by (simp only: lens.simps space_class)
  also have "\<dots> = (if ?n = 0 then [] else ?f ?n @ concat (map ?f (rev [1 ..< ?n])))"
    by (cases "1 \<le> ?n") (auto simp add: upt_Suc_append Suc_le_eq simp del: lens.simps)
  finally show ?thesis by (simp only: none Let_def append_Nil2)
qed

lemma bearer_greedy:
  assumes "preferred W BEARER l m (c # s)"
  shows "\<not> in_class W token_class c"
proof
  assume c: "in_class W token_class c"
  have desc: "sorted_wrt (>) (rev [n ..< k])" for n k :: nat by (simp add: sorted_wrt_rev)
  have sorted: "sorted_wrt (>) (lens W BEARER l (m @ c # s))"
    unfolding BEARER_pieces
    by (rule desc_Singles) (simp only: lens_space_token lens_last_AtLeast Let_def, simp add: sorted_wrt_map desc del: upt_Suc)
  have "found W BEARER l (m @ [c]) s"
    using preferred_found [OF assms] c unfolding BEARER_pieces found_Singles found_AtLeast found_Nil
    by (fastforce simp: list_all_append)
  then have "Suc (length m) \<in> set (lens W BEARER l (m @ c # s))" by (simp add: found_def)
  then show False using assms sorted by (fastforce simp: preferred_def)
qed

section \<open>The last pass keeps what the others did\<close>

text \<open>A stretch that begins with a word character reaches back to a boundary over word characters.\<close>

lemma back_to_boundary:
  assumes "m \<noteq> []" "W (hd m)"
  obtains x1 p where "x = x1 @ p" "list_all W p" "boundary W x1 (p @ m @ y)"
proof
  define p where "p = rev (takeWhile W (rev x))"
  define x1 where "x1 = rev (dropWhile W (rev x))"
  show "x = x1 @ p" by (simp add: x1_def p_def flip: rev_append)
  show "list_all W p" by (auto simp: p_def list_all_iff dest: set_takeWhileD)
  then have "W (hd (p @ m @ y))" using assms by (cases p) auto
  moreover have "x1 \<noteq> [] \<longrightarrow> \<not> W (last x1)"
    using hd_dropWhile [of W "rev x"] by (auto simp: x1_def last_rev)
  ultimately show "boundary W x1 (p @ m @ y)" using assms(1) by (auto simp: boundary_def)
qed

text \<open>A match of the last pattern right behind a stretch begins with letters that end at a boundary.\<close>

lemma on_to_boundary:
  assumes "preferred W BEARER l mm y" "word_laws W"
  obtains b z where "mm = b @ z" "list_all (in_class W letters) b" "\<And>x. boundary W (x @ b) (z @ y)"
proof -
  obtain b w t where mm: "mm = b @ w @ t" "length b = 6" and b: "list_all (in_class W letters) b"
    and w: "w \<noteq> []" "list_all is_space w"
    using found_BEARER [OF preferred_found [OF assms(1)]] by (auto simp: bearer_body_def)
  have "b \<noteq> []" using mm by auto
  then have "W (last b)" using b word_letter [OF assms(2)] by (auto simp: list_all_iff)
  moreover have "\<not> W (hd w)" using w word_space [OF assms(2)] by (cases w) auto
  ultimately have "boundary W (x @ b) ((w @ t) @ y)" for x using \<open>b \<noteq> []\<close> w by (simp add: boundary_def)
  then show thesis using that [of b "w @ t"] mm b by simp
qed

lemma email_body_extend:
  assumes "word_laws W" "email_body W m" "list_all W p" "list_all (in_class W letters) q"
  shows "email_body W (p @ m @ q)"
proof -
  obtain a b c where m: "m = a @ 64 # b @ 46 # c" "a \<noteq> []" "b \<noteq> []" "2 \<le> length c"
    and l: "list_all (in_class W (Word # chars ''._%+-'')) a" "list_all (in_class W (Word # chars ''.-'')) b"
      "list_all (in_class W letters) c"
    using assms(2) by (auto simp: email_body_def)
  have "list_all (in_class W (Word # chars ''._%+-'')) p"
    using assms(3) by (auto simp: list_all_iff in_class_def)
  with m l assms(4) show ?thesis unfolding email_body_def
    by (intro exI [of _ "p @ a"] exI [of _ b] exI [of _ "c @ q"]) simp
qed

lemma code_body_extend:
  assumes "code_body W m" "list_all (in_class W letters) q"
  shows "code_body W (m @ q)"
proof -
  have "list_all (in_class W (letters @ digits @ chars ''_-'')) q"
    using assms(2) by (auto simp: list_all_iff in_class_def)
  with assms(1) show ?thesis unfolding code_body_def by fastforce
qed

lemma token_52: "in_class W token_class 52"
  by (simp add: class_defs)

lemma bearer_pass_keeps:
  assumes "replaces W BEARER rep [] s t" "marker rep" "word_laws W"
    and q: "q = EMAIL \<or> q = CODE" "clean W q s"
  shows "clean W q t"
  unfolding clean_def
proof (intro allI impI notI)
  fix x m y assume t: "t = x @ m @ y" and f: "found W q x m y"
  obtain mid where mid: "rep = 91 # mid @ [93]" "64 \<notin> set mid" "47 \<notin> set mid" using assms(2) by (auto simp: marker_def)
  have bd: "boundary W x (m @ y)" "boundary W (x @ m) y" and body: "q = EMAIL \<and> email_body W m \<or> q = CODE \<and> code_body W m"
    using f q(1) by (auto simp: found_EMAIL found_CODE)
  with mid have m: "m \<noteq> []" "91 \<notin> set m" "93 \<notin> set m" "\<not> set m \<subseteq> set mid"
    using email_body_chars [OF assms(3), of m] code_body_chars [of W m] by blast+
  from gap [OF assms(1) t mid(1) m(2-4)] obtain x' y' where s: "s = x' @ m @ y'"
    and l: "same_left W BEARER [] x x' (m @ y')" and r: "same_right W BEARER (x' @ m) y y'" using m(1) by force
  obtain b z where y: "y' = b @ z" and b: "list_all (in_class W letters) b" and right: "boundary W (x' @ m @ b) z"
    using boundary_right [OF r bd(2) m(1) word_bracket(1) [OF assms(3)]]
  proof (elim disjE conjE exE)
    assume "boundary W (x' @ m) y'"
    then show thesis using that [of "[]" y'] by simp
  next
    fix mm y1 assume "y' = mm @ y1" and p: "preferred W BEARER (x' @ m) mm y1"
    with on_to_boundary [OF p assms(3)] that show thesis by (metis append_assoc)
  qed
  obtain x1 p where x: "x' = x1 @ p" and p: "list_all W p" "code_body W m \<longrightarrow> p = []" and left: "boundary W x1 (p @ m @ y')"
    using boundary_left [OF l bd(1) m(1) word_bracket(2) [OF assms(3)]]
  proof (elim disjE conjE exE)
    assume "boundary W x' (m @ y')"
    then show thesis using that [of x' "[]"] by simp
  next
    fix x1 mm assume w: "W (hd m)" and x: "x' = x1 @ mm" and p: "preferred W BEARER x1 mm (m @ y')"
    have "\<not> code_body W m"
    proof
      assume "code_body W m"
      then obtain m' where "m = 52 # m'" by (auto simp: code_body_def)
      then show False using bearer_greedy [of W x1 mm 52] token_52 p by simp
    qed
    then show thesis using back_to_boundary [of m W x' y'] m(1) w that by metis
  qed
  have "found W q x1 (p @ m @ b) z"
    using body left right email_body_extend [OF assms(3) _ p(1) b] code_body_extend [OF _ b] p(2)
    by (auto simp: found_EMAIL found_CODE x y)
  with q(2) s show False unfolding clean_def by (simp add: x y)
qed

section \<open>A search that follows the laws\<close>

function scan :: "(nat \<Rightarrow> bool) \<Rightarrow> piece list \<Rightarrow> scalars \<Rightarrow> scalars \<Rightarrow> scalars \<Rightarrow> scalars" where
  "scan W r rep l s = (case s of
      [] \<Rightarrow> []
    | x # xs \<Rightarrow> (case lens W r l s of
          Suc n # _ \<Rightarrow> rep @ scan W r rep (l @ x # take n xs) (drop n xs)
        | _ \<Rightarrow> x # scan W r rep (l @ [x]) xs))"
  by pat_completeness auto
termination
  by (relation "measure (\<lambda>(W, r, rep, l, s). length s)") auto

declare scan.simps [simp del]

lemma scan_eval:
  "scan W r rep l [] = []"
  "scan W r rep l (x # xs) = (case lens W r l (x # xs) of
      Suc n # _ \<Rightarrow> rep @ scan W r rep (l @ x # take n xs) (drop n xs)
    | _ \<Rightarrow> x # scan W r rep (l @ [x]) xs)"
  by (simp_all add: scan.simps)

lemma replaces_Cons:
  assumes "replaces W r rep (l @ [x]) xs t" "lens W r l (x # xs) = []"
  shows "replaces W r rep l (x # xs) (x # t)"
  using assms(1)
proof (cases rule: replaces.cases)
  case no_match
  have "lens W r (l @ g) s' = []" if "x # xs = g @ s'" for g s'
    using no_match(2) [of "tl g" s'] assms(2) that by (cases g) auto
  then show ?thesis unfolding no_match(1) by (rule replaces.no_match)
next
  case (a_match g m s t')
  have "lens W r (l @ g1) (g2 @ m @ s) = []" if "x # g = g1 @ g2" "g2 \<noteq> []" for g1 g2
    using a_match(3) [of "tl g1" g2] assms(2) that a_match(1) by (cases g1) auto
  then have "replaces W r rep l ((x # g) @ m @ s) ((x # g) @ rep @ t')"
    using a_match(4-6) by (intro replaces.a_match) auto
  then show ?thesis unfolding a_match by simp
qed

lemma lens_bounded: "n \<in> set (lens W r l s) \<Longrightarrow> n \<le> length s"
proof (induction W r l s arbitrary: n rule: lens.induct)
  case (4 W n cl r l s)
  then show ?case using length_takeWhile_le [of "in_class W cl" s] by (fastforce simp: less_Suc_eq_le)
qed (auto split: if_splits list.splits)

lemma scan_replaces:
  assumes "\<And>l s. 0 \<notin> set (lens W r l s)"
  shows "replaces W r rep l s (scan W r rep l s)"
proof (induction "length s" arbitrary: l s rule: less_induct)
  case less
  show ?case
  proof (cases s)
    case Nil
    have "lens W r l [] = []" using assms [of l "[]"] lens_bounded [of _ W r l "[]"]
      by (cases "lens W r l []") fastforce+
    then have "replaces W r rep l [] []" by (intro no_match) auto
    then show ?thesis by (simp add: Nil scan_eval)
  next
    case (Cons x xs)
    show ?thesis
    proof (cases "lens W r l s")
      case Nil
      then show ?thesis
        using replaces_Cons [OF less [of xs "l @ [x]"]] by (simp add: Cons scan_eval)
    next
      case (Cons n ns)
      then obtain k where k: "n = Suc k" using assms [of l s] by (cases n) auto
      have "k \<le> length xs" using lens_bounded [of n W r l s] Cons k \<open>s = x # xs\<close> by simp
      then have "replaces W r rep l ([] @ (x # take k xs) @ drop k xs)
          ([] @ rep @ scan W r rep (l @ [] @ x # take k xs) (drop k xs))"
        using Cons k \<open>s = x # xs\<close> by (intro a_match less) (auto simp: preferred_def)
      then show ?thesis using Cons k \<open>s = x # xs\<close> by (simp add: scan_eval)
    qed
  qed
qed

lemma patterns_nonempty: "r \<in> set [EMAIL, CODE, BEARER] \<Longrightarrow> 0 \<notin> set (lens W r l s)"
proof -
  have z: "0 \<in> set (lens W r l s) \<longleftrightarrow> found W r l [] s" for r by (simp add: found_def)
  have "\<not> found W EMAIL l [] s" "\<not> found W CODE l [] s" "\<not> found W BEARER l [] s"
    using found_BEARER [of W l "[]" s] bearer_body_chars(1) [of W "[]"]
    by (auto simp: found_EMAIL found_CODE email_body_def code_body_def)
  then show "r \<in> set [EMAIL, CODE, BEARER] \<Longrightarrow> 0 \<notin> set (lens W r l s)" by (auto simp: z)
qed

definition sample_word :: "nat \<Rightarrow> bool" where
  "sample_word c \<longleftrightarrow> in_class (\<lambda>_. False) (letters @ digits @ chars ''_'') c \<or> c = 0x17F \<or> c = 0x212A"

definition sample_regex :: regex_crate where
  "sample_regex = \<lparr>rx_word = sample_word, rx_replace_all = (\<lambda>r rep s. scan sample_word r rep [] s)\<rparr>"

lemma sample_regex_laws: "regex_laws sample_regex"
proof -
  have "word_laws sample_word" by (auto simp: word_laws_def sample_word_def class_defs is_space_def)
  then show ?thesis
    using scan_replaces [OF patterns_nonempty] by (simp add: regex_laws_def sample_regex_def)
qed

section \<open>Properties\<close>

lemma clean_replaces:
  assumes "replaces W r rep [] s t" "clean W r s"
  shows "t = s"
  using assms(1)
proof (cases rule: replaces.cases)
  case (a_match g m s' t')
  then show ?thesis using assms(2) preferred_found [of W r g m s'] by (auto simp: clean_def)
qed simp

lemma markers: "marker (lit ''[redacted-email]'')" "marker (lit ''[redacted-code]'')" "marker (lit ''[redacted-bearer]'')"
  "of_char CHR ''$'' \<notin> set (lit ''[redacted-email]'')" "of_char CHR ''$'' \<notin> set (lit ''[redacted-code]'')"
  "of_char CHR ''$'' \<notin> set (lit ''[redacted-bearer]'')"
proof -
  have "marker (lit (''['' @ s @ '']''))"
    if "64 \<notin> set (lit s)" "47 \<notin> set (lit s)" "\<not> list_ex is_space (lit s)" for s
    using that by (auto simp: marker_def lit_def intro!: exI [of _ "map of_char s"])
  from this [of "''redacted-email''"] this [of "''redacted-code''"] this [of "''redacted-bearer''"]
  show "marker (lit ''[redacted-email]'')" "marker (lit ''[redacted-code]'')" "marker (lit ''[redacted-bearer]'')"
    by (simp_all add: lit_def is_space_def)
qed (simp_all add: lit_def)

text \<open>
  C33: Redaction is complete and changes nothing else. Whatever the text and whatever Unicode letters
  the engine knows, the result matches none of the three patterns anywhere, although each pass works
  on the output of the one before: no pass creates a match of another by cutting at a marker. A text
  without a match comes back as it is, so redacting twice is redacting once.
\<close>

theorem redaction_is_complete:
  assumes "regex_laws R"
  shows "(\<forall>r \<in> set [EMAIL, CODE, BEARER]. clean (rx_word R) r (redact R s)) \<and>
    ((\<forall>r \<in> set [EMAIL, CODE, BEARER]. clean (rx_word R) r s) \<longrightarrow> redact R s = s) \<and>
    redact R (redact R s) = redact R s"
proof -
  let ?W = "rx_word R"
  have W: "word_laws ?W" and rx: "\<And>r rep s. r \<in> set [EMAIL, CODE, BEARER] \<Longrightarrow> of_char CHR ''$'' \<notin> set rep \<Longrightarrow>
      replaces ?W r rep [] s (rx_replace_all R r rep s)"
    using assms by (auto simp: regex_laws_def)
  define s1 s2 where "s1 = rx_replace_all R EMAIL (lit ''[redacted-email]'')" and "s2 = rx_replace_all R CODE (lit ''[redacted-code]'')"
  define s3 where "s3 = rx_replace_all R BEARER (lit ''[redacted-bearer]'')"
  have redact: "redact R s = s3 (s2 (s1 s))" for s by (simp add: redact_def s1_def s2_def s3_def)
  have p1: "replaces ?W EMAIL (lit ''[redacted-email]'') [] s (s1 s)"
    and p2: "replaces ?W CODE (lit ''[redacted-code]'') [] s (s2 s)"
    and p3: "replaces ?W BEARER (lit ''[redacted-bearer]'') [] s (s3 s)" for s
    unfolding s1_def s2_def s3_def by (rule rx; (rule markers | simp))+
  have c1: "clean ?W EMAIL (s1 s)" "clean ?W EMAIL (s2 (s1 s))" "clean ?W CODE (s2 (s1 s))" for s
    using bounded_pass [OF p1 _ markers(1) W] bounded_pass [OF p2 _ markers(2) W] by blast+
  have clean: "clean ?W r (redact R s)" if "r \<in> set [EMAIL, CODE, BEARER]" for r s
    unfolding redact using that bearer_pass [OF p3 markers(3)] bearer_pass_keeps [OF p3 markers(3) W] c1 by auto
  have "redact R s = s" if "\<forall>r \<in> set [EMAIL, CODE, BEARER]. clean ?W r s" for s
    unfolding redact using that clean_replaces [OF p1] clean_replaces [OF p2] clean_replaces [OF p3] by auto
  then show ?thesis using clean by blast
qed

lemmas redact_eval = redact_def sample_regex_def scan_eval EMAIL_def CODE_def BEARER_def lit_def class_defs
  boundary_def sample_word_def is_space_def

definition sample_log_line :: scalars where
  "sample_log_line = lit ''mail of al@ex.org: code 4/0AY0e-g7-123456''"

theorem redaction_is_complete_witness:
  "redact sample_regex sample_log_line = lit ''mail of [redacted-email]: code [redacted-code]'' \<and>
   clean (rx_word sample_regex) EMAIL (redact sample_regex sample_log_line) \<and>
   redact sample_regex (redact sample_regex sample_log_line) = redact sample_regex sample_log_line"
proof -
  have "redact sample_regex sample_log_line = lit ''mail of [redacted-email]: code [redacted-code]''"
    by (simp add: redact_eval sample_log_line_def)
  with redaction_is_complete [OF sample_regex_laws, of sample_log_line] show ?thesis by simp
qed

text \<open>
  A bearer token may contain \<open>~ + / =\<close> as well; the pattern stops there, and the rest of the token stays.
\<close>

lemma rest_of_token_is_not_redacted:
  "redact sample_regex (lit ''Bearer 0123456789abcdefghij+secret'') = lit ''[redacted-bearer]+secret''"
  by (simp add: redact_eval)

text \<open>
  The order of the passes matters: a code that ends in \<open>-bearer\<close> takes the word with it, and the token
  behind it is no longer recognised.
\<close>

lemma token_behind_code_is_not_redacted:
  "redact sample_regex (lit ''4/0AY0e-g7-bearer ya29.aXcdefghijklmnopqr'') = lit ''[redacted-code] ya29.aXcdefghijklmnopqr''"
  by (simp add: redact_eval)

end
