(* ===== verification/Startup.thy ===== *)
theory Startup
  imports Lifecycle Logging Daemon_Props
begin

text \<open>
  Start-up of the daemon (\<^verbatim>\<open>main.rs\<close>) up to the point where it serves: paths, directories, the log,
  the process lock, the database, the providers of the stored accounts, the HTTP port, and the
  endpoint file that tells clients where it listens and with which token; and its shutdown.
\<close>

record Args =
  ag_root :: "path option"
  ag_google_client_id :: string
  ag_http_port :: "nat option"
  ag_stdio_shim_path :: "string option"

text \<open>
  What start-up meets outside: the directories of the user, the logging packages, whether the process lock is free, the
  database library, random bytes, the port bound on request, and the process identifier.
\<close>

record sqlite =
  sq_bad_url :: "string \<Rightarrow> string option"
  sq_connect :: "string \<Rightarrow> string + db"
  sq_migrate :: "db \<Rightarrow> string + db"

record startup_env =
  su_os :: target_os
  su_dirs :: user_dirs
  su_tracing :: tracing
  su_lock_free :: bool
  su_sqlite :: sqlite
  su_random :: string
  su_bind :: "nat option \<Rightarrow> string + nat"
  su_pid :: nat

definition endpoint_url :: "string \<Rightarrow> string" where
  "endpoint_url addr = ''http://'' @ addr @ ''/mcp''"

definition fresh_bearer_token :: "crates \<Rightarrow> string \<Rightarrow> string" where
  "fresh_bearer_token X random = b64url_encode X random"

definition local_addr :: "nat \<Rightarrow> string" where
  "local_addr port = ''127.0.0.1:'' @ show_nat port"

definition daemon_new :: "db \<Rightarrow> net \<Rightarrow> daemon" where
  "daemon_new storage w = \<lparr>ctx_approvals = approval_queue_new 300, ctx_trust = Map.empty, ctx_storage = storage,
     ctx_providers = Map.empty, ctx_mcp_paused = False, ctx_net = w, dm_notifs = [], dm_pending_oauth = Map.empty, dm_cells = 0\<rparr>"

definition on_files :: "(files, 'a) io \<Rightarrow> (files \<times> net, 'a) io" where
  "on_files m = (\<lambda>(f, w). case m f of (r, f') \<Rightarrow> (r, (f', w)))"

definition start_providers :: "crates \<Rightarrow> env \<Rightarrow> ProviderConfig \<Rightarrow> db \<Rightarrow> (files \<times> net, daemon) io" where
  "start_providers X E cfg storage = (\<lambda>(f, w). case hydrate_providers X E cfg (daemon_new storage w) of
      (r, d) \<Rightarrow> (res_bind r (\<lambda>_. Ok d), (f, ctx_net d)))"

text \<open>\<open>Storage::open\<close>: the migrations run before anything else uses the database.\<close>

definition storage_open :: "sqlite \<Rightarrow> path \<Rightarrow> (files, db) io" where
  "storage_open Q p =
     io_bind (if p = [] then io_ret () else create_dir_all (butlast p)) (\<lambda>_.
     let url = ''sqlite://'' @ show_path p in
     io_bind (io_res (case sq_bad_url Q url of
         Some e \<Rightarrow> Err (Config (''bad sqlite url: '' @ e))
       | None \<Rightarrow> Ok ())) (\<lambda>_.
     io_bind (io_res (map_err Storage (sq_connect Q url))) (\<lambda>pool.
     io_res (map_err (\<lambda>e. Config (''migrate: '' @ e)) (sq_migrate Q pool)))))"

text \<open>What the daemon relies on of its migrations: they leave the schema in place.\<close>

definition migrations_ok :: "sqlite \<Rightarrow> bool" where
  "migrations_ok Q \<longleftrightarrow> (\<forall>d d'. sq_migrate Q d = Inr d' \<longrightarrow> db_wf d')"

definition daemon_main ::
  "crates \<Rightarrow> env \<Rightarrow> startup_env \<Rightarrow> string \<Rightarrow> Args \<Rightarrow> (files \<times> net, McpState \<times> daemon_cfg \<times> daemon) io" where
  "daemon_main X E U version args =
     io_bind (io_res (case ag_root args of
         Some r \<Rightarrow> Ok (with_root r)
       | None \<Rightarrow> default_for_user (su_os U) (su_dirs U))) (\<lambda>paths.
     io_bind (on_files (ensure_dirs paths)) (\<lambda>_.
     io_bind (on_files (init_tracing (su_tracing U) (pt_logs paths) False)) (\<lambda>_.
     io_bind (io_res (if su_lock_free U then Ok ()
         else Err (Io (''locking pid file '' @ show_path (pid_file paths))))) (\<lambda>_.
     io_bind (on_files (storage_open (su_sqlite U) (state_db paths))) (\<lambda>storage.
     let oauth_cfg = google_config (ag_google_client_id args) in
     io_bind (start_providers X E oauth_cfg storage) (\<lambda>d.
     let bearer_token = fresh_bearer_token X (su_random U);
         st = \<lparr>mcp_bearer_token = bearer_token, mcp_server_info = \<lparr>si_name = ''mail-mcp'', si_version = version\<rparr>\<rparr> in
     io_bind (io_res (map_err Io (su_bind U (ag_http_port args)))) (\<lambda>port.
     let endpoint = \<lparr>me_url = endpoint_url (local_addr port), me_bearer_token = bearer_token,
           me_stdio_shim_path = ag_stdio_shim_path args\<rparr> in
     io_bind (on_files (write_endpoint X (su_pid U) (endpoint_path paths) endpoint)) (\<lambda>_.
     io_ret (st, \<lparr>dc_version = version, dc_mcp_endpoint = endpoint, dc_oauth_cfg = oauth_cfg\<rparr>, d)))))))))"

text \<open>
  What the end of \<open>main\<close> does to the files, after a signal: the lock file is removed when \<open>PidLock\<close> is
  dropped, errors are ignored. The tasks are aborted; nothing else is cleaned up.
\<close>

definition daemon_shutdown :: "Paths \<Rightarrow> (files, unit) io" where
  "daemon_shutdown paths = io_ignore (remove_file (pid_file paths))"

section \<open>Facts\<close>

lemma storage_open_wf:
  assumes "storage_open Q p f = (Ok d, f')" "migrations_ok Q"
  shows "db_wf d"
  using assms unfolding storage_open_def Let_def
  by (elim io_bind_Ok_E) (auto simp: migrations_ok_def map_err_Ok_iff)

lemma daemon_shutdown_keeps:
  assumes "q \<noteq> pid_file paths"
  shows "fs_nodes (snd (daemon_shutdown paths f)) q = fs_nodes f q"
  using assms
  by (auto simp: daemon_shutdown_def remove_file_def fs_call_def set_node_def observe_def split: option.split list.split node.split)

text \<open>Registering providers touches neither the switch, the queue nor the trust.\<close>

definition fresh_switches :: "daemon \<Rightarrow> bool" where
  "fresh_switches d \<longleftrightarrow> \<not> ctx_mcp_paused d \<and> ctx_trust d = Map.empty \<and> ctx_approvals d = approval_queue_new 300 \<and>
     dm_pending_oauth d = Map.empty"

lemma hydrate_fresh: "keeps fresh_switches (hydrate_providers X E cfg)"
proof -
  have s: "keeps fresh_switches (on_storage m)" and n: "keeps fresh_switches (on_net m')" for m :: "(db, 'a) io" and m' :: "(net, 'b) io"
    by (auto simp: keeps_def on_storage_def on_net_def fresh_switches_def case_prod_unfold)
  have a: "keeps fresh_switches (add_provider X E cfg t i e)" for t i e
    by (simp add: keeps_def add_provider_def registry_insert_def fresh_switches_def)
  have h: "keeps fresh_switches (hydrate_one X E cfg acc)" for acc
    unfolding hydrate_one_def by (rule keeps_bind [OF n]) (auto split: option.split intro!: keeps_bind n a)
  show ?thesis unfolding hydrate_providers_def by (intro keeps_bind s keeps_for h)
qed

lemma start_providers_Ok:
  assumes "start_providers X E cfg storage (f, w) = (Ok d, (f', w'))"
  shows "fresh_switches d" "db_wf storage \<Longrightarrow> daemon_inv X E d" "f' = f"
proof -
  have d: "d = snd (hydrate_providers X E cfg (daemon_new storage w))" and "f' = f"
    using assms by (auto simp: start_providers_def res_bind_Ok_iff split: prod.splits)
  have "fresh_switches (daemon_new storage w)" by (simp add: fresh_switches_def daemon_new_def)
  then show "fresh_switches d" unfolding d by (rule keepsD [OF hydrate_fresh])
  show "daemon_inv X E d" if "db_wf storage"
    unfolding d by (rule safeD(1) [OF hydrate_providers_safe]) (use that in \<open>simp add: daemon_inv_def daemon_new_def\<close>)
  show "f' = f" by fact
qed

text \<open>What a successful start leaves: the serving state and the endpoint file that describes it.\<close>

lemma daemon_main_Ok:
  assumes "daemon_main X E U version args (f, w) = (Ok (st, C, d), (f', w'))"
  shows "\<exists>paths m. (case ag_root args of Some r \<Rightarrow> Ok (with_root r) | None \<Rightarrow> default_for_user (su_os U) (su_dirs U)) = Ok paths \<and>
    fresh_switches d \<and> (migrations_ok (su_sqlite U) \<longrightarrow> daemon_inv X E d) \<and>
    me_bearer_token (dc_mcp_endpoint C) = mcp_bearer_token st \<and>
    fs_nodes f' (endpoint_path paths) = Some (File m (json_to_string_pretty X (endpoint_json (dc_mcp_endpoint C))))"
proof -
  let ?cfg = "google_config (ag_google_client_id args)"
  obtain paths f0 f1 w1 storage d1 f2 w2 port where
    p: "(case ag_root args of Some r \<Rightarrow> Ok (with_root r) | None \<Rightarrow> default_for_user (su_os U) (su_dirs U)) = Ok paths"
    and s: "storage_open (su_sqlite U) (state_db paths) f0 = (Ok storage, f1)"
    and d: "start_providers X E ?cfg storage (f1, w1) = (Ok d1, (f2, w2))"
    and e: "write_endpoint X (su_pid U) (endpoint_path paths) \<lparr>me_url = endpoint_url (local_addr port),
        me_bearer_token = fresh_bearer_token X (su_random U), me_stdio_shim_path = ag_stdio_shim_path args\<rparr> f2 = (Ok (), f')"
    and r: "st = \<lparr>mcp_bearer_token = fresh_bearer_token X (su_random U), mcp_server_info = \<lparr>si_name = ''mail-mcp'', si_version = version\<rparr>\<rparr>"
      "dc_mcp_endpoint C = \<lparr>me_url = endpoint_url (local_addr port),
        me_bearer_token = fresh_bearer_token X (su_random U), me_stdio_shim_path = ag_stdio_shim_path args\<rparr>" "d = d1"
    using assms unfolding daemon_main_def Let_def
    by (elim io_bind_Ok_E) (auto simp: on_files_def map_err_Ok_iff split: prod.splits)
  show ?thesis
    using p start_providers_Ok [OF d] storage_open_wf [OF s] write_endpoint_content [OF e] r by auto
qed

end
