(* ===== verification/Stdio.thy ===== *)
theory Stdio
  imports Startup
begin

text \<open>
  The stdio shim (\<^verbatim>\<open>mail-mcp-stdio\<close>), which lets an MCP client that speaks over standard input and
  output use the daemon's HTTP endpoint, and the HTTP side of the daemon as the shim meets it:
  routes, decoding of the body, the handlers.
\<close>

section \<open>The HTTP server\<close>

text \<open>
  The router with axum's extraction of the JSON body: \<open>reject\<close> is axum's answer to a body that is
  not a request, \<open>not_found\<close> its answer to other routes. A panic of the handler closes the connection.
\<close>

record axum =
  ax_reject :: "string \<Rightarrow> nat \<times> string"
  ax_not_found :: "nat \<times> string"

type_synonym post_draw = "ApprovalId \<times> datetime"

definition http_route ::
  "crates \<Rightarrow> axum \<Rightarrow> McpState \<Rightarrow> ('o, 'z) DispatchContext_ext approval_wait \<Rightarrow> post_draw \<Rightarrow>
   http_method \<Rightarrow> string \<Rightarrow> headers \<Rightarrow> string \<Rightarrow> ('o, 'z) DispatchContext_scheme \<Rightarrow>
   (string + nat \<times> string) \<times> ('o, 'z) DispatchContext_scheme" where
  "http_route X A st wait d method route headers body s =
     (if method = POST \<and> route = ''/mcp'' then
        (case json_from_str X body of
           Inl e \<Rightarrow> (Inr (ax_reject A body), s)
         | Inr v \<Rightarrow> (case de_json_rpc_req v of
             None \<Rightarrow> (Inr (ax_reject A body), s)
           | Some req \<Rightarrow> (case handle_post X st wait (fst d) (snd d) headers req s of
               (Ok (status, resp), s') \<Rightarrow> (Inr (status, json_to_string X resp), s')
             | (_, s') \<Rightarrow> (Inl ''connection closed before message completed'', s'))))
      else if method = GET \<and> route = ''/mcp'' then
        (Inr (case handle_sse X st headers of (status, text) \<Rightarrow> (status, unwrap_or [] text)), s)
      else if method = GET \<and> route = ''/health'' then (Inr handle_health, s)
      else (Inr (ax_not_found A), s))"

section \<open>The shim\<close>

definition de_endpoint :: "json \<Rightarrow> McpEndpointInfo option" where
  "de_endpoint = de_struct 3 [''url'', ''bearer_token'', ''stdio_shim_path''] (\<lambda>v.
     Option.bind (de_required as_str ''url'' v) (\<lambda>u.
     Option.bind (de_required as_str ''bearer_token'' v) (\<lambda>t.
     Option.bind (de_option as_str ''stdio_shim_path'' v) (\<lambda>p.
     Some \<lparr>me_url = u, me_bearer_token = t, me_stdio_shim_path = p\<rparr>))))"

definition shim_endpoint :: "crates \<Rightarrow> path option \<Rightarrow> Paths res \<Rightarrow> (files, McpEndpointInfo) io" where
  "shim_endpoint X endpoint_file default_paths =
     (case (case endpoint_file of
         Some p \<Rightarrow> Some p
       | None \<Rightarrow> (case default_paths of Ok ps \<Rightarrow> Some (endpoint_path ps) | _ \<Rightarrow> None)) of
       None \<Rightarrow> io_res (Err (Io ''could not locate endpoint.json''))
     | Some p \<Rightarrow>
         io_bind (with_context (''reading '' @ show_path p) (read_file p)) (\<lambda>bytes.
         io_bind (io_res (map_err Json (json_from_str X bytes))) (\<lambda>v.
         io_res (ok_or (Json (serde_error X ''McpEndpointInfo'' v)) (de_endpoint v)))))"

text \<open>The HTTP client of the shim: address, headers and body give an answer or a transport error.\<close>

type_synonym ('d, 's) post = "'d \<Rightarrow> string \<Rightarrow> headers \<Rightarrow> string \<Rightarrow> 's \<Rightarrow> (string + nat \<times> string) \<times> 's"

definition shim_headers :: "McpEndpointInfo \<Rightarrow> headers" where
  "shim_headers info = [(''authorization'', ''Bearer '' @ me_bearer_token info), (''content-type'', ''application/json'')]"

definition shim_error :: "(nat \<Rightarrow> string) \<Rightarrow> nat \<Rightarrow> string \<Rightarrow> json" where
  "shim_error show_status status body = JObject [(''jsonrpc'', JString ''2.0''), (''id'', JNull),
     (''error'', JObject [(''code'', i32_json (-32099)),
       (''message'', JString (''daemon http '' @ show_status status @ '': '' @ body))])]"

text \<open>
  The loop over the input lines: the lines printed, the error that ended it if any, and the state of
  the other side. Every line comes with what the daemon draws while it serves it.
\<close>

fun shim_loop ::
  "crates \<Rightarrow> (nat \<Rightarrow> string) \<Rightarrow> ('d, 's) post \<Rightarrow> McpEndpointInfo \<Rightarrow> (string \<times> 'd) list \<Rightarrow> 's \<Rightarrow>
   string list \<times> string option \<times> 's" where
  "shim_loop X show_status post info [] s = ([], None, s)"
| "shim_loop X show_status post info ((line, d) # lines) s =
     (if \<not> valid_utf8 line then ([], Some ''stream did not contain valid UTF-8'', s)
      else if trim line = [] then shim_loop X show_status post info lines s
      else (case post d (me_url info) (shim_headers info) line s of
          (Inl e, s') \<Rightarrow> ([], Some e, s')
        | (Inr (status, body), s') \<Rightarrow>
            (let out = (if is_success status then trim_end body
               else json_to_string X (shim_error show_status status body)) in
             case shim_loop X show_status post info lines s' of (outs, e, s'') \<Rightarrow> (out # outs, e, s''))))"

definition shim_main ::
  "crates \<Rightarrow> (nat \<Rightarrow> string) \<Rightarrow> ('d, 's) post \<Rightarrow> path option \<Rightarrow> Paths res \<Rightarrow> (string \<times> 'd) list \<Rightarrow> files \<Rightarrow> 's \<Rightarrow>
   string list \<times> string option \<times> 's" where
  "shim_main X show_status post endpoint_file default_paths lines f s =
     (case fst (shim_endpoint X endpoint_file default_paths f) of
        Ok info \<Rightarrow> shim_loop X show_status post info lines s
      | Err e \<Rightarrow> ([], Some (error_to_string e), s)
      | Panic m \<Rightarrow> ([], Some m, s))"

section \<open>The daemon behind the shim\<close>

text \<open>A request reaches the daemon when it goes to the address in its endpoint information.\<close>

definition daemon_http ::
  "crates \<Rightarrow> axum \<Rightarrow> McpState \<Rightarrow> McpEndpointInfo \<Rightarrow> ('o, 'z) DispatchContext_ext approval_wait \<Rightarrow>
   (post_draw, ('o, 'z) DispatchContext_scheme) post" where
  "daemon_http X A st info wait d url headers body s =
     (if url = me_url info then http_route X A st wait d POST ''/mcp'' headers body s
      else (Inl ''connection refused'', s))"

text \<open>The reference: the requests handed to the handler one after the other.\<close>

fun direct_calls ::
  "crates \<Rightarrow> McpState \<Rightarrow> ('o, 'z) DispatchContext_ext approval_wait \<Rightarrow> headers \<Rightarrow> (JsonRpcReq \<times> post_draw) list \<Rightarrow>
   ('o, 'z) DispatchContext_scheme \<Rightarrow> json list \<times> ('o, 'z) DispatchContext_scheme" where
  "direct_calls X st wait headers [] s = ([], s)"
| "direct_calls X st wait headers ((req, d) # rs) s =
     (case handle_post X st wait (fst d) (snd d) headers req s of
        (Ok (status, resp), s') \<Rightarrow> (case direct_calls X st wait headers rs s' of (vs, s'') \<Rightarrow> (resp # vs, s''))
      | (_, s') \<Rightarrow> ([], s'))"

section \<open>Facts\<close>

lemma de_endpoint_json [simp]: "de_endpoint (endpoint_json info) = Some info"
  by (cases "me_stdio_shim_path info")
    (simp_all add: de_endpoint_def endpoint_json_def de_defs opt_json_def)

lemma handle_post_status:
  assumes "check_auth X headers (mcp_bearer_token st)" and "handle_post X st wait i now headers req s = (Ok (status, resp), s')"
  shows "status = 200"
  using assms by (auto simp: handle_post_def io_bind_Ok_iff)

lemma shim_authorised:
  assumes "me_bearer_token info = mcp_bearer_token st" and "header_to_str X (''Bearer '' @ mcp_bearer_token st) = Some (''Bearer '' @ mcp_bearer_token st)"
  shows "check_auth X (shim_headers info) (mcp_bearer_token st)"
  using assms by (auto simp: check_auth_iff shim_headers_def)

text \<open>One line: what is printed is the handler's answer.\<close>

definition is_request :: "crates \<Rightarrow> string \<Rightarrow> JsonRpcReq \<Rightarrow> bool" where
  "is_request X line req \<longleftrightarrow> valid_utf8 line \<and> trim line \<noteq> [] \<and>
     (\<exists>v. json_from_str X line = Inr v \<and> de_json_rpc_req v = Some req)"

lemma shim_loop_request:
  assumes "is_request X line req" and "check_auth X (shim_headers info) (mcp_bearer_token st)"
    and "handle_post X st wait (fst d) (snd d) (shim_headers info) req s = (Ok (status, resp), s')"
    and "trim_end (json_to_string X resp) = json_to_string X resp"
  shows "shim_loop X show_status (daemon_http X A st info wait) info ((line, d) # lines) s =
    (case shim_loop X show_status (daemon_http X A st info wait) info lines s' of
       (outs, e, s'') \<Rightarrow> (json_to_string X resp # outs, e, s''))"
proof -
  have "status = 200" by (rule handle_post_status [OF assms(2,3)])
  then show ?thesis
    using assms(1,3,4) by (auto simp: is_request_def daemon_http_def http_route_def is_success_def)
qed

lemma shim_loop_daemon:
  fixes wait :: "(net, unit daemon_ext) DispatchContext_ext approval_wait"
  assumes "check_auth X (shim_headers info) (mcp_bearer_token st)"
    and "\<And>f. keeps (daemon_inv X E) (wait f)" and "\<And>f. panic_free (wait f)" and "calm X E"
    and "\<forall>v. trim_end (json_to_string X v) = json_to_string X v"
    and "\<forall>q \<in> set rs. is_request X (fst q) (fst (snd q))" and "daemon_inv X E s"
  shows "shim_loop X show_status (daemon_http X A st info wait) info (map (\<lambda>q. (fst q, snd (snd q))) rs) s =
      (case direct_calls X st wait (shim_headers info) (map snd rs) s of
         (vs, s') \<Rightarrow> (map (json_to_string X) vs, None, s')) \<and>
    length (fst (direct_calls X st wait (shim_headers info) (map snd rs) s)) = length rs"
  using assms(6,7)
proof (induction rs arbitrary: s)
  case (Cons q rs)
  obtain line req d where q: "q = (line, req, d)" by (cases q)
  obtain status resp s' where h: "handle_post X st wait (fst d) (snd d) (shim_headers info) req s = (Ok (status, resp), s')"
    using daemon_answers [where wait = wait, OF Cons.prems(2) assms(3,4)] by (metis prod.collapse)
  have "daemon_inv X E s'"
    using keepsD [OF handle_post_keeps_inv [where wait = wait, OF assms(2)] Cons.prems(2)] h by (metis snd_conv)
  with Cons.prems(1) have IH: "shim_loop X show_status (daemon_http X A st info wait) info (map (\<lambda>q. (fst q, snd (snd q))) rs) s' =
      (case direct_calls X st wait (shim_headers info) (map snd rs) s' of
         (vs, s') \<Rightarrow> (map (json_to_string X) vs, None, s'))"
    "length (fst (direct_calls X st wait (shim_headers info) (map snd rs) s')) = length rs"
    using Cons.IH [of s'] by auto
  have r: "is_request X line req" using Cons.prems(1) q by simp
  have t: "trim_end (json_to_string X resp) = json_to_string X resp" using assms(5) by blast
  show ?case
    using IH h shim_loop_request [OF r assms(1) h t, where A = A and show_status = show_status]
    by (cases "direct_calls X st wait (shim_headers info) (map snd rs) s'") (simp add: q del: shim_loop.simps)
qed simp

section \<open>Properties\<close>


definition demo_sqlite :: sqlite where
  "demo_sqlite = \<lparr>sq_bad_url = (\<lambda>u. None), sq_connect = (\<lambda>u. Inr empty_db), sq_migrate = (\<lambda>d. Inr empty_db)\<rparr>"

lemma demo_migrations: "migrations_ok demo_sqlite"
  by (simp add: migrations_ok_def demo_sqlite_def empty_db_wf)

definition demo_startup :: startup_env where
  "demo_startup = \<lparr>su_os = Linux, su_dirs = \<lparr>ud_home = None, ud_data = None, ud_data_local = None, ud_state = None,
     ud_cache = None, ud_runtime = None, ud_tmpdir = None, ud_euid = 0\<rparr>,
     su_tracing = \<lparr>tr_env_filter = None, tr_appender_error = (\<lambda>d p. None), tr_subscribed = False\<rparr>, su_lock_free = True, su_sqlite = demo_sqlite,
     su_random = ''tok'', su_bind = (\<lambda>p. Inr 80), su_pid = 7\<rparr>"

definition startup_args :: Args where
  "startup_args = \<lparr>ag_root = Some [''r''], ag_google_client_id = ''id'', ag_http_port = None, ag_stdio_shim_path = None\<rparr>"

definition ping_json :: json where
  "ping_json = JObject [(''id'', JNull), (''method'', JString ''ping'')]"

definition ping_request :: JsonRpcReq where
  "ping_request = \<lparr>rpc_id = JNull, rpc_method = ''ping'', rpc_params = JNull\<rparr>"

definition started_endpoint :: McpEndpointInfo where
  "started_endpoint = \<lparr>me_url = endpoint_url (local_addr 80), me_bearer_token = ''tok'', me_stdio_shim_path = None\<rparr>"

definition demo_shim :: crates where
  "demo_shim = sample_crates [(''E'', endpoint_json started_endpoint), (''P'', ping_json)]"

lemma demo_dirs: "\<exists>f1. ensure_dirs (with_root [''r'']) demo_files = (Ok (), f1) \<and> fs_faults f1 = [] \<and> fs_umask f1 = 0x12 \<and>
    clear_way f1 [''r'', ''data''] \<and> (\<exists>m. fs_nodes f1 [''r'', ''data''] = Some (Dir m)) \<and>
    (\<exists>m. fs_nodes f1 [''r''] = Some (Dir m)) \<and> (\<exists>m. fs_nodes f1 [''r'', ''logs''] = Some (Dir m)) \<and> (\<forall>q. length q = 3 \<longrightarrow> fs_nodes f1 q = None)"
  by (simp add: ensure_dirs_def with_root_def create_dir_all_def make_dir_def set_permissions_def fs_call_def demo_files_def
      set_node_def observe_def io_bind_def upt_rec clear_way_def is_dir_def prefix_Cons Cons_eq_append_conv)

lemma demo_main:
  "\<exists>st C s f' w'. daemon_main demo_shim quiet_env demo_startup ''0.1'' startup_args (demo_files, empty_net) = (Ok (st, C, s), (f', w')) \<and>
     fs_faults f' = [] \<and> dc_mcp_endpoint C = started_endpoint \<and> mcp_bearer_token st = ''tok''"
proof -
  have h: "start_providers demo_shim quiet_env cfg empty_db (f, w) = (Ok (daemon_new empty_db w), (f, w))" for cfg f w
    by (simp add: start_providers_def hydrate_providers_def account_list_def on_storage_def sql_select_accounts_def
        sql_def empty_db_def daemon_new_def io_bind_def)
  obtain f1 where f1: "ensure_dirs (with_root [''r'']) demo_files = (Ok (), f1)" "fs_faults f1 = []"
    "clear_way f1 [''r'', ''data'']" "\<forall>q. length q = 3 \<longrightarrow> fs_nodes f1 q = None"
    "\<exists>m. fs_nodes f1 [''r'', ''data''] = Some (Dir m)" "\<exists>m. fs_nodes f1 [''r''] = Some (Dir m)"
    "\<exists>m. fs_nodes f1 [''r'', ''logs''] = Some (Dir m)"
    using demo_dirs by blast
  have l: "\<exists>b. init_tracing (su_tracing demo_startup) (pt_logs (with_root [''r''])) False f1 = (Ok b, f1)"
    using f1(2,6,7) by (auto simp: init_tracing_def with_root_def create_dir_all_def make_dir_def fs_call_def upt_rec
        io_bind_def demo_startup_def)
  have o: "storage_open demo_sqlite (state_db (with_root [''r''])) f1 = (Ok empty_db, f1)"
    using f1(2,5,6) by (auto simp: storage_open_def state_db_def with_root_def create_dir_all_def make_dir_def fs_call_def
        upt_rec io_bind_def demo_sqlite_def)
  have "fst (write_endpoint demo_shim 7 [''r'', ''data'', ''endpoint.json''] started_endpoint f1) = Ok () \<and>
      fs_faults (snd (write_endpoint demo_shim 7 [''r'', ''data'', ''endpoint.json''] started_endpoint f1)) = []"
    by (rule write_endpoint_ok) (use f1 in \<open>simp_all add: endpoint_tmp_def is_dir_def\<close>)
  then obtain f2 where f2: "write_endpoint demo_shim 7 [''r'', ''data'', ''endpoint.json''] started_endpoint f1 = (Ok (), f2)" "fs_faults f2 = []"
    by (metis prod.collapse)
  have e: "\<lparr>me_url = endpoint_url (local_addr 80), me_bearer_token = ''tok'', me_stdio_shim_path = None\<rparr> = started_endpoint"
    "fresh_bearer_token demo_shim ''tok'' = ''tok''" "endpoint_path (with_root [''r'']) = [''r'', ''data'', ''endpoint.json'']"
    by (simp_all add: started_endpoint_def fresh_bearer_token_def demo_shim_def sample_crates_def endpoint_path_def with_root_def)
  show ?thesis
    using f1(1) f2 o l by (auto simp: daemon_main_def io_bind_def demo_startup_def startup_args_def on_files_def h e Let_def)
qed

lemma demo_shim_laws:
  "trim_end (json_to_string demo_shim v) = json_to_string demo_shim v"
  "json_from_str demo_shim (json_to_string_pretty demo_shim (endpoint_json started_endpoint)) = Inr (endpoint_json started_endpoint)"
  "header_to_str demo_shim h = Some h" "is_request demo_shim ''P'' ping_request"
proof -
  have t: "trim_end ''E'' = ''E''" "trim_end ''P'' = ''P''" "trim_end ''?'' = ''?''" by code_simp+
  then show "trim_end (json_to_string demo_shim v) = json_to_string demo_shim v"
    by (simp add: demo_shim_def sample_crates_def)
  have "valid_utf8 ''P''" "trim ''P'' \<noteq> []" by code_simp+
  then show "is_request demo_shim ''P'' ping_request"
    by (simp add: is_request_def demo_shim_def sample_crates_def ping_json_def ping_request_def de_json_rpc_req_def de_defs
        del: valid_utf8.simps)
qed (simp_all add: demo_shim_def sample_crates_def)


text \<open>A stale token: the shim reports the refusal without the identifier of the request.\<close>

lemma stale_token_reported:
  assumes "is_request X line req" and "\<not> check_auth X (shim_headers info) (mcp_bearer_token st)"
  shows "fst (shim_loop X show_status (daemon_http X A st info wait) info [(line, d)] s) =
    [json_to_string X (shim_error show_status 401
       (json_to_string X (rpc_err (rpc_id req) (-32001) ''missing or invalid bearer token'')))]"
  using assms by (auto simp: is_request_def daemon_http_def http_route_def handle_post_def is_success_def)

text \<open>
  The endpoint file survives a shutdown: a shim that is started afterwards reads the address and the
  token of a daemon that is gone.
\<close>

lemma endpoint_survives_shutdown:
  assumes "daemon_main X E U version args (f, w) = (Ok (st, C, s), (f', w'))"
    and "(case ag_root args of Some r \<Rightarrow> Ok (with_root r) | None \<Rightarrow> default_for_user (su_os U) (su_dirs U)) = Ok paths"
    and "fs_faults f' = []" and "endpoint_path paths \<noteq> pid_file paths"
    and "json_from_str X (json_to_string_pretty X (endpoint_json (dc_mcp_endpoint C))) = Inr (endpoint_json (dc_mcp_endpoint C))"
  shows "fst (shim_endpoint X (Some (endpoint_path paths)) dflt (snd (daemon_shutdown paths f'))) = Ok (dc_mcp_endpoint C)"
proof -
  let ?f = "snd (daemon_shutdown paths f')"
  obtain m where "fs_nodes f' (endpoint_path paths) = Some (File m (json_to_string_pretty X (endpoint_json (dc_mcp_endpoint C))))"
    using daemon_main_Ok [OF assms(1)] assms(2) by auto
  then have "fs_nodes ?f (endpoint_path paths) = Some (File m (json_to_string_pretty X (endpoint_json (dc_mcp_endpoint C))))"
    using daemon_shutdown_keeps [OF assms(4)] by simp
  moreover have "fs_faults ?f = []"
    using assms(3) by (auto simp: daemon_shutdown_def remove_file_def fs_call_def split: option.split node.split)
  ultimately show ?thesis
    using assms(5) by (simp add: shim_endpoint_def io_bind_def with_context_def read_file_def fs_call_def)
qed

end
