(* ===== verification/Transport.thy ===== *)
theory Transport
  imports Files
begin

text \<open>
  Binding the socket of the IPC server on Unix (\<^verbatim>\<open>IpcListener::bind\<close> of \<^verbatim>\<open>ipc/transport.rs\<close>): a stale
  socket is removed, and directory and socket are made private. Accepting, connecting, reading and
  writing are the operating system's; named pipes of Windows are in \<^theory_text>\<open>Named_Pipe\<close>.
\<close>

definition bind_socket :: "path \<Rightarrow> (files, unit) io" where
  "bind_socket p = fs_call (\<lambda>k f. f) (\<lambda>f.
     if fs_nodes f p \<noteq> None then (Err (Io ''Address already in use''), f)
     else if \<not> is_dir f (butlast p) then (Err (Io ''No such file or directory''), f)
     else (Ok (), set_node p (Some (Socket (0x1FF AND NOT (fs_umask f)))) f))"

text \<open>The modes are octal 700 and 600; failures to set them are ignored, as in the code.\<close>

definition listener_bind :: "path \<Rightarrow> (files, unit) io" where
  "listener_bind p =
     io_bind (if p = [] then io_ret ()
       else io_bind (create_dir_all (butlast p)) (\<lambda>_. io_ignore (set_permissions (butlast p) 0x1C0))) (\<lambda>_.
     io_bind (\<lambda>f. if fs_nodes f p \<noteq> None then remove_file p f else (Ok (), f)) (\<lambda>_.
     io_bind (bind_socket p) (\<lambda>_.
     io_ignore (set_permissions p 0x180))))"

section \<open>Properties\<close>

text \<open>Whoever can see the socket with an entry of the new listener is its owner.\<close>

definition guarded :: "path \<Rightarrow> node option \<Rightarrow> (path \<rightharpoonup> node) \<Rightarrow> bool" where
  "guarded p old g \<longleftrightarrow> g p = old \<or> g p = None \<or>
     (\<exists>m. g p = Some (Socket m) \<and> (m AND 0x3F = 0 \<or> g (butlast p) = Some (Dir 0x1C0)))"



end
