(* ===== verification/Named_Pipe.thy ===== *)
theory Named_Pipe
  imports Rust_Str
begin

text \<open>
  The transport on Windows (\<^verbatim>\<open>ipc/transport.rs\<close>, second \<^verbatim>\<open>mod imp\<close>): a listener that always keeps the next
  instance of a named pipe in advance, and a client that tries again while all instances are taken.
  The pipe itself is the operating system's: a list of instances, of which a client takes the first
  free one; creating an instance may fail.
\<close>

section \<open>A named pipe of the operating system\<close>

text \<open>An instance waits for a client, has one, or its handle is closed.\<close>

datatype pipe_instance = Free | Taken | Gone

record pipe =
  pi_instances :: "pipe_instance list"
  pi_faults :: "string option list"

definition pipe_exists :: "pipe \<Rightarrow> bool" where
  "pipe_exists w \<longleftrightarrow> (\<exists>i \<in> set (pi_instances w). i \<noteq> Gone)"

definition create_instance :: "bool \<Rightarrow> (pipe, nat) io" where
  "create_instance first w = (case pi_faults w of
      Some e # fs \<Rightarrow> (Err (Io e), w\<lparr>pi_faults := fs\<rparr>)
    | fs \<Rightarrow> if first \<and> pipe_exists w then (Err (Io ''Access is denied.''), w\<lparr>pi_faults := tl fs\<rparr>)
        else (Ok (length (pi_instances w)), w\<lparr>pi_faults := tl fs, pi_instances := pi_instances w @ [Free]\<rparr>))"

definition close_instance :: "nat \<Rightarrow> pipe \<Rightarrow> pipe" where
  "close_instance h w = w\<lparr>pi_instances := (pi_instances w)[h := Gone]\<rparr>"

fun first_free :: "pipe_instance list \<Rightarrow> nat option" where
  "first_free [] = None"
| "first_free (i # is) = (if i = Free then Some 0 else map_option Suc (first_free is))"

text \<open>\<^verbatim>\<open>ClientOptions::open\<close>: error 2 is \<open>file not found\<close>, 231 is \<open>pipe busy\<close>.\<close>

definition client_open :: "pipe \<Rightarrow> (nat + nat) \<times> pipe" where
  "client_open w = (if \<not> pipe_exists w then (Inl 2, w)
     else case first_free (pi_instances w) of
         None \<Rightarrow> (Inl 231, w)
       | Some h \<Rightarrow> (Inr h, w\<lparr>pi_instances := (pi_instances w)[h := Taken]\<rparr>))"

section \<open>The listener\<close>

record IpcListener =
  li_next :: "nat option"

definition pipe_bind :: "(pipe, IpcListener) io" where
  "pipe_bind = io_bind (create_instance True) (\<lambda>first. io_ret \<lparr>li_next = Some first\<rparr>)"

text \<open>
  \<open>accept\<close> up to the point where it waits: the instance kept in advance is taken and the next one
  created. When that fails, the instance taken is dropped and nothing is kept.
\<close>

definition accept_arm :: "IpcListener \<times> pipe \<Rightarrow> nat res \<times> (IpcListener \<times> pipe)" where
  "accept_arm = (\<lambda>(l, w). case li_next l of
      None \<Rightarrow> (Err (Io ''listener instance missing''), (l, w))
    | Some server \<Rightarrow> (case create_instance False w of
        (Ok next, w') \<Rightarrow> (Ok server, (l\<lparr>li_next := Some next\<rparr>, w'))
      | (Err e, w') \<Rightarrow> (Err e, (l\<lparr>li_next := None\<rparr>, close_instance server w'))
      | (Panic m, w') \<Rightarrow> (Panic m, (l\<lparr>li_next := None\<rparr>, close_instance server w'))))"

text \<open>\<open>accept\<close> returns when a client has taken the instance it waits on.\<close>

definition accept_ready :: "nat \<Rightarrow> pipe \<Rightarrow> bool" where
  "accept_ready server w \<longleftrightarrow> server < length (pi_instances w) \<and> pi_instances w ! server = Taken"

section \<open>The client\<close>

text \<open>
  \<open>connect\<close> over the states in which the pipe is found at its attempts, 20 milliseconds apart; in
  between other processes change it.
\<close>

fun connect_loop :: "nat \<Rightarrow> (nat \<Rightarrow> pipe) \<Rightarrow> nat res" where
  "connect_loop 0 pipes = Err (Io ''named pipe busy after retries'')"
| "connect_loop (Suc n) pipes = (case fst (client_open (pipes 0)) of
      Inr h \<Rightarrow> Ok h
    | Inl e \<Rightarrow> if e = 231 then connect_loop n (\<lambda>k. pipes (Suc k)) else Err (Io (''os error '' @ show_nat e)))"

definition pipe_connect :: "(nat \<Rightarrow> pipe) \<Rightarrow> nat res" where
  "pipe_connect pipes = connect_loop 50 pipes"

section \<open>Listener and clients together\<close>

text \<open>\<open>ps_armed\<close>: the instance that a running \<open>accept\<close> waits on; \<open>ps_accepted\<close>: the streams it returned.\<close>

record pipe_system =
  ps_listener :: IpcListener
  ps_pipe :: pipe
  ps_armed :: "nat option"
  ps_accepted :: "nat list"
  ps_opened :: "nat list"

datatype pipe_event = Arm | Return | Open

definition pipe_step :: "pipe_event \<Rightarrow> pipe_system \<Rightarrow> pipe_system" where
  "pipe_step e s = (case e of
      Arm \<Rightarrow> (case ps_armed s of
          Some h \<Rightarrow> s
        | None \<Rightarrow> (case accept_arm (ps_listener s, ps_pipe s) of
            (Ok h, l, w) \<Rightarrow> s\<lparr>ps_listener := l, ps_pipe := w, ps_armed := Some h\<rparr>
          | (_, l, w) \<Rightarrow> s\<lparr>ps_listener := l, ps_pipe := w\<rparr>))
    | Return \<Rightarrow> (case ps_armed s of
          None \<Rightarrow> s
        | Some h \<Rightarrow> if accept_ready h (ps_pipe s) then s\<lparr>ps_armed := None, ps_accepted := ps_accepted s @ [h]\<rparr> else s)
    | Open \<Rightarrow> (case client_open (ps_pipe s) of
          (Inl e, w) \<Rightarrow> s\<lparr>ps_pipe := w\<rparr>
        | (Inr h, w) \<Rightarrow> s\<lparr>ps_pipe := w, ps_opened := ps_opened s @ [h]\<rparr>))"

section \<open>Facts\<close>

lemma first_free_prefix: "first_free (replicate j Taken @ replicate m Free) = (if m = 0 then None else Some j)"
proof (induction j)
  case 0
  then show ?case by (cases m) simp_all
qed simp

lemma take_free:
  "0 < m \<Longrightarrow> (replicate j Taken @ replicate m Free)[j := Taken] = replicate (Suc j) Taken @ replicate (m - 1) Free"
  by (cases m) (simp_all add: list_update_append replicate_app_Cons_same)

text \<open>
  The shape of every state without failures: instances are taken in the order in which they were
  created, and \<open>accept\<close> returns them in that order.
\<close>

definition pipe_shape :: "nat \<Rightarrow> nat \<Rightarrow> pipe_system \<Rightarrow> bool" where
  "pipe_shape k j s \<longleftrightarrow> (let n = (if ps_armed s = None then k + 1 else k + 2) in
     k \<le> j \<and> j \<le> n \<and> pi_faults (ps_pipe s) = [] \<and>
     pi_instances (ps_pipe s) = replicate j Taken @ replicate (n - j) Free \<and>
     li_next (ps_listener s) = Some (n - 1) \<and> (\<forall>h. ps_armed s = Some h \<longrightarrow> h = k) \<and>
     ps_accepted s = [0..<k] \<and> ps_opened s = [0..<j])"

lemma pipe_shape_exists: "pipe_shape k j s \<Longrightarrow> pipe_exists (ps_pipe s)"
  by (cases j) (auto simp: pipe_shape_def pipe_exists_def Let_def)

lemma pipe_shape_step:
  assumes "pipe_shape k j s"
  shows "\<exists>k' j'. pipe_shape k' j' (pipe_step e s)"
proof (cases e)
  case Arm
  show ?thesis
  proof (cases "ps_armed s")
    case None
    with assms have "pipe_shape k j (pipe_step e s)"
      by (auto simp: Arm pipe_shape_def pipe_step_def accept_arm_def create_instance_def Let_def Suc_diff_le replicate_append_same)
    then show ?thesis by blast
  qed (use assms Arm in \<open>auto simp: pipe_step_def\<close>)
next
  case Return
  show ?thesis
  proof (cases "\<exists>h. ps_armed s = Some h \<and> accept_ready h (ps_pipe s)")
    case True
    with assms have "pipe_shape (Suc k) j (pipe_step e s)"
      by (auto simp: Return pipe_shape_def pipe_step_def accept_ready_def Let_def nth_append split: if_splits)
    then show ?thesis by blast
  qed (use assms Return in \<open>auto simp: pipe_step_def split: option.split\<close>)
next
  case Open
  let ?n = "if ps_armed s = None then k + 1 else k + 2"
  have f: "first_free (pi_instances (ps_pipe s)) = (if j < ?n then Some j else None)"
    using assms first_free_prefix [of j "?n - j"] by (auto simp: pipe_shape_def Let_def)
  show ?thesis
  proof (cases "j < ?n")
    case True
    then have "pipe_shape k (Suc j) (pipe_step e s)"
      using assms pipe_shape_exists [OF assms] f take_free [of "?n - j" j]
      by (simp add: Open pipe_shape_def pipe_step_def client_open_def Let_def del: replicate_Suc)
    then show ?thesis by blast
  next
    case False
    then have "pipe_step e s = s" using pipe_shape_exists [OF assms] f by (simp add: Open pipe_step_def client_open_def)
    with assms show ?thesis by metis
  qed
qed

lemma pipe_shape_run: "pipe_shape k j s \<Longrightarrow> \<exists>k' j'. pipe_shape k' j' (fold pipe_step es s)"
proof (induction es arbitrary: k j s)
  case (Cons e es)
  from pipe_shape_step [OF Cons.prems, of e] Cons.IH show ?case by auto
qed auto

definition attempt :: "(nat \<Rightarrow> pipe) \<Rightarrow> nat \<Rightarrow> nat + nat" where
  "attempt pipes k = fst (client_open (pipes k))"

lemma connect_loop_settled:
  assumes "k < n" "\<And>j. j < k \<Longrightarrow> attempt pipes j = Inl 231" "attempt pipes k \<noteq> Inl 231"
  shows "connect_loop n pipes = (case attempt pipes k of Inr h \<Rightarrow> Ok h | Inl c \<Rightarrow> Err (Io (''os error '' @ show_nat c)))"
  using assms
proof (induction n pipes arbitrary: k rule: connect_loop.induct)
  case (2 n pipes)
  show ?case
  proof (cases k)
    case 0
    then show ?thesis using 2(4) by (auto simp: attempt_def split: sum.split)
  next
    case (Suc k')
    have "connect_loop n (\<lambda>k. pipes (Suc k)) = (case attempt (\<lambda>k. pipes (Suc k)) k' of Inr h \<Rightarrow> Ok h | Inl c \<Rightarrow> Err (Io (''os error '' @ show_nat c)))"
      using 2(2,4) 2(3) [of "Suc j" for j] 2(3) [of 0] Suc by (intro 2(1) [of 231]) (auto simp: attempt_def)
    then show ?thesis using 2(3) [of 0] Suc by (simp add: attempt_def)
  qed
qed simp

lemma connect_loop_busy:
  "(\<And>j. j < n \<Longrightarrow> attempt pipes j = Inl 231) \<Longrightarrow> connect_loop n pipes = Err (Io ''named pipe busy after retries'')"
proof (induction n pipes rule: connect_loop.induct)
  case (2 n pipes)
  then show ?case using 2(2) [of 0] 2(2) [of "Suc j" for j] by (auto simp: attempt_def)
qed simp

section \<open>Properties\<close>



text \<open>
  Connecting on Windows ends after at most fifty attempts: the first attempt that does not find
  every instance taken settles it, with the stream or with the error of the system; if there is none
  among fifty, the client gives up.
\<close>

lemma pipe_connect_outcome:
  "(\<exists>k < 50. (\<forall>j < k. attempt pipes j = Inl 231) \<and> attempt pipes k \<noteq> Inl 231 \<and>
      pipe_connect pipes = (case attempt pipes k of Inr h \<Rightarrow> Ok h | Inl c \<Rightarrow> Err (Io (''os error '' @ show_nat c)))) \<or>
   (\<forall>k < 50. attempt pipes k = Inl 231) \<and> pipe_connect pipes = Err (Io ''named pipe busy after retries'')"
proof (cases "\<forall>k < 50. attempt pipes k = Inl 231")
  case True
  then show ?thesis using connect_loop_busy [of 50 pipes] by (simp add: pipe_connect_def)
next
  case False
  then obtain k where k: "k < 50 \<and> attempt pipes k \<noteq> Inl 231" "\<forall>j < k. \<not> (j < 50 \<and> attempt pipes j \<noteq> Inl 231)"
    using exists_least_iff [of "\<lambda>k. k < 50 \<and> attempt pipes k \<noteq> Inl 231"] by auto
  then have "\<forall>j < k. attempt pipes j = Inl 231" by auto
  with k connect_loop_settled [of k 50 pipes] show ?thesis unfolding pipe_connect_def by blast
qed

end
