(* ===== verification/Cache.thy ===== *)
theory Cache
  imports Core_Types
begin

text \<open>
  The message cache (\<^verbatim>\<open>cache.rs\<close>): a bounded cache keyed by account and message with a lifetime per
  entry. The least-recently-used map underneath is the package \<^verbatim>\<open>lru\<close>, a parameter; \<open>lru_laws\<close> states
  what its documentation promises. Times are those of the monotonic clock, in nanoseconds.
\<close>

section \<open>The map underneath\<close>

record ('k, 'e, 'l) lru =
  lru_new :: "nat \<Rightarrow> 'l"
  lru_cap :: "'l \<Rightarrow> nat"
  lru_put :: "'k \<Rightarrow> 'e \<Rightarrow> 'l \<Rightarrow> 'l"
  lru_get :: "'k \<Rightarrow> 'l \<Rightarrow> 'e option \<times> 'l"
  lru_pop :: "'k \<Rightarrow> 'l \<Rightarrow> 'l"
  lru_iter :: "'l \<Rightarrow> ('k \<times> 'e) list"

definition lru_lookup :: "('k, 'e, 'l) lru \<Rightarrow> 'l \<Rightarrow> 'k \<rightharpoonup> 'e" where
  "lru_lookup L l = map_of (lru_iter L l)"

text \<open>
  On the set \<open>S\<close> of the maps the package can build: a new map is empty; it never holds more entries
  than its capacity, and each key once; a lookup finds the entry and changes only the order; an
  insertion stores its entry, may evict others, and evicts none while there is room; a removal
  takes away one key.
\<close>

definition lru_laws :: "('k, 'e, 'l) lru \<Rightarrow> 'l set \<Rightarrow> bool" where
  "lru_laws L S \<longleftrightarrow>
     (\<forall>n > 0. lru_new L n \<in> S \<and> lru_iter L (lru_new L n) = [] \<and> lru_cap L (lru_new L n) = n) \<and>
     (\<forall>l \<in> S. length (lru_iter L l) \<le> lru_cap L l \<and> distinct (map fst (lru_iter L l))) \<and>
     (\<forall>l \<in> S. \<forall>k. snd (lru_get L k l) \<in> S \<and> lru_cap L (snd (lru_get L k l)) = lru_cap L l \<and>
        fst (lru_get L k l) = lru_lookup L l k \<and> lru_lookup L (snd (lru_get L k l)) = lru_lookup L l) \<and>
     (\<forall>l \<in> S. \<forall>k e. lru_put L k e l \<in> S \<and> lru_cap L (lru_put L k e l) = lru_cap L l \<and>
        lru_lookup L (lru_put L k e l) \<subseteq>\<^sub>m (lru_lookup L l)(k \<mapsto> e) \<and>
        lru_lookup L (lru_put L k e l) k = Some e \<and>
        (length (lru_iter L l) < lru_cap L l \<longrightarrow> lru_lookup L (lru_put L k e l) = (lru_lookup L l)(k \<mapsto> e))) \<and>
     (\<forall>l \<in> S. \<forall>k. lru_pop L k l \<in> S \<and> lru_cap L (lru_pop L k l) = lru_cap L l \<and>
        lru_lookup L (lru_pop L k l) = (lru_lookup L l)(k := None))"

section \<open>The cache\<close>

record 'v CacheEntry =
  ce_value :: 'v
  ce_inserted :: nat

record 'l MessageCache =
  mc_inner :: 'l
  mc_ttl :: nat

type_synonym cache_key = "AccountId \<times> MessageId"

definition cache_new :: "(cache_key, 'v CacheEntry, 'l) lru \<Rightarrow> nat \<Rightarrow> nat \<Rightarrow> 'l MessageCache" where
  "cache_new L capacity ttl = \<lparr>mc_inner = lru_new L capacity, mc_ttl = ttl\<rparr>"

definition cache_put ::
  "(cache_key, 'v CacheEntry, 'l) lru \<Rightarrow> nat \<Rightarrow> AccountId \<Rightarrow> MessageId \<Rightarrow> 'v \<Rightarrow> 'l MessageCache \<Rightarrow> 'l MessageCache" where
  "cache_put L now account msg value c =
     c\<lparr>mc_inner := lru_put L (account, msg) \<lparr>ce_value = value, ce_inserted = now\<rparr> (mc_inner c)\<rparr>"

definition cache_get ::
  "(cache_key, 'v CacheEntry, 'l) lru \<Rightarrow> nat \<Rightarrow> AccountId \<Rightarrow> MessageId \<Rightarrow> 'l MessageCache \<Rightarrow> 'v option \<times> 'l MessageCache" where
  "cache_get L now account msg c =
     (let key = (account, msg); (found, g) = lru_get L key (mc_inner c) in
      case found of
        Some entry \<Rightarrow>
          if now - ce_inserted entry \<le> mc_ttl c then (Some (ce_value entry), c\<lparr>mc_inner := g\<rparr>)
          else (None, c\<lparr>mc_inner := lru_pop L key g\<rparr>)
      | None \<Rightarrow> (None, c\<lparr>mc_inner := lru_pop L key g\<rparr>))"

definition invalidate_account ::
  "(cache_key, 'v CacheEntry, 'l) lru \<Rightarrow> AccountId \<Rightarrow> 'l MessageCache \<Rightarrow> 'l MessageCache" where
  "invalidate_account L account c =
     (let to_remove = map fst (filter (\<lambda>(k, _). fst k = account) (lru_iter L (mc_inner c))) in
      c\<lparr>mc_inner := fold (lru_pop L) to_remove (mc_inner c)\<rparr>)"

section \<open>Sequences of operations\<close>

datatype 'v cache_op = Put nat AccountId MessageId 'v | Get nat AccountId MessageId | Invalidate AccountId

fun cache_exec :: "(cache_key, 'v CacheEntry, 'l) lru \<Rightarrow> 'v cache_op \<Rightarrow> 'l MessageCache \<Rightarrow> 'l MessageCache" where
  "cache_exec L (Put now a m v) c = cache_put L now a m v c"
| "cache_exec L (Get now a m) c = snd (cache_get L now a m c)"
| "cache_exec L (Invalidate a) c = invalidate_account L a c"

text \<open>The reference: a table without bound and without expiry, the last value put for each key.\<close>

fun ideal_exec :: "'v cache_op \<Rightarrow> (cache_key \<rightharpoonup> 'v CacheEntry) \<Rightarrow> (cache_key \<rightharpoonup> 'v CacheEntry)" where
  "ideal_exec (Put now a m v) t = t((a, m) \<mapsto> \<lparr>ce_value = v, ce_inserted = now\<rparr>)"
| "ideal_exec (Get now a m) t = t"
| "ideal_exec (Invalidate a) t = (\<lambda>k. if fst k = a then None else t k)"

section \<open>Facts\<close>

lemma lru_lawsD:
  assumes "lru_laws L S" and "l \<in> S"
  shows "length (lru_iter L l) \<le> lru_cap L l" "distinct (map fst (lru_iter L l))"
    "snd (lru_get L k l) \<in> S" "lru_cap L (snd (lru_get L k l)) = lru_cap L l"
    "fst (lru_get L k l) = lru_lookup L l k" "lru_lookup L (snd (lru_get L k l)) = lru_lookup L l"
    "lru_put L k e l \<in> S" "lru_cap L (lru_put L k e l) = lru_cap L l"
    "lru_lookup L (lru_put L k e l) \<subseteq>\<^sub>m (lru_lookup L l)(k \<mapsto> e)" "lru_lookup L (lru_put L k e l) k = Some e"
    "lru_pop L k l \<in> S" "lru_cap L (lru_pop L k l) = lru_cap L l" "lru_lookup L (lru_pop L k l) = (lru_lookup L l)(k := None)"
  using assms unfolding lru_laws_def by blast+

lemma fold_pop:
  assumes "lru_laws L S" and "l \<in> S"
  shows "fold (lru_pop L) ks l \<in> S \<and> lru_cap L (fold (lru_pop L) ks l) = lru_cap L l \<and>
    lru_lookup L (fold (lru_pop L) ks l) = (\<lambda>k. if k \<in> set ks then None else lru_lookup L l k)"
  using assms(2)
proof (induction ks arbitrary: l)
  case (Cons k ks)
  with Cons.IH [of "lru_pop L k l"] show ?case
    using lru_lawsD(11-13) [OF assms(1) Cons.prems, of k] by (auto simp: fun_eq_iff)
qed simp

lemma invalidate_lookup:
  assumes "lru_laws L S" and "mc_inner c \<in> S"
  shows "mc_inner (invalidate_account L a c) \<in> S \<and> lru_cap L (mc_inner (invalidate_account L a c)) = lru_cap L (mc_inner c) \<and>
    lru_lookup L (mc_inner (invalidate_account L a c)) = (\<lambda>k. if fst k = a then None else lru_lookup L (mc_inner c) k)"
proof -
  let ?ks = "map fst (filter (\<lambda>(k, _). fst k = a) (lru_iter L (mc_inner c)))"
  have "k \<in> set ?ks \<longleftrightarrow> fst k = a \<and> lru_lookup L (mc_inner c) k \<noteq> None" for k
    by (force simp: lru_lookup_def map_of_eq_None_iff)
  with fold_pop [OF assms, of ?ks] show ?thesis by (auto simp: invalidate_account_def Let_def fun_eq_iff)
qed

text \<open>The cache holds part of the reference table, within its capacity.\<close>

definition cache_rel :: "(cache_key, 'v CacheEntry, 'l) lru \<Rightarrow> 'l set \<Rightarrow> nat \<Rightarrow> nat \<Rightarrow> 'l MessageCache \<Rightarrow> (cache_key \<rightharpoonup> 'v CacheEntry) \<Rightarrow> bool" where
  "cache_rel L S n ttl c t \<longleftrightarrow> mc_inner c \<in> S \<and> lru_cap L (mc_inner c) = n \<and> mc_ttl c = ttl \<and> lru_lookup L (mc_inner c) \<subseteq>\<^sub>m t"

lemma cache_rel_step:
  assumes "lru_laws L S" and "cache_rel L S n ttl c t"
  shows "cache_rel L S n ttl (cache_exec L op c) (ideal_exec op t)"
proof -
  have c: "mc_inner c \<in> S" "lru_cap L (mc_inner c) = n" "mc_ttl c = ttl" "lru_lookup L (mc_inner c) \<subseteq>\<^sub>m t"
    using assms(2) by (simp_all add: cache_rel_def)
  note laws = lru_lawsD [OF assms(1) c(1)]
  show ?thesis
  proof (cases op)
    case (Put now a m v)
    have "lru_lookup L (lru_put L k e (mc_inner c)) \<subseteq>\<^sub>m t(k \<mapsto> e)" for k e
      using laws(9) [of k e] c(4) by (rule map_le_trans [OF _ map_le_upd])
    with Put show ?thesis using c laws(7,8) by (simp add: cache_rel_def cache_put_def)
  next
    case (Get now a m)
    note pop = lru_lawsD [OF assms(1) laws(3)]
    have "(lru_lookup L (mc_inner c))(k := None) \<subseteq>\<^sub>m t" for k using c(4) by (auto simp: map_le_def)
    with Get show ?thesis using c laws(3-6) pop(11-13)
      by (simp add: cache_rel_def cache_get_def Let_def case_prod_unfold split: option.split)
  next
    case (Invalidate a)
    have "(\<lambda>k. if fst k = a then None else lru_lookup L (mc_inner c) k) \<subseteq>\<^sub>m (\<lambda>k. if fst k = a then None else t k)"
      using c(4) by (auto simp: map_le_def dom_def)
    moreover have "mc_ttl (invalidate_account L a c) = ttl" using c(3) by (simp add: invalidate_account_def Let_def)
    ultimately show ?thesis
      using c(2) invalidate_lookup [OF assms(1) c(1), of a] Invalidate by (simp add: cache_rel_def)
  qed
qed

lemma cache_rel_run:
  assumes "lru_laws L S" and "cache_rel L S n ttl c t"
  shows "cache_rel L S n ttl (fold (cache_exec L) ops c) (fold ideal_exec ops t)"
  using assms(2) by (induction ops arbitrary: c t) (simp_all add: cache_rel_step [OF assms(1)])

section \<open>Properties\<close>

text \<open>
  C40: The cache never serves what it should not, and stays bounded: after any sequence of
  operations it holds at most its capacity, and a lookup returns a value only if it is the last one
  put under exactly that account and message, not invalidated since, and no older than the
  lifetime. A value just put is found as long as it is fresh, and nothing of an account is found
  right after its invalidation, while the entries of other accounts are still there.
\<close>

theorem cache_never_serves_stale:
  assumes "lru_laws L S" and "0 < n" and "c = fold (cache_exec L) ops (cache_new L n ttl)"
  shows "length (lru_iter L (mc_inner c)) \<le> n \<and>
    (\<forall>now a m v. fst (cache_get L now a m c) = Some v \<longrightarrow>
       (\<exists>t. fold ideal_exec ops Map.empty (a, m) = Some \<lparr>ce_value = v, ce_inserted = t\<rparr> \<and> now - t \<le> ttl)) \<and>
    (\<forall>now now' a m v. fst (cache_get L now' a m (cache_put L now a m v c)) = (if now' - now \<le> ttl then Some v else None)) \<and>
    (\<forall>now a b m. fst (cache_get L now b m (invalidate_account L a c)) = (if b = a then None else fst (cache_get L now b m c)))"
proof -
  have "lru_new L n \<in> S" "lru_iter L (lru_new L n) = []" "lru_cap L (lru_new L n) = n"
    using assms(1,2) unfolding lru_laws_def by blast+
  then have "cache_rel L S n ttl (cache_new L n ttl) Map.empty"
    by (simp add: cache_rel_def cache_new_def lru_lookup_def)
  from cache_rel_run [OF assms(1) this, of ops] have r: "cache_rel L S n ttl c (fold ideal_exec ops Map.empty)"
    by (simp add: assms(3))
  then have c: "mc_inner c \<in> S" "lru_cap L (mc_inner c) = n" "mc_ttl c = ttl"
    "lru_lookup L (mc_inner c) \<subseteq>\<^sub>m fold ideal_exec ops Map.empty" by (simp_all add: cache_rel_def)
  note laws = lru_lawsD [OF assms(1) c(1)]
  have get: "fst (cache_get L now a m d) = (case lru_lookup L (mc_inner d) (a, m) of
      Some e \<Rightarrow> if now - ce_inserted e \<le> mc_ttl d then Some (ce_value e) else None | None \<Rightarrow> None)"
    if "mc_inner d \<in> S" for now a m d
    using lru_lawsD(5) [OF assms(1) that] by (simp add: cache_get_def Let_def case_prod_unfold split: option.split)
  have "length (lru_iter L (mc_inner c)) \<le> n" using laws(1) c(2) by simp
  moreover have "\<exists>t. fold ideal_exec ops Map.empty (a, m) = Some \<lparr>ce_value = v, ce_inserted = t\<rparr> \<and> now - t \<le> ttl"
    if found: "fst (cache_get L now a m c) = Some v" for now a m v
  proof -
    obtain e where e: "lru_lookup L (mc_inner c) (a, m) = Some e" "now - ce_inserted e \<le> ttl" "v = ce_value e"
      using found unfolding get [OF c(1)] c(3) by (auto split: option.splits if_splits)
    have "fold ideal_exec ops Map.empty (a, m) = Some e" using e(1) c(4) by (metis domI map_le_def)
    with e show ?thesis by (intro exI [of _ "ce_inserted e"]) simp
  qed
  moreover have "fst (cache_get L now' a m (cache_put L now a m v c)) = (if now' - now \<le> ttl then Some v else None)" for now now' a m v
    using laws(7,10) c(3) by (simp add: get cache_put_def)
  moreover have "fst (cache_get L now b m (invalidate_account L a c)) = (if b = a then None else fst (cache_get L now b m c))" for now a b m
  proof -
    have "mc_ttl (invalidate_account L a c) = mc_ttl c" by (simp add: invalidate_account_def Let_def)
    then show ?thesis using invalidate_lookup [OF assms(1) c(1), of a] by (simp add: get c(1) split: option.split)
  qed
  ultimately show ?thesis by blast
qed

text \<open>A list with the most recent entry first has the laws.\<close>

definition list_lru :: "('k, 'e, nat \<times> ('k \<times> 'e) list) lru" where
  "list_lru = \<lparr>lru_new = (\<lambda>n. (n, [])), lru_cap = fst,
     lru_put = (\<lambda>k e (n, xs). (n, take n ((k, e) # filter (\<lambda>p. fst p \<noteq> k) xs))),
     lru_get = (\<lambda>k (n, xs). (map_of xs k, (n, case map_of xs k of None \<Rightarrow> xs | Some e \<Rightarrow> (k, e) # filter (\<lambda>p. fst p \<noteq> k) xs))),
     lru_pop = (\<lambda>k (n, xs). (n, filter (\<lambda>p. fst p \<noteq> k) xs)), lru_iter = snd\<rparr>"

definition list_lru_ok :: "(nat \<times> ('k \<times> 'e) list) set" where
  "list_lru_ok = {(n, xs). 0 < n \<and> length xs \<le> n \<and> distinct (map fst xs)}"

lemma map_of_filter_key: "map_of (filter (\<lambda>p. fst p \<noteq> k) xs) = (map_of xs)(k := None)"
  by (induction xs) (auto simp: fun_eq_iff)

lemma map_of_take: "distinct (map fst xs) \<Longrightarrow> map_of (take n xs) \<subseteq>\<^sub>m map_of xs"
  by (metis append_take_drop_id distinct_append map_append map_le_map_add map_of_append map_add_comm
      dom_map_of_conv_image_fst set_map)

lemma length_filter_key: "k \<in> fst ` set xs \<Longrightarrow> length (filter (\<lambda>p. fst p \<noteq> k) xs) < length xs"
  by (force intro!: length_filter_less)

lemma list_lru_laws: "lru_laws list_lru list_lru_ok"
proof -
  have put: "lru_put list_lru k e (n, xs) \<in> list_lru_ok \<and>
      map_of (take n ((k, e) # filter (\<lambda>p. fst p \<noteq> k) xs)) \<subseteq>\<^sub>m (map_of xs)(k \<mapsto> e) \<and>
      map_of (take n ((k, e) # filter (\<lambda>p. fst p \<noteq> k) xs)) k = Some e \<and>
      (length xs < n \<longrightarrow> map_of (take n ((k, e) # filter (\<lambda>p. fst p \<noteq> k) xs)) = (map_of xs)(k \<mapsto> e))"
    if "(n, xs) \<in> list_lru_ok" for k :: 'a and e :: 'b and n xs
  proof -
    let ?ys = "(k, e) # filter (\<lambda>p. fst p \<noteq> k) xs"
    have n: "0 < n" "length xs \<le> n" "distinct (map fst xs)" using that by (auto simp: list_lru_ok_def)
    have d: "distinct (map fst ?ys)" using n(3) by (auto simp: distinct_map_filter)
    have m: "map_of ?ys = (map_of xs)(k \<mapsto> e)" by (auto simp: map_of_filter_key fun_eq_iff)
    have "distinct (map fst (take n ?ys))" using d by (metis distinct_take take_map)
    moreover have "map_of (take n ?ys) k = Some e" using n(1) by (cases n) simp_all
    moreover have "take n ?ys = ?ys" if "length xs < n"
      using le_less_trans [OF length_filter_le that, of "\<lambda>p. fst p \<noteq> k"] by (intro take_all) simp
    ultimately show ?thesis
      using n(1) map_of_take [OF d, of n] m by (simp add: list_lru_def list_lru_ok_def del: take_Cons')
  qed
  have get: "snd (lru_get list_lru k (n, xs)) \<in> list_lru_ok \<and> lru_lookup list_lru (snd (lru_get list_lru k (n, xs))) = map_of xs"
    if "(n, xs) \<in> list_lru_ok" for k :: 'a and n and xs :: "('a \<times> 'b) list"
  proof (cases "map_of xs k")
    case (Some e)
    then have "length (filter (\<lambda>p. fst p \<noteq> k) xs) < length xs"
      by (intro length_filter_key) (metis domI dom_map_of_conv_image_fst)
    with Some that show ?thesis
      by (auto simp: list_lru_def list_lru_ok_def lru_lookup_def map_of_filter_key fun_eq_iff distinct_map_filter)
  qed (use that in \<open>simp add: list_lru_def lru_lookup_def\<close>)
  have pop: "lru_pop list_lru k (n, xs) \<in> list_lru_ok" if "(n, xs) \<in> list_lru_ok" for k :: 'a and n and xs :: "('a \<times> 'b) list"
    using that by (auto simp: list_lru_def list_lru_ok_def distinct_map_filter intro: le_trans [OF length_filter_le])
  show ?thesis
    unfolding lru_laws_def
    using put get pop
    by (auto simp: lru_lookup_def list_lru_def map_of_filter_key) (auto simp: list_lru_ok_def)
qed

theorem cache_never_serves_stale_witness:
  "fst (cache_get list_lru 5 (AccountId 1) (MessageId ''a'')
     (cache_put list_lru 2 (AccountId 1) (MessageId ''a'') (7 :: nat) (cache_new list_lru 2 3))) = Some 7"
proof -
  let ?L = "list_lru :: (cache_key, nat CacheEntry, nat \<times> (cache_key \<times> nat CacheEntry) list) lru"
  have "cache_new ?L 2 3 = fold (cache_exec ?L) [] (cache_new ?L 2 3)" by simp
  from cache_never_serves_stale [OF list_lru_laws _ this] show ?thesis by simp
qed

end
