(* ===== verification/Spec2Isabelle.thy ===== *)
theory Spec2Isabelle
  imports Account_Props Approval_Steps Auth_Steps Announce Daemon_Wait Wire Admin Stdio Transport Named_Pipe Cache
begin

text \<open>
  \<^bold>\<open>A verification library for mail-mcp.\<close>

  mail-mcp is a daemon that gives AI assistants access to a user's mail over the Model Context
  Protocol, under the user's control. A tool call comes in over HTTP with a bearer token, is checked
  against the pause switch and the stored policy of its account and category, waits for the user's
  approval where the policy asks for it, and then runs on the provider of the account (Gmail or
  Microsoft Graph). A tray application or the command line client manages accounts, policies and
  approvals over a local socket. This theory only gathers the others.

  \<^bold>\<open>Parts, and the theories that model them\<close> (paths below \<^verbatim>\<open>src/crates\<close>):

  \<^item> \<^verbatim>\<open>Mail_Prelude\<close>: errors (\<^verbatim>\<open>core/error.rs\<close>), results with panics as a third outcome, effects as
    functions on a world (\<open>io\<close>), the rules \<open>keeps\<close>, \<open>panic_free\<close> and \<open>safe\<close> that carry invariants
    through them, JSON, and the interfaces shared by several parts: keyed tables, transition
    systems, enumerations with wire names. \<^verbatim>\<open>Rust_Str\<close>: the string functions of the standard library.
    \<^verbatim>\<open>Core_Types\<close>: \<^verbatim>\<open>core/types.rs\<close>, \<^verbatim>\<open>core/providers/types.rs\<close>, \<^verbatim>\<open>trait.rs\<close>; the provider trait is a
    record of effects.
  \<^item> \<^verbatim>\<open>Storage_Db\<close>, \<^verbatim>\<open>Permissions\<close>, \<^verbatim>\<open>Account_Props\<close>: \<^verbatim>\<open>core/storage.rs\<close>, \<^verbatim>\<open>accounts.rs\<close>,
    \<^verbatim>\<open>permissions/mod.rs\<close>. One definition per SQL statement over the three tables with their
    constraints; any statement may fail. The schema is an invariant of every operation, also under
    faults, and the stored policies refine an abstract policy table.
  \<^item> \<^verbatim>\<open>Approvals\<close>, \<^verbatim>\<open>Approval_Steps\<close>: \<^verbatim>\<open>permissions/approvals.rs\<close>, first as functions, then as a step relation at
    the granularity of the lock, with callers, deciders and timers interleaved in any order. An
    approval is reported only after a decision for exactly that request, every waiting call can
    return, the functions are runs of the relation, and one schedule loses an accepted approval.
  \<^item> \<^verbatim>\<open>Enforce\<close>, \<^verbatim>\<open>Tools\<close>, \<^verbatim>\<open>Dispatch\<close>, \<^verbatim>\<open>Mcp_Server\<close>: \<^verbatim>\<open>permissions/enforce.rs\<close>, \<^verbatim>\<open>daemon/mcp/*.rs\<close>. Policy
    decision with session trust, the tool catalogue, routing to the provider, the HTTP handlers.
    A provider is called only with permission; draftify never sends; no request panics; without the
    token nothing happens. The locale \<open>mail_provider\<close> is the contract of the provider trait.
  \<^item> \<^verbatim>\<open>Net\<close>, \<^verbatim>\<open>Loopback\<close>, \<^verbatim>\<open>Oauth\<close>, \<^verbatim>\<open>Auth_Client\<close>, \<^verbatim>\<open>Auth_Steps\<close>: \<^verbatim>\<open>core/secrets.rs\<close>, \<^verbatim>\<open>oauth/*.rs\<close>, \<^verbatim>\<open>gmail/client.rs\<close>.
    The keychain as a table, the sign-in with its listener, token refresh, retry and rotation: first a
    call that runs alone, then overlapping calls on one client as a step relation at the granularity
    of the token lock. Each call sends at most twice; the keychain follows the client as long as
    refreshes do not overlap, and can be left behind when they do.
  \<^item> \<^verbatim>\<open>Gmail_Parse\<close>, \<^verbatim>\<open>Gmail\<close>, \<^verbatim>\<open>M365\<close>: \<^verbatim>\<open>providers/gmail/*.rs\<close>, \<^verbatim>\<open>providers/m365/*.rs\<close>. Every operation down to the HTTP
    requests; both providers interpret \<open>mail_provider\<close>.
  \<^item> \<^verbatim>\<open>Wire\<close>: the requests with a token that a tool call causes, through dispatch, provider and client. The
    locale \<open>wire_provider\<close> says that every operation of a provider sends only requests of its category;
    both providers interpret it, so the category of a tool bounds what a call does, a draftified send
    only writes a draft, and a batch goes message by message and stops at the first failure.
  \<^item> \<^verbatim>\<open>Ipc\<close>, \<^verbatim>\<open>Ipc_Server\<close>: \<^verbatim>\<open>core/ipc/messages.rs\<close>, \<^verbatim>\<open>server.rs\<close>. Messages, JSON-RPC, a connection over the lines
    it reads, the notifications that arrive meanwhile and the failures of either direction, and the
    server with its accept loop and all connections on one handler. The locale \<open>ipc_handler\<close> is what the
    server relies on of its handler; its lemmas say that every line gets exactly one answer, on its
    own connection, whatever the other connections do.
  \<^item> \<^verbatim>\<open>Announce\<close>: the way of an approval from the queue through the two forwarding tasks (\<^verbatim>\<open>daemon/main.rs\<close>,
    \<^verbatim>\<open>core/ipc/server.rs\<close>) to a subscribed client. While the tasks keep up, the client shows the pending
    approvals and those that timed out; after one receive error it is told nothing any more.
  \<^item> \<^verbatim>\<open>Daemon\<close>, \<^verbatim>\<open>Daemon_Props\<close>: \<^verbatim>\<open>daemon/ipc_handler.rs\<close>. Every method on the state shared with the MCP
    server. The invariant of the daemon (well-formed database, every registered provider on a client
    of its own account) is kept by IPC, MCP and start-up; the handler interprets \<open>ipc_handler\<close>.
  \<^item> \<^verbatim>\<open>Daemon_Wait\<close>: \<open>dispatch\<close> and the handler together. While a tool call waits for the user, the daemon
    serves IPC requests and runs the pieces of other calls, in any order; the first decision in time
    settles the call.
  \<^item> \<^verbatim>\<open>Admin\<close>: \<^verbatim>\<open>mail-mcp-admin\<close>. The IPC client and every subcommand. A call of the client is a call of
    the daemon's handler, through the wire and with notifications in between.
  \<^item> \<^verbatim>\<open>Files\<close>, \<^verbatim>\<open>Lifecycle\<close>, \<^verbatim>\<open>Transport\<close>, \<^verbatim>\<open>Named_Pipe\<close>: \<^verbatim>\<open>core/paths.rs\<close>, \<^verbatim>\<open>daemon/lifecycle.rs\<close>,
    \<^verbatim>\<open>core/ipc/transport.rs\<close> for Unix and for Windows. A file system with faults that records every state others could observe:
    the endpoint file is written atomically and privately, the socket is never exposed. The process
    lock is a transition system: one daemon until a shutdown, two after an unlucky one. Clients of the
    named pipe are accepted in the order in which they connect.
  \<^item> \<^verbatim>\<open>Logging\<close>: \<^verbatim>\<open>core/logging.rs\<close>. The three patterns of \<open>redact\<close> as pieces over Unicode scalar values, and
    their passes: the result matches none of them, whatever the text. The set-up of the log is part
    of \<open>daemon_main\<close>.
  \<^item> \<^verbatim>\<open>Startup\<close>, \<^verbatim>\<open>Stdio\<close>: \<^verbatim>\<open>daemon/main.rs\<close> until it serves and at its end, the router of \<^verbatim>\<open>mcp/server.rs\<close>, \<^verbatim>\<open>mail-mcp-stdio\<close>. A
    shim that reads the endpoint file of a started daemon is transparent.
  \<^item> \<^verbatim>\<open>Cache\<close>: \<^verbatim>\<open>core/cache.rs\<close> against an ideal table.

  \<^bold>\<open>Code that is not here.\<close> Functions of other packages are fields of the record \<open>crates\<close> (identifiers,
  JSON text, time, base64, hashing, percent encoding, MIME), of \<open>axum\<close> and \<open>lru\<close>; servers, clock and
  keychain are the record \<open>env\<close>, functions of the whole history, so every behaviour is covered. What a
  theorem relies on is a hypothesis: \<open>ulid_round_trip\<close>, \<open>wire_ok\<close> for the messages at hand, \<open>lru_laws\<close>,
  \<open>regex_laws\<close> (the leftmost matches, the greedy one at each place, and a few facts on \<^verbatim>\<open>\w\<close>), \<open>calm\<close> (token
  lifetimes in the range of the time library). \<open>sample_crates\<close> and \<open>sample_regex\<close> evaluate concrete runs.

  \<^bold>\<open>Bounds.\<close> Machine integers are words where the code casts them (\<open>u32\<close> and \<open>u64\<close> counts and limits, request
  identifiers, file modes), integers elsewhere. No definition takes fuel: loops are structural or have a
  termination proof, and a call that may wait for ever returns \<open>None\<close> (the listener on a silent
  connection, \<open>complete_oauth\<close>, a client whose peer never answers), with theorems for when it returns.

  \<^bold>\<open>Simplifications.\<close> A JSON object is the list of its members, looked up by name. MCP and IPC requests
  run one after the other, except while a call waits for approval: there other requests and the pieces
  of other calls run in any order. Inside the approval queue, the token cell of a client and the process
  lock all interleavings are covered. A broadcast channel is seen from its receivers: the results of
  \<^verbatim>\<open>recv\<close> are the sent values in order, less those reported as dropped. A named pipe is a list of
  instances, of which a client takes the first free one.

  \<^bold>\<open>Not modelled.\<close> The writing of the log by the tracing packages, waiting for signals, reading and
  writing of sockets and pipes, connecting to the database and running its migrations (sqlx;
  \<open>migrations_ok\<close> is what is relied on), parsing of command lines (clap), and the tray applications in
  Swift and C#.
\<close>

end
